(* ===== verification/Prelude.thy ===== *)
theory Prelude
  imports "HOL-Library.Word"
begin

text \<open>
  Shared vocabulary of the development: names for the C integer types, byte buffers and
  their little-endian encodings, Zephyr's bit macros, and three interfaces every component
  uses: a register of independent flags, a machine that keeps an invariant, and a
  fixed-width codec.  The theorem collections declared here gather the facts that the
  component theories pass to the simplifier.
\<close>

unbundle bit_operations_syntax

named_theorems frame \<open>state components that an operation leaves alone\<close>
named_theorems buffer \<open>reads and writes of byte buffers\<close>
named_theorems trace_simps \<open>what an operation appends to the call trace\<close>

type_synonym u8 = "8 word"
type_synonym u16 = "16 word"
type_synonym u32 = "32 word"
type_synonym bytes = "u8 list"

section \<open>C arithmetic\<close>

text \<open>The division of C truncates towards zero.\<close>

definition c_div :: "int \<Rightarrow> int \<Rightarrow> int" where
  "c_div a b = sgn a * sgn b * (\<bar>a\<bar> div \<bar>b\<bar>)"

text \<open>Conversion of an \<open>int\<close> to a 16-bit signed variable, as the compiler does it.\<close>

definition to_s16 :: "int \<Rightarrow> int" where
  "to_s16 x = sint (word_of_int x :: u16)"

lemma c_div_nonneg: "0 \<le> a \<Longrightarrow> 0 < b \<Longrightarrow> c_div a b = a div b"
  by (cases "a = 0") (simp_all add: c_div_def)

lemma c_div_neg: "a < 0 \<Longrightarrow> 0 < b \<Longrightarrow> c_div a b = - ((- a) div b)"
  by (simp add: c_div_def)

lemma to_s16_range: "- 32768 \<le> to_s16 x" "to_s16 x < 32768"
  using sint_ge [of "word_of_int x :: u16"] sint_lt [of "word_of_int x :: u16"]
  by (simp_all add: to_s16_def)

section \<open>Byte buffers\<close>

text \<open>
  \<open>put_at off bs buf\<close> is \<open>memcpy(buf + off, bs, length bs)\<close>, \<open>get_at off n buf\<close>
  the \<open>n\<close> bytes from \<open>buf + off\<close>.  The callers establish that the range lies in the buffer.
\<close>

definition put_at :: "nat \<Rightarrow> 'a list \<Rightarrow> 'a list \<Rightarrow> 'a list" where
  "put_at off bs buf = take off buf @ bs @ drop (off + length bs) buf"

definition get_at :: "nat \<Rightarrow> nat \<Rightarrow> 'a list \<Rightarrow> 'a list" where
  "get_at off n buf = take n (drop off buf)"

lemma length_put_at [buffer]:
  "off + length bs \<le> length buf \<Longrightarrow> length (put_at off bs buf) = length buf"
  by (simp add: put_at_def)

lemma length_get_at [buffer]:
  "off + n \<le> length buf \<Longrightarrow> length (get_at off n buf) = n"
  by (simp add: get_at_def)

lemma get_at_put_at_same [buffer]:
  "off + length bs \<le> length buf \<Longrightarrow> n = length bs \<Longrightarrow> get_at off n (put_at off bs buf) = bs"
  by (simp add: get_at_def put_at_def)

lemma get_at_put_at_before [buffer]:
  "o1 + n \<le> o2 \<Longrightarrow> o2 + length bs \<le> length buf \<Longrightarrow>
   get_at o1 n (put_at o2 bs buf) = get_at o1 n buf"
  by (auto simp: get_at_def put_at_def drop_take min_def)

lemma get_at_put_at_after [buffer]:
  "o2 + length bs \<le> o1 \<Longrightarrow> o2 \<le> length buf \<Longrightarrow>
   get_at o1 n (put_at o2 bs buf) = get_at o1 n buf"
  by (simp add: get_at_def put_at_def)

lemma get_at_append_left [buffer]:
  "off + n \<le> length xs \<Longrightarrow> get_at off n (xs @ ys) = get_at off n xs"
  by (simp add: get_at_def)

lemma get_at_append_right [buffer]:
  "length xs \<le> off \<Longrightarrow> get_at off n (xs @ ys) = get_at (off - length xs) n ys"
  by (simp add: get_at_def)

lemma get_at_0 [buffer]: "length xs = n \<Longrightarrow> get_at 0 n xs = xs"
  by (simp add: get_at_def)

lemma get_at_0_append [buffer]: "length xs = n \<Longrightarrow> get_at 0 n (xs @ ys) = xs"
  by (simp add: get_at_def)

lemma put_at_0_all [buffer]: "length bs = length buf \<Longrightarrow> put_at 0 bs buf = bs"
  by (simp add: put_at_def)

section \<open>Little-endian encodings\<close>

definition le16 :: "u16 \<Rightarrow> bytes" where
  "le16 w = [ucast w, ucast (drop_bit 8 w)]"

definition un_le16 :: "bytes \<Rightarrow> u16" where
  "un_le16 bs = ucast (bs ! 0) OR push_bit 8 (ucast (bs ! 1))"

definition le32 :: "u32 \<Rightarrow> bytes" where
  "le32 w = [ucast w, ucast (drop_bit 8 w), ucast (drop_bit 16 w), ucast (drop_bit 24 w)]"

definition un_le32 :: "bytes \<Rightarrow> u32" where
  "un_le32 bs = ucast (bs ! 0) OR push_bit 8 (ucast (bs ! 1))
     OR push_bit 16 (ucast (bs ! 2)) OR push_bit 24 (ucast (bs ! 3))"

lemma length_le16 [simp]: "length (le16 w) = 2"
  by (simp add: le16_def)

lemma length_le32 [simp]: "length (le32 w) = 4"
  by (simp add: le32_def)

lemma un_le16_le16 [simp]: "un_le16 (le16 w) = w"
  unfolding un_le16_def le16_def
  by (rule bit_word_eqI) (auto simp: bit_simps)

lemma un_le32_le32 [simp]: "un_le32 (le32 w) = w"
proof (rule bit_word_eqI)
  fix n
  assume "n < LENGTH(32)"
  then consider "n < 8" | "8 \<le> n" "n < 16" | "16 \<le> n" "n < 24" | "24 \<le> n" "n < 32"
    by fastforce
  then show "bit (un_le32 (le32 w)) n = bit w n"
    by cases (auto simp: un_le32_def le32_def bit_simps)
qed

section \<open>An interface: fixed-width codecs\<close>

text \<open>
  A type stored as a fixed number of bytes.  The client lemmas say what a reader sees of a
  value written into a larger buffer.
\<close>

locale codec =
  fixes enc :: "'a \<Rightarrow> bytes"
    and dec :: "bytes \<Rightarrow> 'a"
    and width :: nat
    and wf :: "'a \<Rightarrow> bool"
  assumes width_enc: "wf x \<Longrightarrow> length (enc x) = width"
    and dec_enc: "wf x \<Longrightarrow> dec (enc x) = x"
begin

lemma read_back:
  assumes "wf x" and "off + width \<le> length buf"
  shows "dec (get_at off width (put_at off (enc x) buf)) = x"
  using assms by (simp add: get_at_put_at_same width_enc dec_enc)

lemma whole_read_back:
  assumes "wf x" and "length buf = width"
  shows "dec (put_at 0 (enc x) buf) = x"
  using assms by (simp add: put_at_0_all width_enc dec_enc)

lemma enc_inj: "wf x \<Longrightarrow> wf y \<Longrightarrow> enc x = enc y \<Longrightarrow> x = y"
  using dec_enc by metis

end

interpretation le16: codec le16 un_le16 2 "\<lambda>_. True"
  by unfold_locales simp_all

interpretation le32: codec le32 un_le32 4 "\<lambda>_. True"
  by unfold_locales simp_all

section \<open>An interface: registers of independent flags\<close>

text \<open>
  Zephyr's \<open>BIT(i)\<close> and \<open>WRITE_BIT(var, i, v)\<close> on a 32-bit variable, and the test
  \<open>var & BIT(i)\<close>.  The advertising requests, the authenticated connections and the UI
  states are all kept as bits; each provides the laws of the locale below.
\<close>

definition BIT :: "nat \<Rightarrow> u32" where
  "BIT i = push_bit i 1"

definition WRITE_BIT :: "u32 \<Rightarrow> nat \<Rightarrow> bool \<Rightarrow> u32" where
  "WRITE_BIT var i v = (if v then var OR BIT i else var AND NOT (BIT i))"

definition TEST_BIT :: "u32 \<Rightarrow> nat \<Rightarrow> bool" where
  "TEST_BIT var i \<longleftrightarrow> var AND BIT i \<noteq> 0"

locale flag_register =
  fixes get :: "'r \<Rightarrow> 'i \<Rightarrow> bool"
    and put :: "'r \<Rightarrow> 'i \<Rightarrow> bool \<Rightarrow> 'r"
    and valid :: "'i \<Rightarrow> bool"
  assumes get_put_same: "valid i \<Longrightarrow> get (put r i v) i = v"
    and get_put_other: "valid i \<Longrightarrow> valid j \<Longrightarrow> j \<noteq> i \<Longrightarrow> get (put r i v) j = get r j"
begin

lemma get_put: "valid i \<Longrightarrow> valid j \<Longrightarrow> get (put r i v) j = (if j = i then v else get r j)"
  by (simp add: get_put_same get_put_other)

lemma view_put_put:
  "valid i \<Longrightarrow> valid j \<Longrightarrow> get (put (put r i u) i v) j = get (put r i v) j"
  by (simp add: get_put)

lemma view_put_commute:
  "valid i \<Longrightarrow> valid j \<Longrightarrow> valid k \<Longrightarrow> i \<noteq> k \<Longrightarrow>
   get (put (put r i u) k v) j = get (put (put r k v) i u) j"
  by (simp add: get_put)

lemma get_put_all:
  assumes "\<forall>i \<in> set ks. valid i" and "valid j"
  shows "get (fold (\<lambda>i r. put r i v) ks r) j = (if j \<in> set ks then v else get r j)"
  using assms
proof (induction ks arbitrary: r)
  case Nil
  then show ?case by simp
next
  case (Cons i ks)
  then show ?case by (auto simp: get_put)
qed

end

lemma TEST_BIT_iff: "i < 32 \<Longrightarrow> TEST_BIT var i \<longleftrightarrow> bit var i"
  by (simp add: TEST_BIT_def BIT_def and_exp_eq_0_iff_not_bit push_bit_eq_mult)

lemma bit_WRITE_BIT: "i < 32 \<Longrightarrow> bit (WRITE_BIT var i v) j = (if j = i then v else bit var j)"
  by (auto simp: WRITE_BIT_def BIT_def bit_simps dest: bit_imp_le_length)

interpretation word_flags: flag_register TEST_BIT WRITE_BIT "\<lambda>i. i < 32"
  by unfold_locales (simp_all add: TEST_BIT_iff bit_WRITE_BIT)

lemma word_zero_iff_no_flag: "(var :: u32) = 0 \<longleftrightarrow> (\<forall>i < 32. \<not> TEST_BIT var i)"
  by (auto simp: TEST_BIT_iff intro: bit_word_eqI)

section \<open>An interface: machines with an invariant\<close>

text \<open>
  A component driven by callbacks: \<open>step e s\<close> runs the handler of event \<open>e\<close>,
  \<open>ok e s\<close> says what the caller guarantees when it raises \<open>e\<close>.  A provider proves
  that each handler keeps the invariant, and obtains it for every run.
\<close>

fun run :: "('e \<Rightarrow> 's \<Rightarrow> 's) \<Rightarrow> 'e list \<Rightarrow> 's \<Rightarrow> 's" where
  "run step [] s = s"
| "run step (e # es) s = run step es (step e s)"

fun run_ok :: "('e \<Rightarrow> 's \<Rightarrow> bool) \<Rightarrow> ('e \<Rightarrow> 's \<Rightarrow> 's) \<Rightarrow> 'e list \<Rightarrow> 's \<Rightarrow> bool" where
  "run_ok ok step [] s = True"
| "run_ok ok step (e # es) s = (ok e s \<and> run_ok ok step es (step e s))"

lemma run_append: "run step (es @ fs) s = run step fs (run step es s)"
  by (induction es arbitrary: s) simp_all

lemma run_ok_append: "run_ok ok step (es @ fs) s \<longleftrightarrow> run_ok ok step es s \<and> run_ok ok step fs (run step es s)"
  by (induction es arbitrary: s) simp_all

lemma run_ok_True: "run_ok (\<lambda>_ _. True) step es s"
  by (induction es arbitrary: s) simp_all

locale invariant_machine =
  fixes step :: "'e \<Rightarrow> 's \<Rightarrow> 's"
    and ok :: "'e \<Rightarrow> 's \<Rightarrow> bool"
    and inv :: "'s \<Rightarrow> bool"
  assumes step_inv: "inv s \<Longrightarrow> ok e s \<Longrightarrow> inv (step e s)"
begin

lemma run_inv: "inv s \<Longrightarrow> run_ok ok step es s \<Longrightarrow> inv (run step es s)"
  by (induction es arbitrary: s) (simp_all add: step_inv)

end

text \<open>A machine that moreover implements an abstract one, event by event.\<close>

locale simulation = invariant_machine step ok inv
  for step :: "'e \<Rightarrow> 's \<Rightarrow> 's" and ok :: "'e \<Rightarrow> 's \<Rightarrow> bool" and inv :: "'s \<Rightarrow> bool" +
  fixes abs :: "'s \<Rightarrow> 'a"
    and astep :: "'e \<Rightarrow> 'a \<Rightarrow> 'a"
  assumes abs_step: "inv s \<Longrightarrow> ok e s \<Longrightarrow> abs (step e s) = astep e (abs s)"
begin

lemma run_abs: "inv s \<Longrightarrow> run_ok ok step es s \<Longrightarrow> abs (run step es s) = run astep es (abs s)"
  by (induction es arbitrary: s) (simp_all add: step_inv abs_step)

end

end
