(* ===== verification/Platform.thy ===== *)
theory Platform
  imports Prelude
begin

text \<open>
  The boundary between the firmware and everything that is not under src/: the Zephyr
  kernel, the Bluetooth host, the Fast Pair / FMDN library and the device drivers.

  A call across that boundary is an event.  The state of the firmware (record \<open>io\<close>, which
  every component extends) holds the trace of the events so far, oldest first, and whether
  the processor has been reset.  What a call returns is decided by the environment
  \<open>env\<close>, a parameter of the model: \<open>ret\<close>, \<open>out\<close>, \<open>rdata\<close> and \<open>ads\<close> read the
  trace that ends with the call and give its return code, its integer output parameter, the
  bytes it writes through a pointer and the advertising structures it builds;
  \<open>ticks_per_sec\<close> is the kernel's configured tick rate.  As the trace
  grows with every call, this allows any behaviour of the outside, calls that fail at any
  time included.

  Logging inside the operations is not modelled.  \<open>__ASSERT\<close> is compiled out in both configurations
  (\<open>CONFIG_ASSERT\<close> is not set), so a failing assertion has no effect; the model leaves an
  \<open>Assert_fail\<close> event in the trace, so that lemmas can say that none fails.
\<close>

section \<open>Types of the external interfaces\<close>

datatype work =
    W_init | W_stop_discoverable | W_factory_reset | W_fp_adv_restart | W_fp_adv_rpa_suspension
  | W_dfu_mode_timeout | W_authorisation | W_connection | W_parse_and_reply | W_uart_lifetime
  | W_uart_msg | W_time_supervisor | W_battery_activity | W_battery_poll | W_battery_level_set
  | W_wdt_feed | W_buzzer_beep | W_btn_press_beep | W_cancel_ringing

datatype mutex = M_adv | M_svc | M_uart_pm | M_time | M_battery

type_synonym conn = nat
type_synonym adv_set = nat
type_synonym bt_data = "u8 \<times> bytes"

text \<open>\<open>struct bt_le_adv_param\<close>, and \<open>struct bt_le_adv_prov_adv_state\<close> with the handle.\<close>

record bt_le_adv_param =
  ap_id :: int
  ap_sid :: nat
  ap_use_identity :: bool
  ap_interval_min :: u16
  ap_interval_max :: u16

record bt_le_adv_prov_adv_state =
  as_pairing_mode :: bool
  as_rpa_rotated :: bool
  as_new_adv_session :: bool
  as_adv_handle :: int

datatype fmdn_read_mode = READ_MODE_FMDN_RECOVERY | READ_MODE_DULT_ID

datatype ring_src = RING_SRC_FMDN_BT_GATT | RING_SRC_DULT_BT_GATT | RING_SRC_DULT_MOTION_DETECTOR

datatype ring_trigger =
  RING_TRIGGER_STARTED | RING_TRIGGER_UI_STOPPED | RING_TRIGGER_GATT_STOPPED
| RING_TRIGGER_TIMEOUT_STOPPED

record ring_state_param =
  rp_trigger :: ring_trigger
  rp_active_comp_bm :: u8
  rp_timeout :: u16

text \<open>The levels of \<open>bt_security_t\<close> are compared with \<open><\<close> in the code.\<close>

datatype bt_security = BT_SECURITY_L0 | BT_SECURITY_L1 | BT_SECURITY_L2 | BT_SECURITY_L3 | BT_SECURITY_L4

fun security_rank :: "bt_security \<Rightarrow> nat" where
  "security_rank BT_SECURITY_L0 = 0"
| "security_rank BT_SECURITY_L1 = 1"
| "security_rank BT_SECURITY_L2 = 2"
| "security_rank BT_SECURITY_L3 = 3"
| "security_rank BT_SECURITY_L4 = 4"

lemma security_rank_inj: "security_rank a = security_rank b \<Longrightarrow> a = b"
  by (cases a; cases b) simp_all

instantiation bt_security :: linorder
begin

definition less_eq_bt_security :: "bt_security \<Rightarrow> bt_security \<Rightarrow> bool" where
  "less_eq_bt_security a b \<longleftrightarrow> security_rank a \<le> security_rank b"

definition less_bt_security :: "bt_security \<Rightarrow> bt_security \<Rightarrow> bool" where
  "less_bt_security a b \<longleftrightarrow> security_rank a < security_rank b"

instance
  by standard (auto simp: less_eq_bt_security_def less_bt_security_def dest: security_rank_inj)

end

section \<open>Calls\<close>

datatype kernel_call =
    Work_init work | Work_submit work | Work_schedule work nat | Work_reschedule work nat
  | Work_cancel work
  | Mutex_lock mutex | Mutex_unlock mutex
  | Sleep_ms nat | Uptime_get | Uptime_ticks | Csrand_get
  | Sem_give | Sem_take nat | Busy_wait_us nat
  | Sys_reboot | Panic

datatype bt_call =
    Bt_enable | Settings_load | Conn_auth_cb_register | Gatt_authorization_cb_register
  | Id_get | Id_create | Id_reset nat | Foreach_bond int
  | Hci_get_adv_handle adv_set | Prov_fast_pair_enable bool
  | Prov_get_ad bt_le_adv_prov_adv_state | Prov_get_sd bt_le_adv_prov_adv_state
  | Ext_adv_create bt_le_adv_param | Ext_adv_start adv_set | Ext_adv_stop adv_set
  | Ext_adv_delete adv_set | Ext_adv_set_data adv_set "bt_data list" "bt_data list"
  | Ext_adv_update_param adv_set bt_le_adv_param
  | Oob_get_local int | Set_rpa_timeout u16
  | Conn_ref conn | Conn_unref conn | Conn_disconnect conn | Conn_get_info conn | Conn_index conn
  | Gatt_exchange_mtu conn | Gatt_get_mtu conn | Gatt_notify conn bytes | Gatt_attr_read bytes nat nat

datatype fp_call =
    Fp_info_cb_register | Fmdn_info_cb_register | Fmdn_read_mode_cb_register
  | Motion_detector_cb_register | Ring_cb_register
  | Fp_is_ready | Fp_has_account_key | Fmdn_is_provisioned
  | Fp_enable | Fp_disable | Fp_factory_reset
  | Fmdn_id_set nat | Fmdn_adv_param_set nat nat
  | Fmdn_read_mode_enter fmdn_read_mode
  | Ring_state_update ring_src ring_state_param
  | Battery_level_set u8

datatype dev_call =
    Device_is_ready string | Flash_get_page_info | Nvs_mount
  | Nvs_read u16 nat | Nvs_write u16 bytes | Nvs_delete u16 | Ficr_deviceaddr nat
  | Uart_callback_set | Uart_rx_enable nat | Uart_rx_disable | Uart_rx_buf_rsp nat | Uart_tx bytes
  | Pm_resume string | Pm_suspend string
  | Leds_init | Buttons_init | Pwm_set bool | Gpio_get string
  | Wdt_install_timeout nat | Wdt_setup | Wdt_feed int
  | Adc_is_ready | Adc_channel_setup | Adc_sequence_init | Adc_read | Adc_raw_to_millivolts int
  | I2c_write_reg u8 u8 | I2c_read_reg u8
  | Gpio_is_ready string | Gpio_configure_input string | Gpio_interrupt_both_edges string
  | Gpio_init_callback string | Gpio_add_callback string

datatype ev =
    K kernel_call | BT bt_call | FP fp_call | DEV dev_call
  | Assert_fail string

section \<open>The environment and the call primitive\<close>

record env =
  ret :: "ev list \<Rightarrow> int"
  out :: "ev list \<Rightarrow> int"
  rdata :: "ev list \<Rightarrow> bytes"
  ads :: "ev list \<Rightarrow> bt_data list"
  ticks_per_sec :: int

datatype halt = Rebooted | Panicked

record io =
  trace :: "ev list"
  halted :: "halt option"

definition io_init :: io where
  "io_init = \<lparr>trace = [], halted = None\<rparr>"

text \<open>An environment in which every call returns \<open>r\<close>, for concrete runs.\<close>

definition const_env :: "int \<Rightarrow> env" where
  "const_env r = \<lparr>ret = (\<lambda>_. r), out = (\<lambda>_. 0), rdata = (\<lambda>_. []), ads = (\<lambda>_. []),
     ticks_per_sec = 32768\<rparr>"

definition invoke :: "ev \<Rightarrow> 'a io_scheme \<Rightarrow> 'a io_scheme" where
  "invoke e s = s\<lparr>trace := trace s @ [e]\<rparr>"

definition result :: "env \<Rightarrow> 'a io_scheme \<Rightarrow> int" where
  "result E s = ret E (trace s)"

definition outval :: "env \<Rightarrow> 'a io_scheme \<Rightarrow> int" where
  "outval E s = out E (trace s)"

definition check :: "string \<Rightarrow> bool \<Rightarrow> 'a io_scheme \<Rightarrow> 'a io_scheme" where
  "check what b s = (if b then s else invoke (Assert_fail what) s)"

text \<open>\<open>sys_reboot\<close> and \<open>k_panic\<close> do not return.\<close>

definition sys_reboot :: "'a io_scheme \<Rightarrow> 'a io_scheme" where
  "sys_reboot s = (invoke (K Sys_reboot) s)\<lparr>halted := Some Rebooted\<rparr>"

definition k_panic :: "'a io_scheme \<Rightarrow> 'a io_scheme" where
  "k_panic s = (invoke (K Panic) s)\<lparr>halted := Some Panicked\<rparr>"

text \<open>Error codes (the code uses the names only).\<close>

definition ENOENT :: int where "ENOENT = 2"
definition EIO :: int where "EIO = 5"
definition EACCES :: int where "EACCES = 13"
definition ENODEV :: int where "ENODEV = 19"
definition EINVAL :: int where "EINVAL = 22"
definition ENODATA :: int where "ENODATA = 61"
definition EALREADY :: int where "EALREADY = 120"
definition ENOTCONN :: int where "ENOTCONN = 128"

lemmas errno_defs = ENOENT_def EIO_def EACCES_def ENODEV_def EINVAL_def ENODATA_def EALREADY_def ENOTCONN_def

lemma trace_invoke [simp]: "trace (invoke e s) = trace s @ [e]"
  by (simp add: invoke_def)

lemma halted_invoke [simp]: "halted (invoke e s) = halted s"
  by (simp add: invoke_def)

lemma halted_check [simp]: "halted (check w b s) = halted s"
  by (simp add: check_def)

lemma check_True [simp]: "check w True s = s"
  by (simp add: check_def)

lemma check_id: "b \<Longrightarrow> check w b s = s"
  by simp

section \<open>Lock discipline\<close>

text \<open>
  The state of the firmware's mutexes along a trace: no mutex held, one held, or a broken
  discipline (a mutex taken while another one is held, which can deadlock against a thread
  that takes the two in the other order, or released by an operation that does not hold it).
\<close>

datatype lock_state = Free | Held mutex | Broken

fun lock_step :: "lock_state \<Rightarrow> ev \<Rightarrow> lock_state" where
  "lock_step Free (K (Mutex_lock m)) = Held m"
| "lock_step (Held m) (K (Mutex_unlock n)) = (if m = n then Free else Broken)"
| "lock_step l (K (Mutex_lock m)) = Broken"
| "lock_step l (K (Mutex_unlock m)) = Broken"
| "lock_step l e = l"

definition locks :: "ev list \<Rightarrow> lock_state" where
  "locks = foldl lock_step Free"

lemma locks_Nil [simp]: "locks [] = Free"
  by (simp add: locks_def)

lemma locks_append [simp]: "locks (es @ fs) = foldl lock_step (locks es) fs"
  by (simp add: locks_def)

lemma lock_step_BT [simp]: "lock_step l (BT c) = l" by (cases l) simp_all
lemma lock_step_FP [simp]: "lock_step l (FP c) = l" by (cases l) simp_all
lemma lock_step_DEV [simp]: "lock_step l (DEV c) = l" by (cases l) simp_all
lemma lock_step_Assert [simp]: "lock_step l (Assert_fail c) = l" by (cases l) simp_all

lemma lock_step_K_other [simp]:
  "\<forall>m. k \<noteq> Mutex_lock m \<and> k \<noteq> Mutex_unlock m \<Longrightarrow> lock_step l (K k) = l"
  by (cases l; cases k) simp_all

definition lock :: "mutex \<Rightarrow> 'a io_scheme \<Rightarrow> 'a io_scheme" where
  "lock m s = invoke (K (Mutex_lock m)) s"

definition unlock :: "mutex \<Rightarrow> 'a io_scheme \<Rightarrow> 'a io_scheme" where
  "unlock m s = invoke (K (Mutex_unlock m)) s"

lemma trace_lock [simp]: "trace (lock m s) = trace s @ [K (Mutex_lock m)]"
  by (simp add: lock_def)

lemma trace_unlock [simp]: "trace (unlock m s) = trace s @ [K (Mutex_unlock m)]"
  by (simp add: unlock_def)

lemma halted_lock [simp]: "halted (lock m s) = halted s" "halted (unlock m s) = halted s"
  by (simp_all add: lock_def unlock_def)

lemma locks_check [simp]: "locks (trace (check w b s)) = locks (trace s)"
  by (simp add: check_def)

lemmas io_defs = invoke_def lock_def unlock_def result_def outval_def

text \<open>Contract shared by the operations of all components: they append to the trace.\<close>

definition extends :: "'a io_scheme \<Rightarrow> 'b io_scheme \<Rightarrow> bool" where
  "extends s t \<longleftrightarrow> (\<exists>es. trace t = trace s @ es)"

lemma extends_refl [intro, simp]: "extends s s"
  by (simp add: extends_def)

lemma extends_trans: "extends s t \<Longrightarrow> extends t u \<Longrightarrow> extends s u"
  by (auto simp: extends_def)

lemma extends_invoke [simp]: "extends s (invoke e s)"
  by (simp add: extends_def)

text \<open>No assertion failed along a trace.\<close>

definition is_assert_fail :: "ev \<Rightarrow> bool" where
  "is_assert_fail e = (case e of Assert_fail _ \<Rightarrow> True | _ \<Rightarrow> False)"

definition asserts_hold :: "ev list \<Rightarrow> bool" where
  "asserts_hold es \<longleftrightarrow> \<not> list_ex is_assert_fail es"

lemma asserts_hold_Nil [simp]: "asserts_hold []"
  by (simp add: asserts_hold_def)

lemma asserts_hold_append [simp]:
  "asserts_hold (es @ fs) \<longleftrightarrow> asserts_hold es \<and> asserts_hold fs"
  by (auto simp: asserts_hold_def)

lemma asserts_hold_Cons [simp]:
  "asserts_hold (e # es) \<longleftrightarrow> \<not> is_assert_fail e \<and> asserts_hold es"
  by (simp add: asserts_hold_def)

lemma is_assert_fail_simps [simp]:
  "\<not> is_assert_fail (K k)" "\<not> is_assert_fail (BT b)" "\<not> is_assert_fail (FP f)"
  "\<not> is_assert_fail (DEV d)" "is_assert_fail (Assert_fail w)"
  by (simp_all add: is_assert_fail_def)

end
