(* ===== verification/Storage.thy ===== *)
theory Storage
  imports Platform
begin

text \<open>
  The persistent data of the tracker and its verification at boot: the three packed
  structures of include/app_vision_production.h with their byte layout,
  src/vision_nvs_storage.c, and src/vision_bootup.c.

  Record \<open>gst\<close> holds the globals \<open>gst_ProductionData\<close>, \<open>gst_ConfigData\<close>,
  \<open>gst_DynamicData\<close> and the factory MAC.  A structure is stored as the bytes of its packed,
  little-endian layout; \<open>aligned(4)\<close> rounds each size up to a multiple of four, so the
  layout ends in explicit padding.  The \<open>float\<close> in the dynamic data is kept as its 32 bits.
\<close>

section \<open>Data\<close>

definition BLE_GAP_ADDR_LEN :: nat where "BLE_GAP_ADDR_LEN = 6"
definition SR_NUM_SIZE :: nat where "SR_NUM_SIZE = 18"
definition MAX_PASSWORD_SIZE :: nat where "MAX_PASSWORD_SIZE = 16"
definition MODEL_NUMBER_LEN :: nat where "MODEL_NUMBER_LEN = 12"

lemmas len_defs = BLE_GAP_ADDR_LEN_def SR_NUM_SIZE_def MAX_PASSWORD_SIZE_def MODEL_NUMBER_LEN_def

record energy_save_para =
  u16_StartMinutes :: u16
  u16_EndMinutes :: u16
  mu16_EnergySavingAdvInterval :: u16
  mu8_EnergySavingGlobalTxPow :: u8

record st_ProductionData =
  pd_MagicNumber :: u16
  pd_MACAddr :: bytes
  pd_SerialNumber :: bytes
  pd_Password :: bytes
  pd_ModelNumber :: bytes
  pd_pad :: bytes

record st_ConfigData =
  cd_MagicNumber :: u16
  cd_AdvertismentInterval :: u16
  cd_TxPow :: u8
  cd_Movement_INT_THS :: u8
  cd_Movement_INT_TIME :: u8
  cd_DeepSleepControl :: u8
  cd_TimeZoneOffset :: u16
  cd_energy_save_para :: energy_save_para
  cd_pad :: bytes

record st_DynamicData =
  dd_MagicNumber :: u16
  dd_RemainingBatCap :: u32
  dd_ResetCnt :: u16
  dd_CurrentTime :: u32

text \<open>The signed time zone offset in minutes.\<close>

definition s16_TimeZoneOffset :: "st_ConfigData \<Rightarrow> int" where
  "s16_TimeZoneOffset c = sint (cd_TimeZoneOffset c)"

definition wf_prod :: "st_ProductionData \<Rightarrow> bool" where
  "wf_prod p \<longleftrightarrow> length (pd_MACAddr p) = BLE_GAP_ADDR_LEN \<and> length (pd_SerialNumber p) = SR_NUM_SIZE
     \<and> length (pd_Password p) = MAX_PASSWORD_SIZE \<and> length (pd_ModelNumber p) = MODEL_NUMBER_LEN
     \<and> length (pd_pad p) = 2"

definition wf_conf :: "st_ConfigData \<Rightarrow> bool" where
  "wf_conf c \<longleftrightarrow> length (cd_pad c) = 3"

section \<open>Byte layout\<close>

definition sizeof_ProductionData :: nat where "sizeof_ProductionData = 56"
definition sizeof_ConfigData :: nat where "sizeof_ConfigData = 20"
definition sizeof_DynamicData :: nat where "sizeof_DynamicData = 12"

lemmas sizeof_defs = sizeof_ProductionData_def sizeof_ConfigData_def sizeof_DynamicData_def

definition prod_bytes :: "st_ProductionData \<Rightarrow> bytes" where
  "prod_bytes p = le16 (pd_MagicNumber p) @ pd_MACAddr p @ pd_SerialNumber p @ pd_Password p
     @ pd_ModelNumber p @ pd_pad p"

definition prod_of_bytes :: "bytes \<Rightarrow> st_ProductionData" where
  "prod_of_bytes b = \<lparr>pd_MagicNumber = un_le16 (get_at 0 2 b), pd_MACAddr = get_at 2 6 b,
     pd_SerialNumber = get_at 8 18 b, pd_Password = get_at 26 16 b,
     pd_ModelNumber = get_at 42 12 b, pd_pad = get_at 54 2 b\<rparr>"

definition conf_bytes :: "st_ConfigData \<Rightarrow> bytes" where
  "conf_bytes c = le16 (cd_MagicNumber c) @ le16 (cd_AdvertismentInterval c)
     @ [cd_TxPow c, cd_Movement_INT_THS c, cd_Movement_INT_TIME c, cd_DeepSleepControl c]
     @ le16 (cd_TimeZoneOffset c)
     @ le16 (u16_StartMinutes (cd_energy_save_para c)) @ le16 (u16_EndMinutes (cd_energy_save_para c))
     @ le16 (mu16_EnergySavingAdvInterval (cd_energy_save_para c))
     @ [mu8_EnergySavingGlobalTxPow (cd_energy_save_para c)] @ cd_pad c"

definition conf_of_bytes :: "bytes \<Rightarrow> st_ConfigData" where
  "conf_of_bytes b = \<lparr>cd_MagicNumber = un_le16 (get_at 0 2 b),
     cd_AdvertismentInterval = un_le16 (get_at 2 2 b), cd_TxPow = b ! 4,
     cd_Movement_INT_THS = b ! 5, cd_Movement_INT_TIME = b ! 6, cd_DeepSleepControl = b ! 7,
     cd_TimeZoneOffset = un_le16 (get_at 8 2 b),
     cd_energy_save_para = \<lparr>u16_StartMinutes = un_le16 (get_at 10 2 b),
       u16_EndMinutes = un_le16 (get_at 12 2 b),
       mu16_EnergySavingAdvInterval = un_le16 (get_at 14 2 b),
       mu8_EnergySavingGlobalTxPow = b ! 16\<rparr>,
     cd_pad = get_at 17 3 b\<rparr>"

definition dyn_bytes :: "st_DynamicData \<Rightarrow> bytes" where
  "dyn_bytes d = le16 (dd_MagicNumber d) @ le32 (dd_RemainingBatCap d) @ le16 (dd_ResetCnt d)
     @ le32 (dd_CurrentTime d)"

definition dyn_of_bytes :: "bytes \<Rightarrow> st_DynamicData" where
  "dyn_of_bytes b = \<lparr>dd_MagicNumber = un_le16 (get_at 0 2 b),
     dd_RemainingBatCap = un_le32 (get_at 2 4 b), dd_ResetCnt = un_le16 (get_at 6 2 b),
     dd_CurrentTime = un_le32 (get_at 8 4 b)\<rparr>"

lemma get_le16_0 [simp]: "get_at 0 2 (le16 w @ bs) = le16 w"
  by (simp add: get_at_def le16_def)

lemma un_le16_pair: "un_le16 [ucast w, ucast (drop_bit 8 w)] = w"
  using un_le16_le16 [of w] by (simp add: le16_def)

lemma un_le32_quad:
  "un_le32 [ucast w, ucast (drop_bit 8 w), ucast (drop_bit 16 w), ucast (drop_bit 24 w)] = w"
  using un_le32_le32 [of w] by (simp add: le32_def)

lemma length_prod_bytes [simp]: "wf_prod p \<Longrightarrow> length (prod_bytes p) = sizeof_ProductionData"
  by (simp add: wf_prod_def prod_bytes_def len_defs sizeof_defs)

lemma length_conf_bytes [simp]: "wf_conf c \<Longrightarrow> length (conf_bytes c) = sizeof_ConfigData"
  by (simp add: wf_conf_def conf_bytes_def sizeof_defs)

lemma length_dyn_bytes [simp]: "length (dyn_bytes d) = sizeof_DynamicData"
  by (simp add: dyn_bytes_def sizeof_defs)

lemma prod_of_bytes_prod_bytes: "wf_prod p \<Longrightarrow> prod_of_bytes (prod_bytes p) = p"
  by (simp add: wf_prod_def prod_bytes_def prod_of_bytes_def len_defs buffer)

lemma conf_of_bytes_conf_bytes: "wf_conf c \<Longrightarrow> conf_of_bytes (conf_bytes c) = c"
  by (simp add: wf_conf_def conf_bytes_def conf_of_bytes_def le16_def get_at_def nth_append
      un_le16_pair)

lemma dyn_of_bytes_dyn_bytes: "dyn_of_bytes (dyn_bytes d) = d"
  by (simp add: dyn_bytes_def dyn_of_bytes_def buffer)

lemma wf_prod_of_bytes: "sizeof_ProductionData \<le> length b \<Longrightarrow> wf_prod (prod_of_bytes b)"
  by (simp add: wf_prod_def prod_of_bytes_def len_defs sizeof_defs buffer)

lemma wf_conf_of_bytes: "sizeof_ConfigData \<le> length b \<Longrightarrow> wf_conf (conf_of_bytes b)"
  by (simp add: wf_conf_def conf_of_bytes_def sizeof_defs buffer)

interpretation prod_codec: codec prod_bytes prod_of_bytes sizeof_ProductionData wf_prod
  by unfold_locales (simp_all add: prod_of_bytes_prod_bytes)

interpretation conf_codec: codec conf_bytes conf_of_bytes sizeof_ConfigData wf_conf
  by unfold_locales (simp_all add: conf_of_bytes_conf_bytes)

interpretation dyn_codec: codec dyn_bytes dyn_of_bytes sizeof_DynamicData "\<lambda>_. True"
  by unfold_locales (simp_all add: dyn_of_bytes_dyn_bytes)

end
