(* ===== verification/Bootup.thy ===== *)
theory Bootup
  imports Storage
begin

text \<open>
  src/vision_nvs_storage.c (wrappers of the NVS library) and src/vision_bootup.c: loading
  and verifying the persistent data at boot, the factory defaults, and the factory MAC.
  The debug dump of the data only logs and is not modelled.
\<close>

section \<open>State\<close>

record nvs_fs =
  fs_sector_size :: int
  fs_sector_count :: nat

record gst =
  g_fs :: nvs_fs
  gst_ProductionData :: st_ProductionData
  gst_ConfigData :: st_ConfigData
  gst_DynamicData :: st_DynamicData
  factory_mac :: bytes

record data_sys = io +
  gd :: gst

definition set_ProductionData :: "st_ProductionData \<Rightarrow> 'a data_sys_scheme \<Rightarrow> 'a data_sys_scheme" where
  "set_ProductionData p s = s\<lparr>gd := (gd s)\<lparr>gst_ProductionData := p\<rparr>\<rparr>"

definition set_ConfigData :: "st_ConfigData \<Rightarrow> 'a data_sys_scheme \<Rightarrow> 'a data_sys_scheme" where
  "set_ConfigData c s = s\<lparr>gd := (gd s)\<lparr>gst_ConfigData := c\<rparr>\<rparr>"

definition set_DynamicData :: "st_DynamicData \<Rightarrow> 'a data_sys_scheme \<Rightarrow> 'a data_sys_scheme" where
  "set_DynamicData d s = s\<lparr>gd := (gd s)\<lparr>gst_DynamicData := d\<rparr>\<rparr>"

abbreviation prod :: "'a data_sys_scheme \<Rightarrow> st_ProductionData" where
  "prod s \<equiv> gst_ProductionData (gd s)"

abbreviation conf :: "'a data_sys_scheme \<Rightarrow> st_ConfigData" where
  "conf s \<equiv> gst_ConfigData (gd s)"

abbreviation dyn :: "'a data_sys_scheme \<Rightarrow> st_DynamicData" where
  "dyn s \<equiv> gst_DynamicData (gd s)"

text \<open>Every structure has the size of its C type.\<close>

definition wf_data :: "'a data_sys_scheme \<Rightarrow> bool" where
  "wf_data s \<longleftrightarrow> wf_prod (prod s) \<and> wf_conf (conf s) \<and> length (factory_mac (gd s)) = BLE_GAP_ADDR_LEN"

lemma set_data_simps [simp]:
  "prod (set_ProductionData p s) = p" "conf (set_ProductionData p s) = conf s"
  "dyn (set_ProductionData p s) = dyn s" "factory_mac (gd (set_ProductionData p s)) = factory_mac (gd s)"
  "trace (set_ProductionData p s) = trace s" "halted (set_ProductionData p s) = halted s"
  "prod (set_ConfigData c s) = prod s" "conf (set_ConfigData c s) = c"
  "dyn (set_ConfigData c s) = dyn s" "factory_mac (gd (set_ConfigData c s)) = factory_mac (gd s)"
  "trace (set_ConfigData c s) = trace s" "halted (set_ConfigData c s) = halted s"
  "prod (set_DynamicData d s) = prod s" "conf (set_DynamicData d s) = conf s"
  "dyn (set_DynamicData d s) = d" "factory_mac (gd (set_DynamicData d s)) = factory_mac (gd s)"
  "trace (set_DynamicData d s) = trace s" "halted (set_DynamicData d s) = halted s"
  by (simp_all add: set_ProductionData_def set_ConfigData_def set_DynamicData_def)

lemma gd_invoke [simp]: "gd (invoke e s) = gd s"
  by (simp add: invoke_def)

section \<open>vision_nvs_storage.c\<close>

definition PRODUCTION_DATA_KEY :: u16 where "PRODUCTION_DATA_KEY = 1"
definition CONFIG_DATA_KEY :: u16 where "CONFIG_DATA_KEY = 2"
definition DYNAMIC_DATA_KEY :: u16 where "DYNAMIC_DATA_KEY = 3"

lemmas key_defs = PRODUCTION_DATA_KEY_def CONFIG_DATA_KEY_def DYNAMIC_DATA_KEY_def

definition VISION_NVS_FS_SECTOR_CNT :: nat where "VISION_NVS_FS_SECTOR_CNT = 2"

text \<open>
  \<open>nvs_read\<close> stores at most \<open>data_len\<close> bytes in the buffer and returns the length of the
  stored item, or a negative error.
\<close>

definition read_nvs_data :: "env \<Rightarrow> u16 \<Rightarrow> bytes \<Rightarrow> 'a io_scheme \<Rightarrow> int \<times> bytes \<times> 'a io_scheme" where
  "read_nvs_data E key_id read_buff s =
     (let s1 = invoke (DEV (Nvs_read key_id (length read_buff))) s;
          bytes_read = result E s1;
          got = take (min (nat bytes_read) (length read_buff)) (rdata E (trace s1))
      in (bytes_read, (if bytes_read < 0 then read_buff else put_at 0 got read_buff), s1))"

definition write_nvs_data :: "env \<Rightarrow> u16 \<Rightarrow> bytes \<Rightarrow> 'a io_scheme \<Rightarrow> int \<times> 'a io_scheme" where
  "write_nvs_data E key_id write_buff s =
     (let s1 = invoke (DEV (Nvs_write key_id write_buff)) s in (result E s1, s1))"

definition delete_nvs_data :: "env \<Rightarrow> u16 \<Rightarrow> 'a io_scheme \<Rightarrow> int \<times> 'a io_scheme" where
  "delete_nvs_data E key_id s = (let s1 = invoke (DEV (Nvs_delete key_id)) s in (result E s1, s1))"

definition app_nvs_handler_init :: "env \<Rightarrow> 'a data_sys_scheme \<Rightarrow> int \<times> 'a data_sys_scheme" where
  "app_nvs_handler_init E s =
     (let s1 = invoke (DEV (Device_is_ready ''flash'')) s
      in if result E s1 = 0 then (- ENODEV, s1)
         else
           let s2 = invoke (DEV Flash_get_page_info) s1;
               err = result E s2
           in if err \<noteq> 0 then (err, s2)
              else
                let fs = \<lparr>fs_sector_size = outval E s2, fs_sector_count = VISION_NVS_FS_SECTOR_CNT\<rparr>;
                    s3 = s2\<lparr>gd := (gd s2)\<lparr>g_fs := fs\<rparr>\<rparr>;
                    s4 = invoke (DEV Nvs_mount) s3;
                    err = result E s4
                in if err \<noteq> 0 then (err, s4) else (0, s4))"

section \<open>Defaults\<close>

definition ascii :: "string \<Rightarrow> bytes" where
  "ascii = map of_char"

text \<open>\<open>strncpy(dest, src, n)\<close>: at most \<open>n\<close> characters, padded with zero bytes.\<close>

definition strncpy :: "bytes \<Rightarrow> bytes \<Rightarrow> nat \<Rightarrow> bytes" where
  "strncpy dest src n = put_at 0 (take n (src @ replicate n 0)) dest"

definition PRODUCTION_MAGIC_NUMBER :: u16 where "PRODUCTION_MAGIC_NUMBER = 0x5650"
definition CONFIG_MAGIC_NUMBER :: u16 where "CONFIG_MAGIC_NUMBER = 0x5643"
definition DYNAMIC_MAGIC_NUMBER :: u16 where "DYNAMIC_MAGIC_NUMBER = 0x5644"

definition insigma_mac_info :: bytes where
  "insigma_mac_info = [0x1C, 0xCA, 0xE3, 0x20, 0x00, 0x05]"

definition load_factory_production_defaults :: "st_ProductionData \<Rightarrow> st_ProductionData" where
  "load_factory_production_defaults p = p\<lparr>pd_MagicNumber := PRODUCTION_MAGIC_NUMBER,
     pd_MACAddr := insigma_mac_info,
     pd_SerialNumber := ascii ''SBC-ST104400090005'',
     pd_Password := strncpy (replicate MAX_PASSWORD_SIZE 0) (ascii ''ins!gm@?'') (MAX_PASSWORD_SIZE - 1),
     pd_ModelNumber := replicate MODEL_NUMBER_LEN 0\<rparr>"

definition load_field_config_defaults :: "st_ConfigData \<Rightarrow> st_ConfigData" where
  "load_field_config_defaults c = c\<lparr>cd_MagicNumber := CONFIG_MAGIC_NUMBER,
     cd_AdvertismentInterval := 2000, cd_TxPow := 4, cd_Movement_INT_THS := 10,
     cd_Movement_INT_TIME := 10, cd_DeepSleepControl := 1, cd_TimeZoneOffset := 330,
     cd_energy_save_para := \<lparr>u16_StartMinutes = 1320, u16_EndMinutes = 360,
       mu16_EnergySavingAdvInterval = 5000, mu8_EnergySavingGlobalTxPow = 0\<rparr>\<rparr>"

text \<open>\<open>2160000.0f\<close> has the IEEE 754 bits 0x4A03D600.\<close>

definition FULL_BAT_CAPACITY_bits :: u32 where "FULL_BAT_CAPACITY_bits = 0x4A03D600"

definition load_dynamic_runtime_defaults :: "st_DynamicData \<Rightarrow> st_DynamicData" where
  "load_dynamic_runtime_defaults d = d\<lparr>dd_MagicNumber := DYNAMIC_MAGIC_NUMBER,
     dd_RemainingBatCap := FULL_BAT_CAPACITY_bits, dd_ResetCnt := 0, dd_CurrentTime := 1780825185\<rparr>"

text \<open>The structures after \<open>memset(.., 0, ..)\<close>.\<close>

definition zero_ProductionData :: st_ProductionData where
  "zero_ProductionData = prod_of_bytes (replicate sizeof_ProductionData 0)"

definition zero_ConfigData :: st_ConfigData where
  "zero_ConfigData = conf_of_bytes (replicate sizeof_ConfigData 0)"

definition zero_DynamicData :: st_DynamicData where
  "zero_DynamicData = dyn_of_bytes (replicate sizeof_DynamicData 0)"

section \<open>vision_bootup.c\<close>

definition get_factory_mac_copy :: "'a data_sys_scheme \<Rightarrow> bytes" where
  "get_factory_mac_copy s = factory_mac (gd s)"

definition read_raw_factory_mac :: "env \<Rightarrow> 'a data_sys_scheme \<Rightarrow> 'a data_sys_scheme" where
  "read_raw_factory_mac E s =
     (let s1 = invoke (DEV (Ficr_deviceaddr 0)) s;
          addr_low = (word_of_int (outval E s1) :: u32);
          s2 = invoke (DEV (Ficr_deviceaddr 1)) s1;
          addr_high = (word_of_int (outval E s2) :: u32)
      in s2\<lparr>gd := (gd s2)\<lparr>factory_mac :=
           [ucast (drop_bit 8 addr_high AND 0xFF) OR 0xC0, ucast (addr_high AND 0xFF),
            ucast (drop_bit 24 addr_low AND 0xFF), ucast (drop_bit 16 addr_low AND 0xFF),
            ucast (drop_bit 8 addr_low AND 0xFF), ucast (addr_low AND 0xFF)]\<rparr>\<rparr>)"

definition verify_production :: "env \<Rightarrow> 'a data_sys_scheme \<Rightarrow> int \<times> 'a data_sys_scheme" where
  "verify_production E s =
     (let (rc, b, s1) = read_nvs_data E PRODUCTION_DATA_KEY (prod_bytes (prod s)) s;
          s2 = set_ProductionData (prod_of_bytes b) s1
      in if rc < 0 \<or> pd_MagicNumber (prod s2) \<noteq> PRODUCTION_MAGIC_NUMBER then
           let s3 = set_ProductionData (load_factory_production_defaults zero_ProductionData) s2;
               (rc, s4) = write_nvs_data E PRODUCTION_DATA_KEY (prod_bytes (prod s3)) s3
           in if rc < 0 then (rc, s4) else (0, s4)
         else (0, s2))"

definition verify_config :: "env \<Rightarrow> 'a data_sys_scheme \<Rightarrow> int \<times> 'a data_sys_scheme" where
  "verify_config E s =
     (let (rc, b, s1) = read_nvs_data E CONFIG_DATA_KEY (conf_bytes (conf s)) s;
          s2 = set_ConfigData (conf_of_bytes b) s1
      in if rc < 0 \<or> cd_MagicNumber (conf s2) \<noteq> CONFIG_MAGIC_NUMBER then
           let s3 = set_ConfigData (load_field_config_defaults zero_ConfigData) s2;
               (rc, s4) = write_nvs_data E CONFIG_DATA_KEY (conf_bytes (conf s3)) s3
           in if rc < 0 then (rc, s4) else (0, s4)
         else (0, s2))"

definition verify_dynamic :: "env \<Rightarrow> 'a data_sys_scheme \<Rightarrow> int \<times> 'a data_sys_scheme" where
  "verify_dynamic E s =
     (let (rc, b, s1) = read_nvs_data E DYNAMIC_DATA_KEY (dyn_bytes (dyn s)) s;
          s2 = set_DynamicData (dyn_of_bytes b) s1
      in if rc < 0 \<or> dd_MagicNumber (dyn s2) \<noteq> DYNAMIC_MAGIC_NUMBER then
           let s3 = set_DynamicData (load_dynamic_runtime_defaults zero_DynamicData) s2;
               (rc, s4) = write_nvs_data E DYNAMIC_DATA_KEY (dyn_bytes (dyn s3)) s3
           in if rc < 0 then (rc, s4) else (0, s4)
         else
           let s3 = set_DynamicData ((dyn s2)\<lparr>dd_ResetCnt := dd_ResetCnt (dyn s2) + 1\<rparr>) s2;
               (_, s4) = write_nvs_data E DYNAMIC_DATA_KEY (dyn_bytes (dyn s3)) s3
           in (0, s4))"

definition app_storage_verify_and_load :: "env \<Rightarrow> 'a data_sys_scheme \<Rightarrow> int \<times> 'a data_sys_scheme" where
  "app_storage_verify_and_load E s =
     (let (rc, s1) = verify_production E s
      in if rc < 0 then (rc, s1)
         else
           let (rc, s2) = verify_config E s1
           in if rc < 0 then (rc, s2)
              else
                let (rc, s3) = verify_dynamic E s2
                in if rc < 0 then (rc, s3)
                   else (0, read_raw_factory_mac E s3))"

section \<open>Lemmas\<close>

lemma wf_prod_defaults [simp]: "wf_prod (load_factory_production_defaults zero_ProductionData)"
proof -
  have "length (pd_pad zero_ProductionData) = 2"
    by (simp add: zero_ProductionData_def prod_of_bytes_def get_at_def sizeof_defs)
  then show ?thesis
    by (simp add: wf_prod_def load_factory_production_defaults_def insigma_mac_info_def len_defs
        ascii_def strncpy_def put_at_def)
qed

lemma wf_conf_defaults [simp]: "wf_conf (load_field_config_defaults zero_ConfigData)"
  by (simp add: wf_conf_def load_field_config_defaults_def zero_ConfigData_def conf_of_bytes_def
      get_at_def sizeof_defs)

lemma magic_defaults [simp]:
  "pd_MagicNumber (load_factory_production_defaults p) = PRODUCTION_MAGIC_NUMBER"
  "cd_MagicNumber (load_field_config_defaults c) = CONFIG_MAGIC_NUMBER"
  "dd_MagicNumber (load_dynamic_runtime_defaults d) = DYNAMIC_MAGIC_NUMBER"
  by (simp_all add: load_factory_production_defaults_def load_field_config_defaults_def
      load_dynamic_runtime_defaults_def)

lemma read_nvs_dataD:
  "read_nvs_data E k buf s = (rc, b, s1) \<Longrightarrow>
   s1 = invoke (DEV (Nvs_read k (length buf))) s \<and> length b = length buf \<and> rc = result E s1"
  by (auto simp: read_nvs_data_def Let_def length_put_at)

lemma write_nvs_dataD:
  "write_nvs_data E k b s = (rc, s1) \<Longrightarrow> s1 = invoke (DEV (Nvs_write k b)) s \<and> rc = result E s1"
  by (auto simp: write_nvs_data_def Let_def)

text \<open>
  A verification stage leaves a valid structure and returns 0, or returns the negative code
  of the write of the defaults that just failed.
\<close>

definition write_failed :: "env \<Rightarrow> int \<Rightarrow> 'a io_scheme \<Rightarrow> bool" where
  "write_failed E rc s \<longleftrightarrow>
     rc < 0 \<and> (\<exists>t k b. trace s = t @ [DEV (Nvs_write k b)]) \<and> ret E (trace s) = rc"

lemma verify_production_spec:
  assumes "verify_production E s = (rc, s')" and "wf_prod (prod s)"
  shows "wf_prod (prod s')" "pd_MagicNumber (prod s') = PRODUCTION_MAGIC_NUMBER"
    and "rc = 0 \<or> write_failed E rc s'"
    and "conf s' = conf s" "dyn s' = dyn s" "factory_mac (gd s') = factory_mac (gd s)"
  using assms
  by (auto simp: verify_production_def Let_def write_failed_def result_def length_put_at
      intro!: wf_prod_of_bytes split: prod.splits if_splits dest!: read_nvs_dataD write_nvs_dataD)

lemma verify_config_spec:
  assumes "verify_config E s = (rc, s')" and "wf_conf (conf s)"
  shows "wf_conf (conf s')" "cd_MagicNumber (conf s') = CONFIG_MAGIC_NUMBER"
    and "rc = 0 \<or> write_failed E rc s'"
    and "prod s' = prod s" "dyn s' = dyn s" "factory_mac (gd s') = factory_mac (gd s)"
  using assms
  by (auto simp: verify_config_def Let_def write_failed_def result_def length_put_at
      intro!: wf_conf_of_bytes split: prod.splits if_splits dest!: read_nvs_dataD write_nvs_dataD)

lemma verify_dynamic_spec:
  assumes "verify_dynamic E s = (rc, s')"
  shows "dd_MagicNumber (dyn s') = DYNAMIC_MAGIC_NUMBER"
    and "rc = 0 \<or> write_failed E rc s'"
    and "prod s' = prod s" "conf s' = conf s" "factory_mac (gd s') = factory_mac (gd s)"
  using assms
  by (auto simp: verify_dynamic_def Let_def write_failed_def result_def length_put_at
      split: prod.splits if_splits dest!: read_nvs_dataD write_nvs_dataD)

lemma read_raw_factory_mac_frame [frame, simp]:
  "prod (read_raw_factory_mac E s) = prod s" "conf (read_raw_factory_mac E s) = conf s"
  "dyn (read_raw_factory_mac E s) = dyn s"
  by (simp_all add: read_raw_factory_mac_def Let_def)

lemma length_factory_mac_read [simp]: "length (factory_mac (gd (read_raw_factory_mac E s))) = 6"
  by (simp add: read_raw_factory_mac_def Let_def)

definition magic_ok :: "'a data_sys_scheme \<Rightarrow> bool" where
  "magic_ok s \<longleftrightarrow> pd_MagicNumber (prod s) = PRODUCTION_MAGIC_NUMBER
     \<and> cd_MagicNumber (conf s) = CONFIG_MAGIC_NUMBER
     \<and> dd_MagicNumber (dyn s) = DYNAMIC_MAGIC_NUMBER"

lemma boot_stages:
  assumes "app_storage_verify_and_load E s = (rc, s')" and "wf_data s"
  shows "(rc = 0 \<and> wf_data s' \<and> magic_ok s') \<or> write_failed E rc s'"
proof -
  obtain r1 s1 where 1: "verify_production E s = (r1, s1)" by fastforce
  obtain r2 s2 where 2: "verify_config E s1 = (r2, s2)" by fastforce
  obtain r3 s3 where 3: "verify_dynamic E s2 = (r3, s3)" by fastforce
  have wf: "wf_prod (prod s)" "wf_conf (conf s)"
    using assms(2) by (simp_all add: wf_data_def)
  note p = verify_production_spec [OF 1 wf(1)]
  have c: "wf_conf (conf s1)" using p(4) wf(2) by simp
  note q = verify_config_spec [OF 2 c]
  note r = verify_dynamic_spec [OF 3]
  show ?thesis
    using assms(1) p q r
    by (auto simp: app_storage_verify_and_load_def 1 2 3 write_failed_def wf_data_def magic_ok_def
        len_defs split: if_splits)
qed

text \<open>
  Documented behaviour of the flash file system: as long as the program has not written
  the item, a read of \<open>key\<close> returns its length and its bytes.
\<close>

definition flash_holds :: "env \<Rightarrow> u16 \<Rightarrow> bytes \<Rightarrow> bool" where
  "flash_holds E key b \<longleftrightarrow>
     (\<forall>t. (\<forall>b'. DEV (Nvs_write key b') \<notin> set t) \<longrightarrow>
        ret E (t @ [DEV (Nvs_read key (length b))]) = int (length b)
        \<and> rdata E (t @ [DEV (Nvs_read key (length b))]) = b)"

definition unwritten :: "'a io_scheme \<Rightarrow> bool" where
  "unwritten s \<longleftrightarrow> (\<forall>k b. DEV (Nvs_write k b) \<notin> set (trace s))"

lemma read_nvs_flash:
  assumes "flash_holds E k b" and "unwritten s" and "length buf = length b"
  shows "read_nvs_data E k buf s = (int (length b), b, invoke (DEV (Nvs_read k (length b))) s)"
  using assms by (simp add: read_nvs_data_def flash_holds_def unwritten_def result_def put_at_0_all)

lemma unwritten_read [simp]: "unwritten (invoke (DEV (Nvs_read k n)) s) \<longleftrightarrow> unwritten s"
  by (simp add: unwritten_def)

lemma unwritten_set [simp]:
  "unwritten (set_ProductionData p s) = unwritten s" "unwritten (set_ConfigData c s) = unwritten s"
  by (simp_all add: unwritten_def)

lemma verify_production_reload:
  assumes "flash_holds E PRODUCTION_DATA_KEY (prod_bytes p)" "wf_prod p" "wf_prod (prod s)"
    "pd_MagicNumber p = PRODUCTION_MAGIC_NUMBER" "unwritten s"
  shows "verify_production E s =
    (0, set_ProductionData p (invoke (DEV (Nvs_read PRODUCTION_DATA_KEY sizeof_ProductionData)) s))"
  using assms
  by (simp add: verify_production_def read_nvs_flash [OF assms(1,5)] prod_of_bytes_prod_bytes)

lemma verify_config_reload:
  assumes "flash_holds E CONFIG_DATA_KEY (conf_bytes c)" "wf_conf c" "wf_conf (conf s)"
    "cd_MagicNumber c = CONFIG_MAGIC_NUMBER" "unwritten s"
  shows "verify_config E s =
    (0, set_ConfigData c (invoke (DEV (Nvs_read CONFIG_DATA_KEY sizeof_ConfigData)) s))"
  using assms
  by (simp add: verify_config_def read_nvs_flash [OF assms(1,5)] conf_of_bytes_conf_bytes)

lemma verify_dynamic_reload:
  fixes d defines "d' \<equiv> d\<lparr>dd_ResetCnt := dd_ResetCnt d + 1\<rparr>"
  assumes "flash_holds E DYNAMIC_DATA_KEY (dyn_bytes d)"
    "dd_MagicNumber d = DYNAMIC_MAGIC_NUMBER" "unwritten s"
  shows "verify_dynamic E s = (0, invoke (DEV (Nvs_write DYNAMIC_DATA_KEY (dyn_bytes d')))
    (set_DynamicData d' (set_DynamicData d (invoke (DEV (Nvs_read DYNAMIC_DATA_KEY sizeof_DynamicData)) s))))"
  using assms
  by (simp add: verify_dynamic_def read_nvs_flash [OF assms(2,4)] dyn_of_bytes_dyn_bytes write_nvs_data_def Let_def)

section \<open>Properties\<close>


definition blank_gst :: gst where
  "blank_gst = \<lparr>g_fs = \<lparr>fs_sector_size = 0, fs_sector_count = 0\<rparr>,
     gst_ProductionData = zero_ProductionData, gst_ConfigData = zero_ConfigData,
     gst_DynamicData = zero_DynamicData, factory_mac = replicate BLE_GAP_ADDR_LEN 0\<rparr>"

definition data_init :: data_sys where
  "data_init = \<lparr>trace = [], halted = None, gd = blank_gst\<rparr>"

lemma wf_data_init [simp]: "wf_data data_init"
  by (simp add: wf_data_def data_init_def blank_gst_def zero_ProductionData_def zero_ConfigData_def
      wf_prod_of_bytes wf_conf_of_bytes)


text \<open>
  C13: Reload after a reboot.  When the flash holds valid structures, boot restores the
  production and configuration data byte for byte, restores the dynamic data with its reset
  counter incremented modulo 2^16, and its only write is that counter.
\<close>

theorem boot_reload:
  fixes d defines "d' \<equiv> d\<lparr>dd_ResetCnt := dd_ResetCnt d + 1\<rparr>"
  assumes "wf_data s" "unwritten s"
    and "flash_holds E PRODUCTION_DATA_KEY (prod_bytes p)" "wf_prod p" "pd_MagicNumber p = PRODUCTION_MAGIC_NUMBER"
    and "flash_holds E CONFIG_DATA_KEY (conf_bytes c)" "wf_conf c" "cd_MagicNumber c = CONFIG_MAGIC_NUMBER"
    and "flash_holds E DYNAMIC_DATA_KEY (dyn_bytes d)" "dd_MagicNumber d = DYNAMIC_MAGIC_NUMBER"
  shows "\<exists>s'. app_storage_verify_and_load E s = (0, s') \<and> prod s' = p \<and> conf s' = c \<and> dyn s' = d'
    \<and> trace s' = trace s @ [DEV (Nvs_read PRODUCTION_DATA_KEY 56), DEV (Nvs_read CONFIG_DATA_KEY 20),
         DEV (Nvs_read DYNAMIC_DATA_KEY 12), DEV (Nvs_write DYNAMIC_DATA_KEY (dyn_bytes d')),
         DEV (Ficr_deviceaddr 0), DEV (Ficr_deviceaddr 1)]"
proof -
  have wf: "wf_prod (prod s)" "wf_conf (conf s)"
    using assms(2) by (simp_all add: wf_data_def)
  show ?thesis
    using assms wf
    by (simp add: app_storage_verify_and_load_def verify_production_reload verify_config_reload
        verify_dynamic_reload read_raw_factory_mac_def Let_def sizeof_defs d'_def)
qed

text \<open>A flash that holds a map of items.\<close>

definition flash_env :: "(u16 \<Rightarrow> bytes) \<Rightarrow> env" where
  "flash_env m = \<lparr>ret = (\<lambda>t. case last t of DEV (Nvs_read k n) \<Rightarrow> int (length (m k)) | _ \<Rightarrow> 0),
     out = (\<lambda>_. 0), rdata = (\<lambda>t. case last t of DEV (Nvs_read k n) \<Rightarrow> m k | _ \<Rightarrow> []),
     ads = (\<lambda>_. []), ticks_per_sec = 32768\<rparr>"

lemma flash_holds_flash_env [simp]: "m k = b \<Longrightarrow> flash_holds (flash_env m) k b"
  by (simp add: flash_holds_def flash_env_def)

definition default_items :: "u16 \<Rightarrow> bytes" where
  "default_items k = (if k = PRODUCTION_DATA_KEY then prod_bytes (load_factory_production_defaults zero_ProductionData)
     else if k = CONFIG_DATA_KEY then conf_bytes (load_field_config_defaults zero_ConfigData)
     else dyn_bytes (load_dynamic_runtime_defaults zero_DynamicData))"

theorem boot_reload_witness:
  "\<exists>s'. app_storage_verify_and_load (flash_env default_items) data_init = (0, s')
     \<and> dd_ResetCnt (dyn s') = 1"
proof -
  have "unwritten data_init" by (simp add: unwritten_def data_init_def)
  then show ?thesis
    using boot_reload [OF wf_data_init, of "flash_env default_items"
        "load_factory_production_defaults zero_ProductionData"
        "load_field_config_defaults zero_ConfigData" "load_dynamic_runtime_defaults zero_DynamicData"]
    by (auto simp: default_items_def key_defs load_dynamic_runtime_defaults_def)
qed

end
