(* ===== verification/Float32.thy ===== *)
theory Float32
  imports Prelude "HOL-Library.Log_Nat"
begin

text \<open>
  Single-precision arithmetic as the code uses it, on the rational values of finite floats:
  an operation computes the exact rational result and rounds it to the nearest multiple of
  the unit in the last place, ties to even (24-bit significand, least exponent -126).  The
  values of this program stay far below the overflow threshold, which is not modelled.
\<close>

definition ilog2 :: "nat \<Rightarrow> int" where
  "ilog2 n = int (floorlog 2 n) - 1"

definition f32_exp :: "rat \<Rightarrow> int" where
  "f32_exp x = (let (a, b) = quotient_of x; k = ilog2 (nat a) - ilog2 (nat b)
     in if x < 2 powi k then k - 1 else k)"

definition round_even :: "rat \<Rightarrow> int" where
  "round_even y = (let f = \<lfloor>y\<rfloor>; r = y - of_int f
     in if r < 1 / 2 then f else if 1 / 2 < r then f + 1 else if even f then f else f + 1)"

definition f32_ulp :: "rat \<Rightarrow> rat" where
  "f32_ulp x = 2 powi (max (f32_exp x) (- 126) - 23)"

definition f32_rnd :: "rat \<Rightarrow> rat" where
  "f32_rnd x = (if x = 0 then 0
     else if 0 < x then of_int (round_even (x / f32_ulp x)) * f32_ulp x
     else - (of_int (round_even (- x / f32_ulp (- x))) * f32_ulp (- x)))"

definition f32_of_nat :: "nat \<Rightarrow> rat" where
  "f32_of_nat n = f32_rnd (of_nat n)"

definition f32_div :: "rat \<Rightarrow> rat \<Rightarrow> rat" where
  "f32_div x y = f32_rnd (x / y)"

definition f32_sub :: "rat \<Rightarrow> rat \<Rightarrow> rat" where
  "f32_sub x y = f32_rnd (x - y)"

definition f32_mul :: "rat \<Rightarrow> rat \<Rightarrow> rat" where
  "f32_mul x y = f32_rnd (x * y)"

section \<open>The exponent\<close>

lemma ilog2_bounds:
  assumes "0 < n"
  shows "(2::rat) powi ilog2 n \<le> of_nat n" "of_nat n < (2::rat) powi (ilog2 n + 1)"
proof -
  have b: "2 ^ (floorlog 2 n - 1) \<le> n \<and> n < 2 ^ floorlog 2 n"
    using floorlog_bounds [of n 2] assms by simp
  have l: "0 < floorlog 2 n"
    using assms by (simp add: floorlog_def)
  have "(2::rat) powi ilog2 n = of_nat (2 ^ (floorlog 2 n - 1))"
    using l by (simp add: ilog2_def power_int_def nat_diff_distrib)
  then show "(2::rat) powi ilog2 n \<le> of_nat n"
    using b by (metis of_nat_le_iff)
  have "(2::rat) powi (ilog2 n + 1) = of_nat (2 ^ floorlog 2 n)"
    by (simp add: ilog2_def)
  then show "of_nat n < (2::rat) powi (ilog2 n + 1)"
    using b by (metis of_nat_less_iff)
qed

lemma f32_exp_bounds:
  assumes "0 < x"
  shows "2 powi f32_exp x \<le> x" "x < 2 powi (f32_exp x + 1)"
proof -
  obtain a b where q: "quotient_of x = (a, b)" by fastforce
  have x: "x = of_int a / of_int b" using q by (rule quotient_of_div)
  have b: "0 < b" using q by (rule quotient_of_denom_pos)
  have a: "0 < a" using assms x b by (simp add: zero_less_divide_iff)
  let ?la = "ilog2 (nat a)" and ?lb = "ilog2 (nat b)"
  have A: "(2::rat) powi ?la \<le> of_int a" "of_int a < (2::rat) powi (?la + 1)"
    using ilog2_bounds [of "nat a"] a by simp_all
  have B: "(2::rat) powi ?lb \<le> of_int b" "of_int b < (2::rat) powi (?lb + 1)"
    using ilog2_bounds [of "nat b"] b by simp_all
  have pos: "(0::rat) < 2 powi ?la" "(0::rat) < 2 powi ?lb" "(0::rat) < of_int b"
    using b by simp_all
  have lo: "2 powi (?la - ?lb - 1) \<le> x"
  proof -
    have "(2::rat) powi (?la - ?lb - 1) = 2 powi ?la / 2 powi (?lb + 1)"
      by (simp add: power_int_diff power_int_add)
    also have "\<dots> \<le> of_int a / of_int b"
      using A(1) B(2) pos a by (intro frac_le) simp_all
    finally show ?thesis by (simp add: x)
  qed
  have hi: "x < 2 powi (?la - ?lb + 1)"
  proof -
    have "of_int a / of_int b < (2::rat) powi (?la + 1) / 2 powi ?lb"
      using A(2) B(1) pos a by (intro frac_less) simp_all
    also have "\<dots> = 2 powi (?la - ?lb + 1)"
      by (simp add: power_int_diff power_int_add)
    finally show ?thesis by (simp add: x)
  qed
  show "2 powi f32_exp x \<le> x" "x < 2 powi (f32_exp x + 1)"
    using lo hi by (auto simp: f32_exp_def q Let_def)
qed

lemma f32_exp_le:
  assumes "0 < x" and "x < 2 powi k"
  shows "f32_exp x < k"
proof (rule ccontr)
  assume "\<not> f32_exp x < k"
  then have "(2::rat) powi k \<le> 2 powi f32_exp x" by (intro power_int_increasing) simp_all
  also have "\<dots> \<le> x" by (rule f32_exp_bounds(1) [OF assms(1)])
  finally show False using assms(2) by simp
qed

section \<open>Rounding\<close>

lemma round_even_error: "\<bar>of_int (round_even y) - y\<bar> \<le> 1 / 2"
proof -
  define r where "r = y - of_int \<lfloor>y\<rfloor>"
  have "0 \<le> r" "r < 1" "y = of_int \<lfloor>y\<rfloor> + r" by (simp_all add: r_def) linarith
  moreover have "of_int (round_even y) - y =
      (if r < 1 / 2 then - r else if 1 / 2 < r then 1 - r else if even \<lfloor>y\<rfloor> then - r else 1 - r)"
    by (simp add: round_even_def Let_def r_def)
  ultimately show ?thesis by (auto simp: abs_if)
qed

lemma round_even_of_int [simp]: "round_even (of_int n) = n"
  by (simp add: round_even_def)

lemma f32_ulp_pos [simp]: "0 < f32_ulp x"
  by (simp add: f32_ulp_def)

lemma f32_ulp_nz [simp]: "f32_ulp x \<noteq> 0"
  using f32_ulp_pos [of x] by linarith

lemma f32_rnd_0 [simp]: "f32_rnd 0 = 0"
  by (simp add: f32_rnd_def)

lemma f32_rnd_error:
  assumes "0 < x"
  shows "\<bar>f32_rnd x - x\<bar> \<le> f32_ulp x / 2"
proof -
  let ?u = "f32_ulp x"
  have "f32_rnd x - x = (of_int (round_even (x / ?u)) - x / ?u) * ?u"
    using assms by (simp add: f32_rnd_def algebra_simps)
  then have "\<bar>f32_rnd x - x\<bar> = \<bar>of_int (round_even (x / ?u)) - x / ?u\<bar> * ?u"
    by (simp add: abs_mult abs_of_pos)
  also have "\<dots> \<le> 1 / 2 * ?u"
    by (intro mult_right_mono round_even_error) (simp add: less_imp_le)
  finally show ?thesis by simp
qed

text \<open>A positive multiple of its unit in the last place is represented exactly.\<close>

lemma f32_rnd_exact:
  assumes "0 < x" and "x = of_int n * f32_ulp x"
  shows "f32_rnd x = x"
proof -
  have "x / f32_ulp x = of_int n"
    using assms(2) by (simp add: field_simps)
  then have "f32_rnd x = of_int n * f32_ulp x"
    using assms(1) by (simp add: f32_rnd_def)
  then show ?thesis using assms(2) by simp
qed

lemma f32_ulp_small:
  assumes "0 < x" and "x < 2 powi k" and "-126 < k"
  shows "f32_ulp x \<le> 2 powi (k - 24)"
  using f32_exp_le [OF assms(1,2)] assms(3)
  unfolding f32_ulp_def by (intro power_int_increasing) auto

text \<open>Natural numbers below \<open>2^24\<close> are exact.\<close>

lemma f32_rnd_of_nat:
  assumes "n < 2 ^ 24"
  shows "f32_rnd (of_nat n) = of_nat n"
proof (cases "n = 0")
  case True
  then show ?thesis by simp
next
  case False
  let ?x = "of_nat n :: rat"
  have pos: "0 < ?x" using False by simp
  have "of_nat n < (of_nat (2 ^ 24) :: rat)" using assms by (subst of_nat_less_iff)
  then have lt: "?x < 2 powi 24" by simp
  have e1: "f32_exp ?x < 24" by (rule f32_exp_le [OF pos lt])
  have e0: "0 \<le> f32_exp ?x"
  proof (rule ccontr)
    assume "\<not> 0 \<le> f32_exp ?x"
    then have "(2::rat) powi (f32_exp ?x + 1) \<le> 2 powi 0" by (intro power_int_increasing) simp_all
    then have "?x < 1" using f32_exp_bounds(2) [OF pos] by simp
    then show False using False by simp
  qed
  define j where "j = nat (23 - f32_exp ?x)"
  have u: "f32_ulp ?x = 1 / 2 ^ j"
    using e0 e1 by (simp add: f32_ulp_def j_def power_int_def field_simps nat_diff_distrib)
  have "?x = of_int (int n * 2 ^ j) * f32_ulp ?x"
    by (simp add: u)
  then show ?thesis by (rule f32_rnd_exact [OF pos])
qed

text \<open>Rounding a positive value far below \<open>2^24\<close> moves it by less than a small bound.\<close>

lemma f32_rnd_close:
  assumes "0 < x" and "x < 2 powi k" and "-126 < k"
  shows "\<bar>f32_rnd x - x\<bar> \<le> 2 powi (k - 25)"
proof -
  have "\<bar>f32_rnd x - x\<bar> \<le> f32_ulp x / 2" by (rule f32_rnd_error [OF assms(1)])
  also have "\<dots> \<le> 2 powi (k - 24) / 2" using f32_ulp_small [OF assms] by simp
  also have "\<dots> = 2 powi (k - 25)"
    using power_int_add [of "2::rat" "k - 25" 1] by simp
  finally show ?thesis .
qed

text \<open>
  Dividing a small natural number by 0.625 and truncating gives the exact quotient
  \<open>8 n div 5\<close>: the fractional part is a multiple of 1/5, far from the next integer.
\<close>

lemma floor_f32_div_0625:
  assumes "n < 40960"
  shows "\<lfloor>f32_div (f32_of_nat n) (5 / 8)\<rfloor> = int (8 * n div 5)"
proof (cases "n = 0")
  case True
  then show ?thesis by (simp add: f32_div_def f32_of_nat_def)
next
  case False
  define q r where "q = 8 * n div 5" and "r = 8 * n mod 5"
  define x where "x = (of_nat n / (5 / 8) :: rat)"
  have qr: "8 * n = 5 * q + r" "r < 5" by (simp_all add: q_def r_def)
  have of_n: "f32_of_nat n = of_nat n"
    using assms by (simp add: f32_of_nat_def f32_rnd_of_nat)
  have "(8::rat) * of_nat n = of_nat (8 * n)" by simp
  also have "\<dots> = 5 * of_nat q + of_nat r" by (simp add: qr(1))
  finally have x: "x = of_nat q + of_nat r / 5" by (simp add: x_def field_simps)
  have d: "f32_div (f32_of_nat n) (5 / 8) = f32_rnd x"
    by (simp only: f32_div_def of_n x_def)
  have q: "q < 65536" using assms qr by simp
  show ?thesis
  proof (cases "r = 0")
    case True
    then have "f32_rnd x = of_nat q" using x q by (simp add: f32_rnd_of_nat)
    then show ?thesis by (simp add: d q_def [symmetric])
  next
    case r: False
    have pos: "0 < x" using False by (simp add: x_def)
    have "(of_nat n :: rat) < of_nat 40960" using assms by (subst of_nat_less_iff)
    then have "x < 2 powi 16" by (simp add: x_def)
    then have "\<bar>f32_rnd x - x\<bar> \<le> 2 powi (-9)" using f32_rnd_close [OF pos, of 16] by simp
    then have near: "\<bar>f32_rnd x - x\<bar> \<le> 1 / 512" by (simp add: power_int_def power_one_over)
    have "1 \<le> r" "r \<le> 4" using r qr(2) by simp_all
    then have "1 \<le> (of_nat r :: rat)" "(of_nat r :: rat) \<le> 4" by simp_all
    with near x have "of_nat q \<le> f32_rnd x" "f32_rnd x < of_nat q + 1"
      unfolding abs_le_iff by linarith+
    then have "\<lfloor>f32_rnd x\<rfloor> = int q" by (simp add: floor_eq_iff)
    then show ?thesis by (simp add: d q_def [symmetric])
  qed
qed

end
