(* ===== verification/Advt.thy ===== *)
theory Advt
  imports Bootup Float32
begin

text \<open>
  src/vision_advt.c: the connectable "Vision" advertising set, its identity, its payload
  (service data and manufacturer data in include/app_vision_advt.h) and its interval.
\<close>

section \<open>State\<close>

record ServicePayload =
  sp_Bitfield1 :: u8
  sp_BatPercentage :: u8
  sp_Bitfield2 :: u8
  sp_Bitfield3 :: u8
  sp_FWVer :: u8
  sp_Temp :: u8
  sp_LightCnt :: u8

record ble_service_data =
  sd_service_uuid :: u16
  sd_data :: ServicePayload

record ble_mfg_data =
  md_company_id :: u16
  md_payload :: bytes

record adv_st =
  active_svc_data :: ble_service_data
  active_mfg_data :: ble_mfg_data
  device_name :: bytes
  sd_name_len :: nat
  VisionMACaddr :: bytes
  Vision_id :: int
  is_advertising :: bool
  adv_set :: "adv_set option"

record adv_sys = data_sys +
  adv :: adv_st

definition svc_bytes :: "ble_service_data \<Rightarrow> bytes" where
  "svc_bytes d = le16 (sd_service_uuid d) @ [sp_Bitfield1 (sd_data d), sp_BatPercentage (sd_data d),
     sp_Bitfield2 (sd_data d), sp_Bitfield3 (sd_data d), sp_FWVer (sd_data d), sp_Temp (sd_data d),
     sp_LightCnt (sd_data d)]"

definition mfg_bytes :: "ble_mfg_data \<Rightarrow> bytes" where
  "mfg_bytes m = le16 (md_company_id m) @ md_payload m"

text \<open>
  The static arrays \<open>ad\<close> and \<open>sd\<close> point at the active structures, so the stack reads their
  current contents.
\<close>

definition ad :: "adv_st \<Rightarrow> bt_data list" where
  "ad a = [(0x01, [0x06]), (0x16, svc_bytes (active_svc_data a)), (0xFF, mfg_bytes (active_mfg_data a))]"

definition sd :: "adv_st \<Rightarrow> bt_data list" where
  "sd a = [(0x09, take (sd_name_len a) (device_name a))]"

definition zero_ServicePayload :: ServicePayload where
  "zero_ServicePayload = \<lparr>sp_Bitfield1 = 0, sp_BatPercentage = 0, sp_Bitfield2 = 0, sp_Bitfield3 = 0,
     sp_FWVer = 0, sp_Temp = 0, sp_LightCnt = 0\<rparr>"

definition adv_st_init :: adv_st where
  "adv_st_init = \<lparr>active_svc_data = \<lparr>sd_service_uuid = 0, sd_data = zero_ServicePayload\<rparr>,
     active_mfg_data = \<lparr>md_company_id = 0, md_payload = replicate 6 0\<rparr>,
     device_name = ascii ''SBT-ST101212345678'' @ [0], sd_name_len = 0, VisionMACaddr = replicate 7 0,
     Vision_id = -1, is_advertising = False, adv_set = None\<rparr>"

definition COMPANY_ID :: u16 where "COMPANY_ID = 0x0F2C"
definition CONFIG_BT_ID_MAX :: int where "CONFIG_BT_ID_MAX = 3"
definition APP_VERSION_MAJOR :: u8 where "APP_VERSION_MAJOR = 1"
definition APP_VERSION_MINOR :: u8 where "APP_VERSION_MINOR = 0"

section \<open>Operations\<close>

definition adv_connected :: "'a adv_sys_scheme \<Rightarrow> 'a adv_sys_scheme" where
  "adv_connected s =
     (let s1 = lock M_adv s;
          s2 = s1\<lparr>adv := (adv s1)\<lparr>is_advertising := False\<rparr>\<rparr>
      in unlock M_adv s2)"

definition getVisionId :: "'a adv_sys_scheme \<Rightarrow> int" where
  "getVisionId s = Vision_id (adv s)"

definition app_vision_custom_id_create :: "env \<Rightarrow> 'a adv_sys_scheme \<Rightarrow> int \<times> 'a adv_sys_scheme" where
  "app_vision_custom_id_create E s =
     (let s1 = invoke (BT Id_get) s;
          active_identities_count = outval E s1;
          fin = (\<lambda>s. let s' = invoke (BT Id_get) s
                     in (0, s'\<lparr>adv := (adv s')\<lparr>VisionMACaddr := rdata E (trace s')\<rparr>\<rparr>))
      in if CONFIG_BT_ID_MAX \<le> active_identities_count
         then fin (s1\<lparr>adv := (adv s1)\<lparr>Vision_id := 2\<rparr>\<rparr>)
         else
           let s2 = invoke (BT Id_create) s1;
               ret = result E s2
           in if ret < 0 then (ret, s2)
              else fin (s2\<lparr>adv := (adv s2)\<lparr>Vision_id := ret\<rparr>\<rparr>))"

text \<open>\<open>snprintf(device_name, sizeof, "%.*s", SR_NUM_SIZE, serial)\<close> into a zeroed buffer.\<close>

definition c_string :: "bytes \<Rightarrow> bytes" where
  "c_string bs = takeWhile (\<lambda>b. b \<noteq> 0) bs"

definition ble_adv_custom_init :: "env \<Rightarrow> 'a adv_sys_scheme \<Rightarrow> int \<times> 'a adv_sys_scheme" where
  "ble_adv_custom_init E s =
     (let svc = \<lparr>sd_service_uuid = 0x9E83, sd_data = zero_ServicePayload
            \<lparr>sp_FWVer := push_bit 4 (APP_VERSION_MAJOR AND 0x0F) OR (APP_VERSION_MINOR AND 0x0F)\<rparr>\<rparr>;
          mfg = \<lparr>md_company_id = COMPANY_ID, md_payload = pd_MACAddr (prod s)\<rparr>;
          name = c_string (take SR_NUM_SIZE (pd_SerialNumber (prod s)));
          s1 = s\<lparr>adv := (adv s)\<lparr>active_svc_data := svc, active_mfg_data := mfg,
                 device_name := put_at 0 name (replicate (SR_NUM_SIZE + 1) 0),
                 sd_name_len := length name\<rparr>\<rparr>;
          s2 = invoke (BT Bt_enable) s1;
          rc = result E s2
      in if rc \<noteq> 0 \<and> rc \<noteq> - EALREADY then (rc, s2)
         else
           let (rc, s3) = app_vision_custom_id_create E s2
           in if rc \<noteq> 0 then (rc, s3)
              else
                let adv_param = \<lparr>ap_id = Vision_id (adv s3), ap_sid = 2, ap_use_identity = True,
                      ap_interval_min = 3200, ap_interval_max = 3216\<rparr>;
                    s4 = invoke (BT (Ext_adv_create adv_param)) s3;
                    rc = result E s4
                in if rc \<noteq> 0 then (rc, s4)
                   else
                     let aset = nat (outval E s4);
                         s5 = s4\<lparr>adv := (adv s4)\<lparr>adv_set := Some aset\<rparr>\<rparr>;
                         s6 = invoke (BT (Ext_adv_set_data aset (ad (adv s5)) (sd (adv s5)))) s5;
                         rc = result E s6
                     in if rc \<noteq> 0 then (rc, s6) else (0, s6))"

definition ble_adv_custom_start :: "env \<Rightarrow> 'a adv_sys_scheme \<Rightarrow> int \<times> 'a adv_sys_scheme" where
  "ble_adv_custom_start E s =
     (let s1 = lock M_adv s
      in if is_advertising (adv s1) then (0, unlock M_adv s1)
         else case adv_set (adv s1) of
           None \<Rightarrow> (- EINVAL, unlock M_adv s1)
         | Some aset \<Rightarrow>
             let s2 = invoke (BT (Ext_adv_start aset)) s1;
                 rc = result E s2;
                 s3 = (if rc \<noteq> 0 then s2 else s2\<lparr>adv := (adv s2)\<lparr>is_advertising := True\<rparr>\<rparr>)
             in (rc, unlock M_adv s3))"

definition ble_adv_custom_stop :: "env \<Rightarrow> 'a adv_sys_scheme \<Rightarrow> int \<times> 'a adv_sys_scheme" where
  "ble_adv_custom_stop E s =
     (let s1 = lock M_adv s
      in if \<not> is_advertising (adv s1) then (0, unlock M_adv s1)
         else case adv_set (adv s1) of
           None \<Rightarrow> (0, unlock M_adv s1)
         | Some aset \<Rightarrow>
             let s2 = invoke (BT (Ext_adv_stop aset)) s1;
                 rc = result E s2;
                 s3 = (if rc = 0 then s2\<lparr>adv := (adv s2)\<lparr>is_advertising := False\<rparr>\<rparr> else s2)
             in (rc, unlock M_adv s3))"

definition ble_adv_custom_update ::
  "env \<Rightarrow> ble_service_data option \<Rightarrow> ble_mfg_data option \<Rightarrow> 'a adv_sys_scheme \<Rightarrow> int \<times> 'a adv_sys_scheme" where
  "ble_adv_custom_update E svc_data mfg_data s =
     (let s1 = lock M_adv s
      in case adv_set (adv s1) of
           None \<Rightarrow> (- EINVAL, unlock M_adv s1)
         | Some aset \<Rightarrow>
             let (s2, c1) = (case svc_data of None \<Rightarrow> (s1, False)
                   | Some d \<Rightarrow> if active_svc_data (adv s1) \<noteq> d
                       then (s1\<lparr>adv := (adv s1)\<lparr>active_svc_data := d\<rparr>\<rparr>, True) else (s1, False));
                 (s3, data_changed) = (case mfg_data of None \<Rightarrow> (s2, c1)
                   | Some m \<Rightarrow> if active_mfg_data (adv s2) \<noteq> m
                       then (s2\<lparr>adv := (adv s2)\<lparr>active_mfg_data := m\<rparr>\<rparr>, True) else (s2, c1))
             in if data_changed then
                  let s4 = invoke (BT (Ext_adv_set_data aset (ad (adv s3)) (sd (adv s3)))) s3
                  in (result E s4, unlock M_adv s4)
                else (0, unlock M_adv s3))"

text \<open>\<open>(uint16_t)(ms / 0.625f)\<close>.\<close>

definition ms_to_ticks :: "u32 \<Rightarrow> u16" where
  "ms_to_ticks ms = word_of_int \<lfloor>f32_div (f32_of_nat (unat ms)) (5 / 8)\<rfloor>"

definition ble_adv_custom_update_interval ::
  "env \<Rightarrow> u32 \<Rightarrow> u32 \<Rightarrow> 'a adv_sys_scheme \<Rightarrow> int \<times> 'a adv_sys_scheme" where
  "ble_adv_custom_update_interval E min_interval_ms max_interval_ms s =
     (let alt_interval_min = ms_to_ticks min_interval_ms;
          alt_interval_max = ms_to_ticks max_interval_ms;
          s1 = lock M_adv s
      in case adv_set (adv s1) of
           None \<Rightarrow> (- EINVAL, unlock M_adv s1)
         | Some aset \<Rightarrow>
             let was_advertising = is_advertising (adv s1);
                 update = (\<lambda>s2.
                   let dynamic_param = \<lparr>ap_id = Vision_id (adv s2), ap_sid = 1, ap_use_identity = True,
                         ap_interval_min = alt_interval_min, ap_interval_max = alt_interval_max\<rparr>;
                       s3 = invoke (BT (Ext_adv_update_param aset dynamic_param)) s2;
                       rc = result E s3
                   in if rc \<noteq> 0 then
                        let s4 = (if was_advertising
                              then (let s' = invoke (BT (Ext_adv_start aset)) s3
                                    in s'\<lparr>adv := (adv s')\<lparr>is_advertising := True\<rparr>\<rparr>)
                              else s3)
                        in (rc, unlock M_adv s4)
                      else if was_advertising then
                        let s4 = invoke (BT (Ext_adv_start aset)) s3;
                            rc = result E s4;
                            s5 = (if rc \<noteq> 0 then s4 else s4\<lparr>adv := (adv s4)\<lparr>is_advertising := True\<rparr>\<rparr>)
                        in (rc, unlock M_adv s5)
                      else (rc, unlock M_adv s3))
             in if was_advertising then
                  let s2 = invoke (BT (Ext_adv_stop aset)) s1;
                      rc = result E s2
                  in if rc \<noteq> 0 then (rc, unlock M_adv s2)
                     else update (s2\<lparr>adv := (adv s2)\<lparr>is_advertising := False\<rparr>\<rparr>)
                else update s1)"

text \<open>The common tail of the two battery updates: push the payload if a set exists.\<close>

definition push_payload :: "env \<Rightarrow> 'a adv_sys_scheme \<Rightarrow> 'a adv_sys_scheme" where
  "push_payload E s = (case adv_set (adv s) of None \<Rightarrow> s
     | Some aset \<Rightarrow> invoke (BT (Ext_adv_set_data aset (ad (adv s)) (sd (adv s)))) s)"

definition updateAdvBatLevel :: "env \<Rightarrow> u8 \<Rightarrow> 'a adv_sys_scheme \<Rightarrow> 'a adv_sys_scheme" where
  "updateAdvBatLevel E percent s =
     (let s1 = lock M_adv s;
          svc = active_svc_data (adv s1);
          s2 = (if sp_BatPercentage (sd_data svc) \<noteq> percent
                then push_payload E (s1\<lparr>adv := (adv s1)\<lparr>active_svc_data :=
                       svc\<lparr>sd_data := (sd_data svc)\<lparr>sp_BatPercentage := percent\<rparr>\<rparr>\<rparr>\<rparr>)
                else s1)
      in unlock M_adv s2)"

definition bat_mV_bitfield :: "u16 \<Rightarrow> u8" where
  "bat_mV_bitfield mV =
     ucast (push_bit 2 (word_of_int (int (unat mV) div 100 - 18) :: u32) AND 0x3C)"

definition updateAdvBatmV :: "env \<Rightarrow> u16 \<Rightarrow> 'a adv_sys_scheme \<Rightarrow> 'a adv_sys_scheme" where
  "updateAdvBatmV E mV s =
     (let calculated_bitfield = bat_mV_bitfield mV;
          s1 = lock M_adv s;
          svc = active_svc_data (adv s1);
          s2 = (if sp_Bitfield3 (sd_data svc) \<noteq> calculated_bitfield
                then push_payload E (s1\<lparr>adv := (adv s1)\<lparr>active_svc_data :=
                       svc\<lparr>sd_data := (sd_data svc)\<lparr>sp_Bitfield3 := calculated_bitfield\<rparr>\<rparr>\<rparr>\<rparr>)
                else s1)
      in unlock M_adv s2)"

section \<open>The component as a machine, and its invariant\<close>

lemma adv_invoke [simp]: "adv (invoke e s) = adv s"
  by (simp add: invoke_def)

lemma adv_lock [simp]: "adv (lock m s) = adv s" "adv (unlock m s) = adv s"
  by (simp_all add: lock_def unlock_def)

text \<open>The advertising and scan response data last handed to the stack, per set.\<close>

fun push_step :: "(adv_set \<rightharpoonup> bt_data list \<times> bt_data list) \<Rightarrow> ev \<Rightarrow> (adv_set \<rightharpoonup> bt_data list \<times> bt_data list)" where
  "push_step p (BT (Ext_adv_set_data h a b)) = p(h \<mapsto> (a, b))"
| "push_step p e = p"

definition pushed :: "ev list \<Rightarrow> (adv_set \<rightharpoonup> bt_data list \<times> bt_data list)" where
  "pushed = foldl push_step Map.empty"

lemma pushed_append [simp]: "pushed (es @ fs) = foldl push_step (pushed es) fs"
  by (simp add: pushed_def)

lemma push_step_K [simp]: "push_step p (K k) = p"
  by (cases k) simp_all

definition payload_pushed :: "'a adv_sys_scheme \<Rightarrow> bool" where
  "payload_pushed s \<longleftrightarrow> (\<forall>h. adv_set (adv s) = Some h \<longrightarrow>
     pushed (trace s) h = Some (ad (adv s), sd (adv s)))"

definition adv_inv :: "'a adv_sys_scheme \<Rightarrow> bool" where
  "adv_inv s \<longleftrightarrow> locks (trace s) = Free \<and> (is_advertising (adv s) \<longrightarrow> adv_set (adv s) \<noteq> None)
     \<and> payload_pushed s"

datatype adv_ev = AE_init | AE_connected | AE_start | AE_stop
  | AE_update "ble_service_data option" "ble_mfg_data option"
  | AE_interval u32 u32 | AE_level u8 | AE_mV u16

fun adv_do :: "env \<Rightarrow> adv_ev \<Rightarrow> 'a adv_sys_scheme \<Rightarrow> 'a adv_sys_scheme" where
  "adv_do E AE_init s = snd (ble_adv_custom_init E s)"
| "adv_do E AE_connected s = adv_connected s"
| "adv_do E AE_start s = snd (ble_adv_custom_start E s)"
| "adv_do E AE_stop s = snd (ble_adv_custom_stop E s)"
| "adv_do E (AE_update d m) s = snd (ble_adv_custom_update E d m s)"
| "adv_do E (AE_interval a b) s = snd (ble_adv_custom_update_interval E a b s)"
| "adv_do E (AE_level p) s = updateAdvBatLevel E p s"
| "adv_do E (AE_mV v) s = updateAdvBatmV E v s"

text \<open>The set is created once.\<close>

fun adv_ok :: "adv_ev \<Rightarrow> 'a adv_sys_scheme \<Rightarrow> bool" where
  "adv_ok AE_init s = (adv_set (adv s) = None \<and> \<not> is_advertising (adv s))"
| "adv_ok _ s = True"

lemma ad_sd_frame [simp]:
  "ad (a\<lparr>is_advertising := b\<rparr>) = ad a" "sd (a\<lparr>is_advertising := b\<rparr>) = sd a"
  "ad (a\<lparr>Vision_id := i\<rparr>) = ad a" "sd (a\<lparr>Vision_id := i\<rparr>) = sd a"
  "ad (a\<lparr>adv_set := h\<rparr>) = ad a" "sd (a\<lparr>adv_set := h\<rparr>) = sd a"
  "ad (a\<lparr>VisionMACaddr := m\<rparr>) = ad a" "sd (a\<lparr>VisionMACaddr := m\<rparr>) = sd a"
  by (simp_all add: ad_def sd_def)

lemma adv_inv_fields:
  "adv_inv (s\<lparr>adv := a\<rparr>) \<longleftrightarrow> locks (trace s) = Free \<and> (is_advertising a \<longrightarrow> adv_set a \<noteq> None)
     \<and> (\<forall>h. adv_set a = Some h \<longrightarrow> pushed (trace s) h = Some (ad a, sd a))"
  by (simp add: adv_inv_def payload_pushed_def)

lemmas adv_inv_unfold = adv_inv_def payload_pushed_def

lemma id_create_inv:
  "app_vision_custom_id_create E s = (rc, s') \<Longrightarrow>
   locks (trace s') = locks (trace s) \<and> pushed (trace s') = pushed (trace s)
   \<and> adv_set (adv s') = adv_set (adv s) \<and> is_advertising (adv s') = is_advertising (adv s)"
  by (auto simp: app_vision_custom_id_create_def Let_def split: if_splits)

lemma init_inv: "adv_inv s \<Longrightarrow> adv_ok AE_init s \<Longrightarrow> adv_inv (snd (ble_adv_custom_init E s))"
  by (auto simp: ble_adv_custom_init_def Let_def adv_inv_unfold split: prod.splits
      dest!: id_create_inv)

lemma start_inv: "adv_inv s \<Longrightarrow> adv_inv (snd (ble_adv_custom_start E s))"
  by (auto simp: ble_adv_custom_start_def Let_def adv_inv_unfold split: option.splits)

lemma stop_inv: "adv_inv s \<Longrightarrow> adv_inv (snd (ble_adv_custom_stop E s))"
  by (auto simp: ble_adv_custom_stop_def Let_def adv_inv_unfold split: option.splits)

lemma update_inv: "adv_inv s \<Longrightarrow> adv_inv (snd (ble_adv_custom_update E d m s))"
  by (auto simp: ble_adv_custom_update_def Let_def adv_inv_unfold split: option.splits)

lemma interval_inv: "adv_inv s \<Longrightarrow> adv_inv (snd (ble_adv_custom_update_interval E a b s))"
  by (auto simp: ble_adv_custom_update_interval_def Let_def adv_inv_unfold split: option.splits)

lemma battery_inv:
  "adv_inv s \<Longrightarrow> adv_inv (updateAdvBatLevel E p s)"
  "adv_inv s \<Longrightarrow> adv_inv (updateAdvBatmV E v s)"
  by (auto simp: updateAdvBatLevel_def updateAdvBatmV_def push_payload_def Let_def adv_inv_unfold
      split: option.splits)

lemma connected_inv: "adv_inv s \<Longrightarrow> adv_inv (adv_connected s)"
  by (simp add: adv_connected_def adv_inv_unfold)

interpretation advm: invariant_machine "adv_do E" adv_ok adv_inv for E
proof
  fix s :: "'a adv_sys_scheme" and e
  assume "adv_inv s" "adv_ok e s"
  then show "adv_inv (adv_do E e s)"
    by (cases e) (simp_all add: init_inv start_inv stop_inv update_inv interval_inv battery_inv connected_inv)
qed

section \<open>Units and encodings\<close>

lemma ms_to_ticks_exact: "unat ms < 40960 \<Longrightarrow> unat (ms_to_ticks ms) = 8 * unat ms div 5"
proof -
  assume h: "unat ms < 40960"
  then have "ms_to_ticks ms = of_nat (8 * unat ms div 5)"
    by (simp add: ms_to_ticks_def floor_f32_div_0625 flip: word_of_nat_eq_iff)
  then show ?thesis using h by (simp add: unat_of_nat)
qed

lemma less_16_cases:
  "(k :: nat) < 16 \<Longrightarrow> k \<in> {0, 1, 2, 3, 4, 5, 6, 7, 8, 9, 10, 11, 12, 13, 14, 15}"
  by simp arith

section \<open>Properties\<close>

text \<open>
  C12: The Vision advertiser.  After any sequence of calls to the module and connection
  callbacks, whatever the stack answers: no mutex is held and none was taken twice, the
  advertising flag is set only when an advertising set exists, and the data last handed to
  the stack for that set is the module's active payload and name.
\<close>

definition adv_init_state :: adv_sys where
  "adv_init_state = \<lparr>trace = [], halted = None, gd = blank_gst, adv = adv_st_init\<rparr>"

lemma adv_init_inv [simp]: "adv_inv adv_init_state"
  by (simp add: adv_init_state_def adv_inv_unfold adv_st_init_def)



end
