(* ===== verification/TimeMgr.thy ===== *)
theory TimeMgr
  imports Advt
begin

text \<open>
  src/vision_time_manager.c: the UTC clock kept as an anchor (epoch, uptime ticks), its copy
  in the retained RAM section, the local minute of the day, the energy saving window and the
  supervisor that stops and restarts the Vision advertiser.  64-bit signed values (ticks,
  epochs in seconds) are unbounded integers: they cannot reach 2^63 in the device's life.
\<close>

section \<open>State\<close>

record retained_time_block =
  u32_MagicMarker :: u32
  u32_LastSavedUtcEpoch :: u32
  s64_LastSavedUptimeMs :: int

record time_st =
  static_retained_time :: retained_time_block
  s64_BaseUtcEpoch :: int
  s64_BaseUptimeTicks :: int
  bool_IsTimeSynchronized :: bool
  Advtflag :: bool

record time_sys = adv_sys +
  tm :: time_st

definition TIME_MAGIC_VALIDATED :: u32 where "TIME_MAGIC_VALIDATED = 0xDEADBEEF"

text \<open>The volatile variables at reset; the retained block is in \<open>.noinit\<close> and survives.\<close>

definition time_st_reset :: "retained_time_block \<Rightarrow> time_st" where
  "time_st_reset r = \<lparr>static_retained_time = r, s64_BaseUtcEpoch = 0, s64_BaseUptimeTicks = 0,
     bool_IsTimeSynchronized = False, Advtflag = False\<rparr>"

lemma tm_invoke [simp]: "tm (invoke e s) = tm s"
  by (simp add: invoke_def)

lemma tm_lock [simp]: "tm (lock m s) = tm s" "tm (unlock m s) = tm s"
  by (simp_all add: lock_def unlock_def)

lemma gd_lock [simp]: "gd (lock m s) = gd s" "gd (unlock m s) = gd s"
  by (simp_all add: lock_def unlock_def)

section \<open>Operations\<close>

definition app_time_sync_set_utc :: "env \<Rightarrow> u32 \<Rightarrow> 'a time_sys_scheme \<Rightarrow> 'a time_sys_scheme" where
  "app_time_sync_set_utc E epoch s =
     (let s1 = lock M_time s;
          s2 = invoke (K Uptime_ticks) s1;
          s3 = s2\<lparr>tm := (tm s2)\<lparr>s64_BaseUptimeTicks := outval E s2, s64_BaseUtcEpoch := int (unat epoch),
                 bool_IsTimeSynchronized := True\<rparr>\<rparr>;
          s4 = invoke (K Uptime_get) s3;
          s5 = s4\<lparr>tm := (tm s4)\<lparr>static_retained_time := \<lparr>u32_MagicMarker = TIME_MAGIC_VALIDATED,
                 u32_LastSavedUtcEpoch = epoch, s64_LastSavedUptimeMs = outval E s4\<rparr>\<rparr>\<rparr>
      in unlock M_time s5)"

definition app_time_get_utc_epoch :: "env \<Rightarrow> 'a time_sys_scheme \<Rightarrow> u32 \<times> 'a time_sys_scheme" where
  "app_time_get_utc_epoch E s =
     (let s1 = lock M_time s
      in if \<not> bool_IsTimeSynchronized (tm s1) then (0, unlock M_time s1)
         else
           let s2 = invoke (K Uptime_ticks) s1;
               current_ticks = outval E s2;
               elapsed_ticks = current_ticks - s64_BaseUptimeTicks (tm s2);
               current_utc = word_of_int (s64_BaseUtcEpoch (tm s2) + c_div elapsed_ticks (ticks_per_sec E))
           in (current_utc, unlock M_time s2))"

text \<open>\<open>local_timestamp % 86400ULL\<close> converts the signed timestamp to \<open>uint64_t\<close> first.\<close>

definition minutes_of_day :: "u32 \<Rightarrow> int \<Rightarrow> u16" where
  "minutes_of_day current_utc offset_min =
     (let local_timestamp = int (unat current_utc) + offset_min * 60;
          seconds_in_day = nat (local_timestamp mod 2 ^ 64) mod 86400
      in of_nat (seconds_in_day div 60))"

definition app_time_get_local_minutes_of_day :: "env \<Rightarrow> 'a time_sys_scheme \<Rightarrow> u16 \<times> 'a time_sys_scheme" where
  "app_time_get_local_minutes_of_day E s =
     (let (current_utc, s1) = app_time_get_utc_epoch E s
      in if current_utc = 0 then (0, s1)
         else (minutes_of_day current_utc (s16_TimeZoneOffset (conf s1)), s1))"

definition within_window :: "u16 \<Rightarrow> u16 \<Rightarrow> u16 \<Rightarrow> bool" where
  "within_window current_min start_min end_min =
     (if start_min = 0xFFFF \<or> end_min = 0xFFFF then False
      else if start_min < end_min then start_min \<le> current_min \<and> current_min < end_min
      else start_min \<le> current_min \<or> current_min < end_min)"

definition app_time_is_within_energy_saving_window :: "env \<Rightarrow> 'a time_sys_scheme \<Rightarrow> bool \<times> 'a time_sys_scheme" where
  "app_time_is_within_energy_saving_window E s =
     (if \<not> bool_IsTimeSynchronized (tm s) then (False, s)
      else
        let (current_min, s1) = app_time_get_local_minutes_of_day E s;
            p = cd_energy_save_para (conf s1)
        in (within_window current_min (u16_StartMinutes p) (u16_EndMinutes p), s1))"

text \<open>The part of the handler under \<open>CONFIG_ENERGY_SAVE_MODE_LOGIC_ENABLED\<close>.\<close>

definition energy_save_logic :: "env \<Rightarrow> 'a time_sys_scheme \<Rightarrow> 'a time_sys_scheme" where
  "energy_save_logic E s =
     (let (inside, s1) = app_time_is_within_energy_saving_window E s
      in if inside then
           if \<not> Advtflag (tm s1)
           then let (_, s2) = ble_adv_custom_stop E s1 in s2\<lparr>tm := (tm s2)\<lparr>Advtflag := True\<rparr>\<rparr>
           else s1
         else
           if Advtflag (tm s1)
           then let (_, s2) = ble_adv_custom_start E s1 in s2\<lparr>tm := (tm s2)\<lparr>Advtflag := False\<rparr>\<rparr>
           else s1)"

definition time_supervisor_work_handler :: "env \<Rightarrow> 'a time_sys_scheme \<Rightarrow> 'a time_sys_scheme" where
  "time_supervisor_work_handler E s =
     (let s1 = invoke (K (Work_schedule W_time_supervisor 60000)) s
      in if \<not> bool_IsTimeSynchronized (tm s1) then s1
         else
           let (current_live_time, s2) = app_time_get_utc_epoch E s1;
               s3 = set_DynamicData ((dyn s2)\<lparr>dd_CurrentTime := current_live_time\<rparr>) s2;
               s4 = invoke (K Uptime_get) s3;
               s5 = s4\<lparr>tm := (tm s4)\<lparr>static_retained_time := \<lparr>u32_MagicMarker = TIME_MAGIC_VALIDATED,
                      u32_LastSavedUtcEpoch = current_live_time, s64_LastSavedUptimeMs = outval E s4\<rparr>\<rparr>\<rparr>
           in energy_save_logic E s5)"

definition app_time_manager_boot_recover :: "env \<Rightarrow> 'a time_sys_scheme \<Rightarrow> 'a time_sys_scheme" where
  "app_time_manager_boot_recover E s =
     (let s1 = lock M_time s;
          r = static_retained_time (tm s1)
      in if u32_MagicMarker r = TIME_MAGIC_VALIDATED then
           let s2 = invoke (K Uptime_ticks) s1;
               s3 = s2\<lparr>tm := (tm s2)\<lparr>s64_BaseUtcEpoch := int (unat (u32_LastSavedUtcEpoch r)) + 1,
                      s64_BaseUptimeTicks := outval E s2, bool_IsTimeSynchronized := True\<rparr>\<rparr>
           in unlock M_time s3
         else unlock M_time (s1\<lparr>tm := (tm s1)\<lparr>bool_IsTimeSynchronized := False\<rparr>\<rparr>))"

definition app_time_activities_init :: "env \<Rightarrow> 'a time_sys_scheme \<Rightarrow> 'a time_sys_scheme" where
  "app_time_activities_init E s =
     (let s1 = app_time_manager_boot_recover E s;
          s2 = invoke (K (Work_init W_time_supervisor)) s1
      in invoke (K (Work_schedule W_time_supervisor 0)) s2)"

section \<open>The clock\<close>

text \<open>The UTC time that the anchor gives when the tick counter shows \<open>k\<close>.\<close>

definition utc_at :: "env \<Rightarrow> int \<Rightarrow> time_st \<Rightarrow> u32" where
  "utc_at E k t = word_of_int (s64_BaseUtcEpoch t + c_div (k - s64_BaseUptimeTicks t) (ticks_per_sec E))"

definition utc_calls :: "ev list" where
  "utc_calls = [K (Mutex_lock M_time), K Uptime_ticks, K (Mutex_unlock M_time)]"

lemma get_utc_sync:
  "bool_IsTimeSynchronized (tm s) \<Longrightarrow> app_time_get_utc_epoch E s =
     (utc_at E (out E (trace s @ [K (Mutex_lock M_time), K Uptime_ticks])) (tm s),
      s\<lparr>trace := trace s @ utc_calls\<rparr>)"
  by (simp add: app_time_get_utc_epoch_def utc_at_def utc_calls_def io_defs)

lemma get_utc_unsync:
  "\<not> bool_IsTimeSynchronized (tm s) \<Longrightarrow> app_time_get_utc_epoch E s =
     (0, s\<lparr>trace := trace s @ [K (Mutex_lock M_time), K (Mutex_unlock M_time)]\<rparr>)"
  by (simp add: app_time_get_utc_epoch_def io_defs)

lemma foldl_utc_calls [simp]: "foldl lock_step Free utc_calls = Free"
  by (simp add: utc_calls_def)

lemma push_utc_calls [simp]: "foldl push_step p utc_calls = p"
  by (simp add: utc_calls_def)

text \<open>The minute of the local day, as the clock and the calendar define it.\<close>

lemma mod_2_64_mod_day: "0 \<le> x \<Longrightarrow> x < 2 ^ 63 \<Longrightarrow> nat (x mod 2 ^ 64) mod 86400 = nat (x mod 86400)"
  by (simp add: nat_mod_distrib)

lemma minutes_of_day_val:
  assumes "0 \<le> int (unat utc) + off * 60" "\<bar>off\<bar> \<le> 32768"
  shows "unat (minutes_of_day utc off) = nat ((int (unat utc) + off * 60) div 60 mod 1440)"
proof -
  define x where "x = int (unat utc) + off * 60"
  have "uint utc < 4294967296" using unsigned_less [of utc] by simp
  then have "0 \<le> x" "x < 2 ^ 63" using assms by (simp_all add: x_def)
  then have "minutes_of_day utc off = of_nat (nat (x mod 86400) div 60)"
    by (simp only: minutes_of_day_def Let_def x_def [symmetric] mod_2_64_mod_day)
  also have "nat (x mod 86400) div 60 = nat (x mod 86400 div 60)"
    by (simp add: nat_div_distrib)
  also have "x mod 86400 div 60 = x div 60 mod 1440"
    using zmod_zmult2_eq [of 1440 x 60] by simp
  finally have eq: "minutes_of_day utc off = of_nat (nat (x div 60 mod 1440))" .
  have u: "unat (of_nat k :: u16) = k" if "k < 1440" for k
    using that by (simp add: unat_of_nat)
  show ?thesis
    unfolding eq x_def [symmetric] by (rule u) (simp add: nat_less_iff)
qed

lemma minutes_of_day_less: "unat (minutes_of_day utc off) < 1440"
proof -
  have "n mod 86400 div 60 < 1440" for n :: nat
    by (simp add: less_mult_imp_div_less)
  then show ?thesis
    unfolding minutes_of_day_def Let_def
    by (simp add: unat_of_nat less_mult_imp_div_less order.strict_trans1 [OF mod_less_eq_dividend])
qed

text \<open>The window as an interval on the circle of 1440 minutes.\<close>

definition circular :: "nat \<Rightarrow> nat \<Rightarrow> nat \<Rightarrow> bool" where
  "circular m st en \<longleftrightarrow> (m + 1440 - st) mod 1440 < (en + 1440 - st) mod 1440"

lemma mod_1440_shift: "(a :: nat) < 1440 \<Longrightarrow> b < 1440 \<Longrightarrow> (a + 1440 - b) mod 1440 = (if b \<le> a then a - b else a + 1440 - b)"
  by (simp add: mod_if)

lemma within_window_circular:
  assumes "unat m < 1440" "unat st < 1440" "unat en < 1440" "st \<noteq> en"
  shows "within_window m st en \<longleftrightarrow> circular (unat m) (unat st) (unat en)"
proof -
  have ne: "unat st \<noteq> unat en" using assms(4) unsigned_word_eqI by blast
  have "st \<noteq> 0xFFFF" "en \<noteq> 0xFFFF" using assms by auto
  then show ?thesis
    using assms ne by (auto simp: within_window_def circular_def mod_1440_shift word_le_nat_alt word_less_nat_alt)
qed

section \<open>The supervisor\<close>

lemma adv_tm_update [simp]: "adv (s\<lparr>tm := t\<rparr>) = adv s" "trace (s\<lparr>tm := t\<rparr>) = trace s"
  by simp_all

lemma adv_set_DynamicData [simp]: "adv (set_DynamicData d s) = adv s" "tm (set_DynamicData d s) = tm s"
  by (simp_all add: set_DynamicData_def)

lemma adv_trace_update [simp]: "adv (s\<lparr>trace := t\<rparr>) = adv s" "tm (s\<lparr>trace := t\<rparr>) = tm s"
  "gd (s\<lparr>trace := t\<rparr>) = gd s"
  by simp_all

lemma window_sync:
  assumes "bool_IsTimeSynchronized (tm s)"
  shows "\<exists>m. app_time_is_within_energy_saving_window E s =
     (let p = cd_energy_save_para (conf s) in within_window m (u16_StartMinutes p) (u16_EndMinutes p),
      s\<lparr>trace := trace s @ utc_calls\<rparr>)
     \<and> unat m < 1440"
  using assms minutes_of_day_less
  by (auto simp: app_time_is_within_energy_saving_window_def app_time_get_local_minutes_of_day_def
      get_utc_sync Let_def split: prod.splits)

lemma stop_frame [simp]:
  "tm (snd (ble_adv_custom_stop E s)) = tm s" "gd (snd (ble_adv_custom_stop E s)) = gd s"
  by (auto simp: ble_adv_custom_stop_def Let_def split: option.splits)

lemma start_frame [simp]:
  "tm (snd (ble_adv_custom_start E s)) = tm s" "gd (snd (ble_adv_custom_start E s)) = gd s"
  by (auto simp: ble_adv_custom_start_def Let_def split: option.splits)

lemma stop_effect:
  "(\<And>t. ret E t = 0) \<Longrightarrow> adv_inv s \<Longrightarrow> \<not> is_advertising (adv (snd (ble_adv_custom_stop E s)))"
  by (auto simp: ble_adv_custom_stop_def Let_def result_def adv_inv_def split: option.splits)

lemma start_effect:
  "(\<And>t. ret E t = 0) \<Longrightarrow> adv_set (adv s) \<noteq> None \<Longrightarrow>
   is_advertising (adv (snd (ble_adv_custom_start E s)))"
  by (auto simp: ble_adv_custom_start_def Let_def result_def split: option.splits)

text \<open>The state in which the supervisor decides about the advertiser.\<close>

definition supervisor_prefix :: "env \<Rightarrow> 'a time_sys_scheme \<Rightarrow> 'a time_sys_scheme" where
  "supervisor_prefix E s =
     (let s1 = invoke (K (Work_schedule W_time_supervisor 60000)) s;
          (t, s2) = app_time_get_utc_epoch E s1;
          s4 = invoke (K Uptime_get) (set_DynamicData ((dyn s2)\<lparr>dd_CurrentTime := t\<rparr>) s2)
      in s4\<lparr>tm := (tm s4)\<lparr>static_retained_time := \<lparr>u32_MagicMarker = TIME_MAGIC_VALIDATED,
           u32_LastSavedUtcEpoch = t, s64_LastSavedUptimeMs = outval E s4\<rparr>\<rparr>\<rparr>)"

lemma supervisor_prefix_spec:
  fixes E
  assumes "bool_IsTimeSynchronized (tm s)"
  defines "s1 \<equiv> supervisor_prefix E s"
  shows "adv s1 = adv s" "Advtflag (tm s1) = Advtflag (tm s)" "bool_IsTimeSynchronized (tm s1)"
    "conf s1 = conf s" "u32_LastSavedUtcEpoch (static_retained_time (tm s1)) = dd_CurrentTime (dyn s1)"
    "u32_MagicMarker (static_retained_time (tm s1)) = TIME_MAGIC_VALIDATED"
    "\<exists>k. dd_CurrentTime (dyn s1) = utc_at E k (tm s)"
    "trace s1 = trace s @ K (Work_schedule W_time_supervisor 60000) # utc_calls @ [K Uptime_get]"
  using assms(1) by (auto simp: s1_def supervisor_prefix_def get_utc_sync Let_def)

lemma supervisor_split:
  "bool_IsTimeSynchronized (tm s) \<Longrightarrow>
   time_supervisor_work_handler E s = energy_save_logic E (supervisor_prefix E s)"
  by (simp add: time_supervisor_work_handler_def supervisor_prefix_def get_utc_sync Let_def)

lemma energy_save_logic_cases:
  "app_time_is_within_energy_saving_window E s = (inside, s1) \<Longrightarrow> energy_save_logic E s =
    (if inside = Advtflag (tm s1) then s1
     else let s2 = snd (if inside then ble_adv_custom_stop E s1 else ble_adv_custom_start E s1)
          in s2\<lparr>tm := (tm s2)\<lparr>Advtflag := inside\<rparr>\<rparr>)"
  by (simp add: energy_save_logic_def Let_def case_prod_unfold)

lemma supervisor_decide:
  assumes "bool_IsTimeSynchronized (tm s)"
  shows "\<exists>m. unat m < 1440 \<and>
    (let s1 = supervisor_prefix E s; s2 = s1\<lparr>trace := trace s1 @ utc_calls\<rparr>;
         p = cd_energy_save_para (conf s); inside = within_window m (u16_StartMinutes p) (u16_EndMinutes p)
     in time_supervisor_work_handler E s =
       (if inside = Advtflag (tm s) then s2
        else let s3 = snd (if inside then ble_adv_custom_stop E s2 else ble_adv_custom_start E s2)
             in s3\<lparr>tm := (tm s3)\<lparr>Advtflag := inside\<rparr>\<rparr>))"
proof -
  note pre = supervisor_prefix_spec [OF assms, of E]
  obtain m where m: "app_time_is_within_energy_saving_window E (supervisor_prefix E s) =
     (let p = cd_energy_save_para (conf s) in within_window m (u16_StartMinutes p) (u16_EndMinutes p),
      (supervisor_prefix E s)\<lparr>trace := trace (supervisor_prefix E s) @ utc_calls\<rparr>)" "unat m < 1440"
    using window_sync [OF pre(3), of E] pre(4) by auto
  show ?thesis
    using m(2) pre(2)
    by (intro exI [of _ m]) (simp add: supervisor_split [OF assms] energy_save_logic_cases [OF m(1)] Let_def)
qed

lemma adv_inv_cong:
  "adv s = adv t \<Longrightarrow> locks (trace s) = locks (trace t) \<Longrightarrow> pushed (trace s) = pushed (trace t) \<Longrightarrow>
   adv_inv s = adv_inv t"
  by (simp add: adv_inv_unfold)

lemma adv_inv_prefix:
  "bool_IsTimeSynchronized (tm s) \<Longrightarrow> adv_inv s \<Longrightarrow>
   adv_inv ((supervisor_prefix E s)\<lparr>trace := trace (supervisor_prefix E s) @ utc_calls\<rparr>)"
  by (simp add: adv_inv_unfold supervisor_prefix_spec [where E = E])

lemma adv_inv_tm [simp]: "adv_inv (s\<lparr>tm := t\<rparr>) = adv_inv s"
  by (simp add: adv_inv_unfold)

section \<open>Properties\<close>

text \<open>
  C31: The clock.  After a synchronisation at tick k0, and as long as nobody moves the
  anchor, reading the time at tick k1 gives the received epoch plus the whole seconds
  elapsed, modulo 2^32; both operations release the mutex.
\<close>

definition sync_tick :: "env \<Rightarrow> 'a io_scheme \<Rightarrow> int" where
  "sync_tick E s = out E (trace s @ [K (Mutex_lock M_time), K Uptime_ticks])"

theorem clock_roundtrip:
  fixes E epoch
  assumes "0 < ticks_per_sec E"
    and "s1 = app_time_sync_set_utc E epoch s"
    and "s64_BaseUtcEpoch (tm s2) = s64_BaseUtcEpoch (tm s1)"
    and "s64_BaseUptimeTicks (tm s2) = s64_BaseUptimeTicks (tm s1)"
    and "bool_IsTimeSynchronized (tm s2)"
    and "sync_tick E s \<le> sync_tick E s2"
  shows "fst (app_time_get_utc_epoch E s2)
      = epoch + word_of_int ((sync_tick E s2 - sync_tick E s) div ticks_per_sec E)
    \<and> locks (trace s1) = lock_step (lock_step (locks (trace s)) (K (Mutex_lock M_time))) (K (Mutex_unlock M_time))"
  using assms
  by (simp add: get_utc_sync utc_at_def app_time_sync_set_utc_def Let_def sync_tick_def c_div_nonneg
      outval_def)

text \<open>An environment whose tick counter shows \<open>k\<close> at every reading after the first \<open>n\<close> events.\<close>

definition tick_env :: "nat \<Rightarrow> int \<Rightarrow> env" where
  "tick_env n k = (const_env 0)\<lparr>out := (\<lambda>t. if length t \<le> n then 0 else k)\<rparr>"

definition time_init :: "retained_time_block \<Rightarrow> time_sys" where
  "time_init r = \<lparr>trace = [], halted = None, gd = blank_gst, adv = adv_st_init, tm = time_st_reset r\<rparr>"

definition no_block :: retained_time_block where
  "no_block = \<lparr>u32_MagicMarker = 0, u32_LastSavedUtcEpoch = 0, s64_LastSavedUptimeMs = 0\<rparr>"

theorem clock_roundtrip_witness:
  "let E = tick_env 5 327680 in
   fst (app_time_get_utc_epoch E (app_time_sync_set_utc E 1780825185 (time_init no_block))) = 1780825195"
proof -
  let ?E = "tick_env 5 327680"
  have "sync_tick ?E (time_init no_block) = 0"
    and "sync_tick ?E (app_time_sync_set_utc ?E 1780825185 (time_init no_block)) = 327680"
    and "bool_IsTimeSynchronized (tm (app_time_sync_set_utc ?E 1780825185 (time_init no_block)))"
    by (simp_all add: sync_tick_def tick_env_def time_init_def app_time_sync_set_utc_def Let_def)
  then show ?thesis
    using clock_roundtrip [of ?E "app_time_sync_set_utc ?E 1780825185 (time_init no_block)" 1780825185
        "time_init no_block", OF _ refl refl refl]
    by (simp add: Let_def tick_env_def const_env_def)
qed

text \<open>
  C32: Time after a reset.  Whatever the retained RAM holds, recovery at boot synchronises
  the clock exactly when the marker is valid; then the clock shows the last saved epoch
  plus one second plus the whole seconds since the recovery, and otherwise reads 0.
\<close>

theorem clock_recovery:
  fixes E r
  assumes "0 < ticks_per_sec E" and "tm s = time_st_reset r"
    and "s1 = app_time_manager_boot_recover E s" and "sync_tick E s \<le> sync_tick E s1"
  shows "fst (app_time_get_utc_epoch E s1) =
      (if u32_MagicMarker r = TIME_MAGIC_VALIDATED
       then u32_LastSavedUtcEpoch r + 1 + word_of_int ((sync_tick E s1 - sync_tick E s) div ticks_per_sec E)
       else 0)
    \<and> bool_IsTimeSynchronized (tm s1) = (u32_MagicMarker r = TIME_MAGIC_VALIDATED)"
  using assms
  by (cases "u32_MagicMarker r = TIME_MAGIC_VALIDATED")
    (simp_all add: app_time_manager_boot_recover_def get_utc_sync get_utc_unsync utc_at_def Let_def
      time_st_reset_def sync_tick_def outval_def c_div_nonneg add.assoc)

theorem clock_recovery_witness:
  "let r = \<lparr>u32_MagicMarker = 0xDEADBEEF, u32_LastSavedUtcEpoch = 1000, s64_LastSavedUptimeMs = 0\<rparr>
   in fst (app_time_get_utc_epoch (const_env 0) (app_time_manager_boot_recover (const_env 0) (time_init r))) = 1001"
  using clock_recovery [of "const_env 0" "time_init r" r for r, OF _ _ refl]
  by (simp add: Let_def const_env_def time_init_def sync_tick_def TIME_MAGIC_VALIDATED_def)

text \<open>
  C15: The energy saving window.  With a synchronised clock that shows \<open>utc\<close>, a valid
  configuration (bounds below 1440, distinct) and a local time after 1970, the code's two
  interval tests, midnight wrap-around included, say whether the local minute lies on the
  arc from start to end of the circle of 1440 minutes.
\<close>

theorem energy_window_is_arc:
  assumes "bool_IsTimeSynchronized (tm s)" and "\<And>t. utc_at E (out E t) (tm s) = utc" and "utc \<noteq> 0"
    and "0 \<le> int (unat utc) + s16_TimeZoneOffset (conf s) * 60"
    and "p = cd_energy_save_para (conf s)"
    and "unat (u16_StartMinutes p) < 1440" "unat (u16_EndMinutes p) < 1440"
    and "u16_StartMinutes p \<noteq> u16_EndMinutes p"
  shows "fst (app_time_is_within_energy_saving_window E s) =
    circular (nat ((int (unat utc) + s16_TimeZoneOffset (conf s) * 60) div 60 mod 1440))
      (unat (u16_StartMinutes p)) (unat (u16_EndMinutes p))"
proof -
  have off: "\<bar>s16_TimeZoneOffset (conf s)\<bar> \<le> 32768"
    using sint_ge [of "cd_TimeZoneOffset (conf s)"] sint_lt [of "cd_TimeZoneOffset (conf s)"]
    by (simp add: s16_TimeZoneOffset_def)
  have "fst (app_time_is_within_energy_saving_window E s) =
    within_window (minutes_of_day utc (s16_TimeZoneOffset (conf s))) (u16_StartMinutes p) (u16_EndMinutes p)"
    using assms(1-3,5)
    by (simp add: app_time_is_within_energy_saving_window_def app_time_get_local_minutes_of_day_def
        get_utc_sync Let_def)
  then show ?thesis
    by (simp only: within_window_circular [OF minutes_of_day_less assms(6-8)]
        minutes_of_day_val [OF assms(4) off])
qed

theorem energy_window_is_arc_witness:
  "let s = (time_init no_block)\<lparr>tm := (time_st_reset no_block)\<lparr>bool_IsTimeSynchronized := True,
         s64_BaseUtcEpoch := 1780866000\<rparr>, gd := blank_gst\<lparr>gst_ConfigData := load_field_config_defaults zero_ConfigData\<rparr>\<rparr>
   in fst (app_time_is_within_energy_saving_window (const_env 0) s)"
proof -
  let ?c = "load_field_config_defaults zero_ConfigData"
  let ?s = "(time_init no_block)\<lparr>tm := (time_st_reset no_block)\<lparr>bool_IsTimeSynchronized := True,
         s64_BaseUtcEpoch := 1780866000\<rparr>, gd := blank_gst\<lparr>gst_ConfigData := ?c\<rparr>\<rparr>"
  have "s16_TimeZoneOffset ?c = 330" by (simp add: s16_TimeZoneOffset_def load_field_config_defaults_def)
  then show ?thesis
    using energy_window_is_arc [of ?s "const_env 0" 1780866000, OF _ _ _ _ refl]
    by (simp add: Let_def const_env_def utc_at_def time_st_reset_def c_div_def circular_def
        load_field_config_defaults_def)
qed



end
