(* ===== verification/Uart.thy ===== *)
theory Uart
  imports TimeMgr
begin

text \<open>
  src/vision_production.c: the power-managed UART used on the production line, its message
  buffers, and the command interpreter that reads and writes the persistent data.

  A chunk received from the driver is copied into \<open>deferred_rx_work_buf\<close> and handled later
  on the work queue from a copy on the stack.  The code hands the interpreter a pointer to
  that 64-byte copy, of which only the first \<open>len\<close> bytes were received; \<open>stack\<close> is what the
  rest of it holds.  \<open>tx_buf\<close> is one buffer reused for all replies.
\<close>

section \<open>State\<close>

record uart_st =
  tx_buf :: bytes
  deferred_rx_work_buf :: bytes
  deferred_rx_work_len :: nat
  bool_ProductionDataWrite :: bool
  bool_ConfigDataWrite :: bool
  bool_DynamicDataWrite :: bool
  uart_is_powered :: bool
  rx_swap_toggle :: bool

record uart_sys = time_sys +
  ua :: uart_st

definition UART_RX_BUF_SIZE :: nat where "UART_RX_BUF_SIZE = 64"
definition UART_TX_BUF_SIZE :: nat where "UART_TX_BUF_SIZE = 32"

definition uart_st_init :: uart_st where
  "uart_st_init = \<lparr>tx_buf = replicate UART_TX_BUF_SIZE 0, deferred_rx_work_buf = replicate UART_RX_BUF_SIZE 0,
     deferred_rx_work_len = 0, bool_ProductionDataWrite = False, bool_ConfigDataWrite = False,
     bool_DynamicDataWrite = False, uart_is_powered = False, rx_swap_toggle = False\<rparr>"

definition TOOL_RESET_CMD :: u8 where "TOOL_RESET_CMD = 0x01"
definition TOOL_SET_DEFULT_PASSW :: u8 where "TOOL_SET_DEFULT_PASSW = 0x3A"
definition TOOL_SET_SERIAL_OF_DUT_CMD :: u8 where "TOOL_SET_SERIAL_OF_DUT_CMD = 0x0A"
definition TOOL_SET_MAC_OF_DUT_CMD :: u8 where "TOOL_SET_MAC_OF_DUT_CMD = 0x0C"
definition TOOL_READ_SERIAL_OF_DUT_CMD :: u8 where "TOOL_READ_SERIAL_OF_DUT_CMD = 0x0B"
definition TOOL_READ_MAC_OF_DUT_CMD :: u8 where "TOOL_READ_MAC_OF_DUT_CMD = 0x0D"
definition TOOL_READ_FW_VER_CMD :: u8 where "TOOL_READ_FW_VER_CMD = 0x16"
definition TOOL_SET_CLOCK_CMD :: u8 where "TOOL_SET_CLOCK_CMD = 0x21"
definition TOOL_SET_DEVICE_CONFIG :: u8 where "TOOL_SET_DEVICE_CONFIG = 0x3C"
definition TOOL_READ_DEVICE_CONFIG :: u8 where "TOOL_READ_DEVICE_CONFIG = 0x3D"
definition TOOL_READ_BLE_MAC_OF_DUT_CMD :: u8 where "TOOL_READ_BLE_MAC_OF_DUT_CMD = 0x0E"

lemmas tool_defs = TOOL_RESET_CMD_def TOOL_SET_DEFULT_PASSW_def TOOL_SET_SERIAL_OF_DUT_CMD_def
  TOOL_SET_MAC_OF_DUT_CMD_def TOOL_READ_SERIAL_OF_DUT_CMD_def TOOL_READ_MAC_OF_DUT_CMD_def
  TOOL_READ_FW_VER_CMD_def TOOL_SET_CLOCK_CMD_def TOOL_SET_DEVICE_CONFIG_def
  TOOL_READ_DEVICE_CONFIG_def TOOL_READ_BLE_MAC_OF_DUT_CMD_def

definition SUCCESS :: u8 where "SUCCESS = 0x01"
definition INVALID_PROD_COMMAND :: u8 where "INVALID_PROD_COMMAND = 0x02"
definition HARDWARE_MAJOR :: u8 where "HARDWARE_MAJOR = 1"
definition HARDWARE_MINOR :: u8 where "HARDWARE_MINOR = 0"

section \<open>Power management and transmission\<close>

definition app_uart_init :: "env \<Rightarrow> 'a io_scheme \<Rightarrow> int \<times> 'a io_scheme" where
  "app_uart_init E s =
     (let s1 = invoke (DEV (Device_is_ready ''uart0'')) s
      in if result E s1 = 0 then (- ENODEV, s1)
         else
           let s2 = invoke (DEV Uart_callback_set) s1;
               err = result E s2
           in if err \<noteq> 0 then (err, s2)
              else (0, invoke (K (Work_init W_uart_msg)) (invoke (K (Work_init W_uart_lifetime)) s2)))"

definition app_uart_enable :: "env \<Rightarrow> 'a uart_sys_scheme \<Rightarrow> int \<times> 'a uart_sys_scheme" where
  "app_uart_enable E s =
     (let s1 = lock M_uart_pm s
      in if uart_is_powered (ua s1) then (0, unlock M_uart_pm s1)
         else
           let s2 = invoke (DEV (Pm_resume ''uart0'')) s1;
               err = result E s2
           in if err \<noteq> 0 \<and> err \<noteq> - EALREADY then (err, unlock M_uart_pm s2)
              else
                let s3 = s2\<lparr>ua := (ua s2)\<lparr>rx_swap_toggle := False\<rparr>\<rparr>;
                    s4 = invoke (DEV (Uart_rx_enable 1)) s3;
                    err = result E s4
                in if err \<noteq> 0 then (err, unlock M_uart_pm (invoke (DEV (Pm_suspend ''uart0'')) s4))
                   else (0, unlock M_uart_pm (s4\<lparr>ua := (ua s4)\<lparr>uart_is_powered := True\<rparr>\<rparr>)))"

definition app_uart_disable :: "env \<Rightarrow> 'a uart_sys_scheme \<Rightarrow> int \<times> 'a uart_sys_scheme" where
  "app_uart_disable E s =
     (let s1 = lock M_uart_pm s
      in if \<not> uart_is_powered (ua s1) then (0, unlock M_uart_pm s1)
         else
           let s2 = invoke (DEV Uart_rx_disable) s1;
               s3 = invoke (K (Sleep_ms 10)) s2;
               s4 = invoke (DEV (Pm_suspend ''uart0'')) s3;
               err = result E s4;
               s5 = (if err = 0 then s4\<lparr>ua := (ua s4)\<lparr>uart_is_powered := False\<rparr>\<rparr> else s4)
           in (err, unlock M_uart_pm s5))"

definition app_uart_transmit :: "env \<Rightarrow> bytes \<Rightarrow> 'a uart_sys_scheme \<Rightarrow> int \<times> 'a uart_sys_scheme" where
  "app_uart_transmit E data s =
     (let s1 = lock M_uart_pm s
      in if \<not> uart_is_powered (ua s1) then (- EACCES, unlock M_uart_pm s1)
         else
           let s2 = invoke (DEV (Uart_tx data)) s1
           in (result E s2, unlock M_uart_pm s2))"

definition uart_lifetime_timeout_handler :: "env \<Rightarrow> 'a uart_sys_scheme \<Rightarrow> 'a uart_sys_scheme" where
  "uart_lifetime_timeout_handler E s = snd (app_uart_disable E s)"

definition app_uart_boot_sequence_start :: "env \<Rightarrow> 'a uart_sys_scheme \<Rightarrow> 'a uart_sys_scheme" where
  "app_uart_boot_sequence_start E s =
     (let (err, s1) = app_uart_init E s
      in if err = 0 then
           let (err, s2) = app_uart_enable E s1
           in if err = 0 then invoke (K (Work_schedule W_uart_lifetime 30000)) s2 else s2
         else s1)"

section \<open>Driver events\<close>

text \<open>\<open>UART_RX_RDY\<close> with the bytes of the chunk, and \<open>UART_RX_BUF_REQUEST\<close>.\<close>

datatype uart_event = UART_RX_RDY bytes | UART_RX_BUF_REQUEST | UART_OTHER

fun uart_async_callback :: "uart_event \<Rightarrow> 'a uart_sys_scheme \<Rightarrow> 'a uart_sys_scheme" where
  "uart_async_callback (UART_RX_RDY chunk) s =
     (if \<not> uart_is_powered (ua s) then s
      else if 0 < length chunk \<and> length chunk \<le> UART_RX_BUF_SIZE then
        let s1 = lock M_uart_pm s;
            s2 = s1\<lparr>ua := (ua s1)\<lparr>deferred_rx_work_buf := put_at 0 chunk (deferred_rx_work_buf (ua s1)),
                   deferred_rx_work_len := length chunk\<rparr>\<rparr>;
            s3 = invoke (K (Work_submit W_uart_msg)) s2
        in unlock M_uart_pm s3
      else s)"
| "uart_async_callback UART_RX_BUF_REQUEST s =
     (let s1 = invoke (DEV (Uart_rx_buf_rsp (if rx_swap_toggle (ua s) then 1 else 2))) s
      in s1\<lparr>ua := (ua s1)\<lparr>rx_swap_toggle := \<not> rx_swap_toggle (ua s1)\<rparr>\<rparr>)"
| "uart_async_callback UART_OTHER s = s"

section \<open>Checksum\<close>

definition FindChecksum :: "bytes \<Rightarrow> nat \<Rightarrow> u8" where
  "FindChecksum msg count =
     (let total = foldl (\<lambda>t b. t + ucast b) (0 :: u32) (take count msg);
          total = total AND 0xFF;
          total = (NOT total + 1) AND 0xFF
      in ucast total)"

section \<open>Commands\<close>

text \<open>
  Every reply is written at the start of \<open>tx_buf\<close>, followed by the checksum of the bytes
  before it, and transmitted: \<open>send_frame\<close> with the bytes that precede the checksum.
\<close>

definition send_frame :: "env \<Rightarrow> bytes \<Rightarrow> 'a uart_sys_scheme \<Rightarrow> 'a uart_sys_scheme" where
  "send_frame E front s =
     (let n = length front;
          b = put_at 0 front (tx_buf (ua s));
          b = b[n := FindChecksum b n]
      in snd (app_uart_transmit E (take (n + 1) b) (s\<lparr>ua := (ua s)\<lparr>tx_buf := b\<rparr>\<rparr>)))"

definition app_self_restart :: "env \<Rightarrow> 'a uart_sys_scheme \<Rightarrow> 'a uart_sys_scheme" where
  "app_self_restart E s =
     (let (_, s1) = app_uart_disable E s;
          s2 = invoke (K (Sleep_ms 100)) s1;
          s3 = invoke (K (Sleep_ms 10)) s2
      in sys_reboot s3)"

definition cmd_reset :: "env \<Rightarrow> 'a uart_sys_scheme \<Rightarrow> 'a uart_sys_scheme" where
  "cmd_reset E s = app_self_restart E (send_frame E [3, TOOL_RESET_CMD OR 0x80, SUCCESS] s)"

text \<open>Changes of the production data mark it for writing.\<close>

definition mark_production :: "'a uart_sys_scheme \<Rightarrow> 'a uart_sys_scheme" where
  "mark_production s = s\<lparr>ua := (ua s)\<lparr>bool_ProductionDataWrite := True\<rparr>\<rparr>"

definition cmd_set_password :: "env \<Rightarrow> bytes \<Rightarrow> 'a uart_sys_scheme \<Rightarrow> 'a uart_sys_scheme" where
  "cmd_set_password E data s =
     (let s1 = set_ProductionData ((prod s)\<lparr>pd_Password := get_at 2 MAX_PASSWORD_SIZE data\<rparr>) s
      in send_frame E [3, data ! 1 OR 0x80, SUCCESS] (mark_production s1))"

definition cmd_set_serial :: "env \<Rightarrow> bytes \<Rightarrow> 'a uart_sys_scheme \<Rightarrow> 'a uart_sys_scheme" where
  "cmd_set_serial E data s =
     (let s1 = set_ProductionData ((prod s)\<lparr>pd_SerialNumber := get_at 2 SR_NUM_SIZE data\<rparr>) s
      in send_frame E [3, TOOL_SET_SERIAL_OF_DUT_CMD OR 0x80, SUCCESS] (mark_production s1))"

text \<open>The MAC address travels least significant byte first.\<close>

definition cmd_set_mac :: "env \<Rightarrow> bytes \<Rightarrow> 'a uart_sys_scheme \<Rightarrow> 'a uart_sys_scheme" where
  "cmd_set_mac E data s =
     (let mac = fold (\<lambda>i m. m[5 - i := data ! (i + 2)]) [0..<6] (pd_MACAddr (prod s));
          s1 = set_ProductionData ((prod s)\<lparr>pd_MACAddr := mac\<rparr>) s
      in send_frame E [3, TOOL_SET_MAC_OF_DUT_CMD OR 0x80, SUCCESS] (mark_production s1))"

definition cmd_set_clock :: "env \<Rightarrow> bytes \<Rightarrow> 'a uart_sys_scheme \<Rightarrow> 'a uart_sys_scheme" where
  "cmd_set_clock E data s =
     (let s1 = set_DynamicData ((dyn s)\<lparr>dd_CurrentTime := un_le32 (get_at 2 4 data)\<rparr>) s;
          s2 = set_ConfigData ((conf s1)\<lparr>cd_TimeZoneOffset := un_le16 (get_at 6 2 data)\<rparr>) s1;
          s3 = s2\<lparr>ua := (ua s2)\<lparr>bool_ConfigDataWrite := True, bool_DynamicDataWrite := True\<rparr>\<rparr>;
          s4 = app_time_sync_set_utc E (dd_CurrentTime (dyn s3)) s3
      in send_frame E [3, TOOL_SET_CLOCK_CMD OR 0x80, SUCCESS] s4)"

definition cmd_set_device_config :: "env \<Rightarrow> bytes \<Rightarrow> 'a uart_sys_scheme \<Rightarrow> 'a uart_sys_scheme" where
  "cmd_set_device_config E data s =
     (if data ! 2 = 0 then
        let s1 = set_ProductionData ((prod s)\<lparr>pd_ModelNumber := get_at 3 MODEL_NUMBER_LEN data\<rparr>) s
        in send_frame E [4, TOOL_SET_DEVICE_CONFIG OR 0x80, data ! 2, SUCCESS] (mark_production s1)
      else send_frame E [4, TOOL_SET_DEVICE_CONFIG OR 0x80, data ! 2, INVALID_PROD_COMMAND] s)"

definition cmd_read_serial :: "env \<Rightarrow> 'a uart_sys_scheme \<Rightarrow> 'a uart_sys_scheme" where
  "cmd_read_serial E s = send_frame E ([20, TOOL_READ_SERIAL_OF_DUT_CMD OR 0x80] @ pd_SerialNumber (prod s)) s"

definition cmd_read_mac :: "env \<Rightarrow> 'a uart_sys_scheme \<Rightarrow> 'a uart_sys_scheme" where
  "cmd_read_mac E s = send_frame E ([8, TOOL_READ_MAC_OF_DUT_CMD OR 0x80]
     @ map (\<lambda>i. pd_MACAddr (prod s) ! (5 - i)) [0..<6]) s"

definition cmd_read_ble_mac :: "env \<Rightarrow> 'a uart_sys_scheme \<Rightarrow> 'a uart_sys_scheme" where
  "cmd_read_ble_mac E s = send_frame E ([8, TOOL_READ_BLE_MAC_OF_DUT_CMD OR 0x80] @ get_factory_mac_copy s) s"

definition cmd_read_fw_ver :: "env \<Rightarrow> 'a uart_sys_scheme \<Rightarrow> 'a uart_sys_scheme" where
  "cmd_read_fw_ver E s = send_frame E [6, TOOL_READ_FW_VER_CMD OR 0x80, APP_VERSION_MAJOR, APP_VERSION_MINOR,
     HARDWARE_MAJOR, HARDWARE_MINOR] s"

definition cmd_read_device_config :: "env \<Rightarrow> bytes \<Rightarrow> 'a uart_sys_scheme \<Rightarrow> 'a uart_sys_scheme" where
  "cmd_read_device_config E data s =
     (if data ! 2 = 0 then
        send_frame E ([16, TOOL_READ_DEVICE_CONFIG OR 0x80, data ! 2, SUCCESS] @ pd_ModelNumber (prod s)) s
      else send_frame E [4, TOOL_READ_DEVICE_CONFIG OR 0x80, data ! 2, INVALID_PROD_COMMAND] s)"

definition dispatch :: "env \<Rightarrow> bytes \<Rightarrow> 'a uart_sys_scheme \<Rightarrow> 'a uart_sys_scheme" where
  "dispatch E data s =
     (let c = data ! 1
      in if c = TOOL_RESET_CMD then cmd_reset E s
         else if c = TOOL_SET_DEFULT_PASSW then cmd_set_password E data s
         else if c = TOOL_SET_SERIAL_OF_DUT_CMD then cmd_set_serial E data s
         else if c = TOOL_SET_MAC_OF_DUT_CMD then cmd_set_mac E data s
         else if c = TOOL_SET_CLOCK_CMD then cmd_set_clock E data s
         else if c = TOOL_SET_DEVICE_CONFIG then cmd_set_device_config E data s
         else if c = TOOL_READ_SERIAL_OF_DUT_CMD then cmd_read_serial E s
         else if c = TOOL_READ_MAC_OF_DUT_CMD then cmd_read_mac E s
         else if c = TOOL_READ_BLE_MAC_OF_DUT_CMD then cmd_read_ble_mac E s
         else if c = TOOL_READ_FW_VER_CMD then cmd_read_fw_ver E s
         else if c = TOOL_READ_DEVICE_CONFIG then cmd_read_device_config E data s
         else s)"

text \<open>The writes requested by the commands, after the switch.\<close>

definition flush_writes :: "env \<Rightarrow> 'a uart_sys_scheme \<Rightarrow> 'a uart_sys_scheme" where
  "flush_writes E s =
     (let s1 = (if bool_ProductionDataWrite (ua s)
            then snd (write_nvs_data E PRODUCTION_DATA_KEY (prod_bytes (prod s))
                   (s\<lparr>ua := (ua s)\<lparr>bool_ProductionDataWrite := False\<rparr>\<rparr>)) else s);
          s2 = (if bool_ConfigDataWrite (ua s1)
            then snd (write_nvs_data E CONFIG_DATA_KEY (conf_bytes (conf s1))
                   (s1\<lparr>ua := (ua s1)\<lparr>bool_ConfigDataWrite := False\<rparr>\<rparr>)) else s1)
      in if bool_DynamicDataWrite (ua s2)
         then snd (write_nvs_data E DYNAMIC_DATA_KEY (dyn_bytes (dyn s2))
                (s2\<lparr>ua := (ua s2)\<lparr>bool_DynamicDataWrite := False\<rparr>\<rparr>)) else s2)"

definition ProcessProductionMsg :: "env \<Rightarrow> bytes \<Rightarrow> nat \<Rightarrow> 'a uart_sys_scheme \<Rightarrow> 'a uart_sys_scheme" where
  "ProcessProductionMsg E data len s =
     (if len < 2 then s
      else
        let s1 = (if FindChecksum data (len - 1) = data ! (len - 1)
              then dispatch E data (invoke (K (Work_reschedule W_uart_lifetime 120000)) s)
              else s)
        in if halted s1 \<noteq> None then s1 else flush_writes E s1)"

definition deferred_msg_processing_handler :: "env \<Rightarrow> bytes \<Rightarrow> 'a uart_sys_scheme \<Rightarrow> 'a uart_sys_scheme" where
  "deferred_msg_processing_handler E stack s =
     (let s1 = lock M_uart_pm s;
          process_len = deferred_rx_work_len (ua s1);
          process_buf = put_at 0 (take process_len (deferred_rx_work_buf (ua s1))) stack;
          s2 = (if 0 < process_len then s1\<lparr>ua := (ua s1)\<lparr>deferred_rx_work_len := 0\<rparr>\<rparr> else s1);
          s3 = unlock M_uart_pm s2
      in if 0 < process_len then ProcessProductionMsg E process_buf process_len s3 else s3)"

section \<open>Frames\<close>

text \<open>A frame of the protocol: its length byte counts the bytes before the checksum, and all bytes sum to 0.\<close>

definition frame_ok :: "bytes \<Rightarrow> bool" where
  "frame_ok f \<longleftrightarrow> f \<noteq> [] \<and> length f = unat (hd f) + 1 \<and> sum_list f = 0"

lemma take_bit_8_32_add: "take_bit 8 (take_bit 32 a + take_bit 32 b) = take_bit 8 (a + b :: int)"
  using take_bit_add [of 8 "take_bit 32 a" "take_bit 32 b"] take_bit_add [of 8 a b] by simp

lemma ucast_add_8: "ucast (a + b :: u32) = (ucast a + ucast b :: u8)"
  by transfer (simp add: take_bit_8_32_add)

lemma ucast_uminus_8: "ucast (- a :: u32) = (- ucast a :: u8)"
  using ucast_add_8 [of "- a" a] by (simp add: eq_neg_iff_add_eq_0)

lemma ucast_and_255: "ucast (w AND 0xFF :: u32) = (ucast w :: u8)"
  unfolding mask_eq_exp_minus_1 [of 8, where 'a = u32, simplified, symmetric]
  by (auto intro!: bit_word_eqI simp: bit_simps)

lemma ucast_ucast_8: "ucast (ucast b :: u32) = (b :: u8)"
  by (auto intro!: bit_word_eqI simp: bit_simps)

lemma foldl_sum_ucast:
  "ucast (foldl (\<lambda>t b. t + ucast b) (t :: u32) xs) = (ucast t + sum_list xs :: u8)"
  by (induction xs arbitrary: t) (simp_all add: ucast_add_8 ucast_ucast_8 add.assoc)

lemma FindChecksum_eq: "FindChecksum msg n = - sum_list (take n msg)"
  by (simp add: FindChecksum_def Let_def ucast_and_255 foldl_sum_ucast ucast_uminus_8 flip: minus_eq_not_plus_1)

lemma checksum_valid_iff:
  "0 < n \<Longrightarrow> n \<le> length msg \<Longrightarrow> FindChecksum msg (n - 1) = msg ! (n - 1) \<longleftrightarrow> sum_list (take n msg) = 0"
  by (cases n) (auto simp: FindChecksum_eq take_Suc_conv_app_nth eq_neg_iff_add_eq_0 neg_eq_iff_add_eq_0)

section \<open>Invariant\<close>

lemma ua_invoke [simp]: "ua (invoke e s) = ua s"
  by (simp add: invoke_def)

lemma ua_lock [simp]: "ua (lock m s) = ua s" "ua (unlock m s) = ua s"
  by (simp_all add: lock_def unlock_def)

lemma ua_set_data [simp]:
  "ua (set_ProductionData p s) = ua s" "ua (set_ConfigData c s) = ua s" "ua (set_DynamicData d s) = ua s"
  by (simp_all add: set_ProductionData_def set_ConfigData_def set_DynamicData_def)

fun tx_frame_ok :: "ev \<Rightarrow> bool" where
  "tx_frame_ok (DEV (Uart_tx f)) = frame_ok f"
| "tx_frame_ok _ = True"

lemma tx_frame_ok_other [simp]: "tx_frame_ok (K k)" "tx_frame_ok (BT c)"
  by simp_all

text \<open>Sizes of the buffers and of the data, no mutex held, no write pending, and only frames sent.\<close>

definition uart_core :: "'a uart_sys_scheme \<Rightarrow> bool" where
  "uart_core s \<longleftrightarrow> wf_data s \<and> length (tx_buf (ua s)) = UART_TX_BUF_SIZE
     \<and> length (deferred_rx_work_buf (ua s)) = UART_RX_BUF_SIZE \<and> deferred_rx_work_len (ua s) \<le> UART_RX_BUF_SIZE
     \<and> locks (trace s) = Free \<and> list_all tx_frame_ok (trace s)"

definition no_pending :: "'a uart_sys_scheme \<Rightarrow> bool" where
  "no_pending s \<longleftrightarrow> \<not> bool_ProductionDataWrite (ua s) \<and> \<not> bool_ConfigDataWrite (ua s) \<and> \<not> bool_DynamicDataWrite (ua s)"

definition uart_inv :: "'a uart_sys_scheme \<Rightarrow> bool" where
  "uart_inv s \<longleftrightarrow> uart_core s \<and> (halted s = None \<longrightarrow> no_pending s)"

lemmas uart_core_unfold = uart_core_def wf_data_def wf_prod_def wf_conf_def

lemma uart_core_power:
  "uart_core s \<Longrightarrow> uart_core (snd (app_uart_enable E s))"
  "uart_core s \<Longrightarrow> uart_core (snd (app_uart_disable E s))"
  by (auto simp: app_uart_enable_def app_uart_disable_def uart_core_unfold Let_def)

lemma uart_core_transmit: "uart_core s \<Longrightarrow> frame_ok f \<Longrightarrow> uart_core (snd (app_uart_transmit E f s))"
  by (auto simp: app_uart_transmit_def uart_core_unfold Let_def)

lemma frame_of_front:
  assumes "length buf = UART_TX_BUF_SIZE" "front \<noteq> []" "length front < UART_TX_BUF_SIZE" "unat (hd front) = length front"
  shows "frame_ok (take (length front + 1) ((put_at 0 front buf)[length front := FindChecksum (put_at 0 front buf) (length front)]))"
proof -
  let ?b = "put_at 0 front buf" and ?n = "length front"
  have "length ?b = UART_TX_BUF_SIZE" using assms by (simp add: length_put_at)
  moreover have "take ?n ?b = front" by (simp add: put_at_def)
  ultimately have "take (?n + 1) (?b[?n := FindChecksum ?b ?n]) = front @ [- sum_list front]"
    using assms by (simp add: take_Suc_conv_app_nth FindChecksum_eq)
  then show ?thesis using assms by (simp add: frame_ok_def)
qed

lemma uart_core_send:
  assumes "uart_core s" "front \<noteq> []" "length front < UART_TX_BUF_SIZE" "unat (hd front) = length front"
  shows "uart_core (send_frame E front s)"
proof -
  have len: "length (tx_buf (ua s)) = UART_TX_BUF_SIZE" using assms(1) by (simp add: uart_core_def)
  show ?thesis
    unfolding send_frame_def Let_def
    using assms(1) len frame_of_front [OF len assms(2-4)] assms(3)
    by (intro uart_core_transmit) (simp_all add: uart_core_unfold length_put_at)
qed

lemma length_fold_update: "length (fold (\<lambda>i m. m[f i := g i]) xs m) = length m"
  by (induction xs arbitrary: m) simp_all

lemma upt_6: "[0..<6] = [0, 1, 2, 3, 4, 5 :: nat]"
  by (simp add: upt_rec)

lemma uart_core_upd:
  "uart_core s \<Longrightarrow> wf_prod p \<Longrightarrow> uart_core (set_ProductionData p s)"
  "uart_core s \<Longrightarrow> wf_conf c \<Longrightarrow> uart_core (set_ConfigData c s)"
  "uart_core s \<Longrightarrow> uart_core (set_DynamicData d s)"
  by (simp_all add: uart_core_def wf_data_def)

lemma uart_core_flags [simp]:
  "uart_core (s\<lparr>ua := (ua s)\<lparr>bool_ProductionDataWrite := b\<rparr>\<rparr>) = uart_core s"
  "uart_core (s\<lparr>ua := (ua s)\<lparr>bool_ConfigDataWrite := b\<rparr>\<rparr>) = uart_core s"
  "uart_core (s\<lparr>ua := (ua s)\<lparr>bool_DynamicDataWrite := b\<rparr>\<rparr>) = uart_core s"
  "uart_core (s\<lparr>ua := (ua s)\<lparr>bool_ConfigDataWrite := b, bool_DynamicDataWrite := c\<rparr>\<rparr>) = uart_core s"
  "uart_core (mark_production s) = uart_core s"
  by (simp_all add: uart_core_unfold mark_production_def)

lemma uart_core_ua:
  "uart_core s \<Longrightarrow> tx_buf u = tx_buf (ua s) \<Longrightarrow> deferred_rx_work_buf u = deferred_rx_work_buf (ua s) \<Longrightarrow>
   deferred_rx_work_len u = deferred_rx_work_len (ua s) \<Longrightarrow> uart_core (s\<lparr>ua := u\<rparr>)"
  by (simp add: uart_core_unfold)

lemma uart_core_halted [simp]: "uart_core (s\<lparr>halted := h\<rparr>) = uart_core s"
  by (simp add: uart_core_unfold)

lemma uart_core_invoke:
  "uart_core s \<Longrightarrow> tx_frame_ok e \<Longrightarrow> lock_step Free e = Free \<Longrightarrow> uart_core (invoke e s)"
  by (simp add: uart_core_unfold)

lemma uart_core_sync: "uart_core s \<Longrightarrow> uart_core (app_time_sync_set_utc E t s)"
  by (simp add: app_time_sync_set_utc_def Let_def uart_core_unfold)

lemma wf_get_at:
  "length data = UART_RX_BUF_SIZE \<Longrightarrow> length (get_at 2 MAX_PASSWORD_SIZE data) = MAX_PASSWORD_SIZE"
  "length data = UART_RX_BUF_SIZE \<Longrightarrow> length (get_at 2 SR_NUM_SIZE data) = SR_NUM_SIZE"
  "length data = UART_RX_BUF_SIZE \<Longrightarrow> length (get_at 3 MODEL_NUMBER_LEN data) = MODEL_NUMBER_LEN"
  by (simp_all add: length_get_at UART_RX_BUF_SIZE_def len_defs)

lemma uart_core_wf:
  assumes "uart_core s"
  shows "wf_prod (prod s)" "wf_conf (conf s)" "length (factory_mac (gd s)) = BLE_GAP_ADDR_LEN"
  using assms by (simp_all add: uart_core_def wf_data_def)

lemma uart_core_cmds:
  assumes "uart_core s" "length data = UART_RX_BUF_SIZE"
  shows "uart_core (cmd_set_password E data s)" "uart_core (cmd_set_serial E data s)"
    and "uart_core (cmd_set_mac E data s)" "uart_core (cmd_set_clock E data s)"
    and "uart_core (cmd_set_device_config E data s)" "uart_core (cmd_reset E s)"
  using assms uart_core_wf [OF assms(1)] wf_get_at [OF assms(2)]
  by (auto simp: cmd_set_password_def cmd_set_serial_def cmd_set_mac_def cmd_set_clock_def
      cmd_set_device_config_def cmd_reset_def app_self_restart_def sys_reboot_def Let_def
      UART_TX_BUF_SIZE_def wf_prod_def wf_conf_def length_fold_update case_prod_unfold
      intro!: uart_core_send uart_core_upd uart_core_sync uart_core_invoke uart_core_power uart_core_ua)

lemma uart_core_reads:
  assumes "uart_core s"
  shows "uart_core (cmd_read_serial E s)" "uart_core (cmd_read_mac E s)" "uart_core (cmd_read_ble_mac E s)"
    and "uart_core (cmd_read_fw_ver E s)" "uart_core (cmd_read_device_config E data s)"
  using assms uart_core_wf [OF assms(1)]
  by (auto simp: cmd_read_serial_def cmd_read_mac_def cmd_read_ble_mac_def cmd_read_fw_ver_def
      cmd_read_device_config_def get_factory_mac_copy_def UART_TX_BUF_SIZE_def wf_prod_def len_defs
      intro!: uart_core_send)

lemma uart_core_dispatch:
  "uart_core s \<Longrightarrow> length data = UART_RX_BUF_SIZE \<Longrightarrow> uart_core (dispatch E data s)"
  by (simp add: dispatch_def Let_def uart_core_cmds uart_core_reads)

lemma uart_core_flush:
  assumes "uart_core s"
  shows "uart_core (flush_writes E s)" "no_pending (flush_writes E s)"
  using assms
  by (simp_all add: flush_writes_def write_nvs_data_def Let_def no_pending_def uart_core_invoke)

lemma uart_inv_process:
  assumes "uart_inv s" "halted s = None" "length data = UART_RX_BUF_SIZE"
  shows "uart_inv (ProcessProductionMsg E data len s)"
  using assms
  by (auto simp: ProcessProductionMsg_def Let_def uart_inv_def
      intro!: uart_core_flush uart_core_dispatch uart_core_invoke)

lemma uart_inv_frame:
  "uart_core t \<Longrightarrow> bool_ProductionDataWrite (ua t) = bool_ProductionDataWrite (ua s) \<Longrightarrow>
   bool_ConfigDataWrite (ua t) = bool_ConfigDataWrite (ua s) \<Longrightarrow>
   bool_DynamicDataWrite (ua t) = bool_DynamicDataWrite (ua s) \<Longrightarrow> halted t = halted s \<Longrightarrow>
   uart_inv s \<Longrightarrow> uart_inv t"
  by (simp add: uart_inv_def no_pending_def)

datatype uart_ev = UE_boot | UE_enable | UE_timeout | UE_driver uart_event | UE_work bytes

fun uart_do :: "env \<Rightarrow> uart_ev \<Rightarrow> 'a uart_sys_scheme \<Rightarrow> 'a uart_sys_scheme" where
  "uart_do E UE_boot s = app_uart_boot_sequence_start E s"
| "uart_do E UE_enable s = snd (app_uart_enable E s)"
| "uart_do E UE_timeout s = uart_lifetime_timeout_handler E s"
| "uart_do E (UE_driver e) s = uart_async_callback e s"
| "uart_do E (UE_work stack) s = deferred_msg_processing_handler E stack s"

text \<open>The processor is running, and the stack buffer has its size.\<close>

fun uart_ok :: "uart_ev \<Rightarrow> 'a uart_sys_scheme \<Rightarrow> bool" where
  "uart_ok (UE_work stack) s = (halted s = None \<and> length stack = UART_RX_BUF_SIZE)"
| "uart_ok _ s = (halted s = None)"

lemma uart_inv_enable: "uart_inv s \<Longrightarrow> uart_inv (snd (app_uart_enable E s))"
  by (rule uart_inv_frame [of _ s], simp_all add: uart_inv_def uart_core_power)
    (simp_all add: app_uart_enable_def Let_def)

lemma uart_inv_disable: "uart_inv s \<Longrightarrow> uart_inv (snd (app_uart_disable E s))"
  by (rule uart_inv_frame [of _ s], simp_all add: uart_inv_def uart_core_power)
    (simp_all add: app_uart_disable_def Let_def)

lemma uart_inv_invoke:
  "uart_inv s \<Longrightarrow> tx_frame_ok e \<Longrightarrow> lock_step Free e = Free \<Longrightarrow> uart_inv (invoke e s)"
  by (simp add: uart_inv_def no_pending_def uart_core_invoke)

lemma uart_inv_boot: "uart_inv s \<Longrightarrow> uart_inv (app_uart_boot_sequence_start E s)"
  by (auto simp: app_uart_boot_sequence_start_def app_uart_init_def Let_def case_prod_unfold
      intro!: uart_inv_invoke uart_inv_enable)

lemma uart_inv_driver: "uart_inv s \<Longrightarrow> uart_inv (uart_async_callback e s)"
  by (cases e) (auto simp: Let_def uart_inv_def uart_core_unfold no_pending_def length_put_at)

lemma uart_inv_work:
  assumes "uart_inv s" "halted s = None" "length stack = UART_RX_BUF_SIZE"
  shows "uart_inv (deferred_msg_processing_handler E stack s)"
proof -
  have n: "deferred_rx_work_len (ua s) \<le> UART_RX_BUF_SIZE" "length (deferred_rx_work_buf (ua s)) = UART_RX_BUF_SIZE"
    using assms(1) by (simp_all add: uart_inv_def uart_core_def)
  have "uart_inv (unlock M_uart_pm ((lock M_uart_pm s)\<lparr>ua := (ua s)\<lparr>deferred_rx_work_len := 0\<rparr>\<rparr>))"
    "uart_inv (unlock M_uart_pm (lock M_uart_pm s))"
    using assms(1) by (simp_all add: uart_inv_def uart_core_unfold no_pending_def)
  then show ?thesis
    using n assms(2,3)
    by (auto simp: deferred_msg_processing_handler_def Let_def length_put_at intro!: uart_inv_process)
qed

interpretation uartm: invariant_machine "uart_do E" uart_ok uart_inv for E
proof
  fix s :: "'a uart_sys_scheme" and e
  assume "uart_inv s" "uart_ok e s"
  then show "uart_inv (uart_do E e s)"
    by (cases e) (simp_all add: uart_inv_enable uart_inv_disable uart_inv_boot uart_inv_driver uart_inv_work
        uart_lifetime_timeout_handler_def)
qed

section \<open>Double buffering\<close>

text \<open>
  The receive buffers handed to the driver along a trace: the last one, and whether the
  driver was ever given the buffer it was already filling.
\<close>

fun buf_step :: "nat option \<times> bool \<Rightarrow> ev \<Rightarrow> nat option \<times> bool" where
  "buf_step (l, okay) (DEV (Uart_rx_enable n)) = (Some n, okay)"
| "buf_step (l, okay) (DEV (Uart_rx_buf_rsp n)) = (Some n, okay \<and> l \<noteq> Some n)"
| "buf_step (l, okay) e = (l, okay)"

definition bufs :: "ev list \<Rightarrow> nat option \<times> bool" where
  "bufs = foldl buf_step (None, True)"

lemma bufs_append [simp]: "bufs (es @ fs) = foldl buf_step (bufs es) fs"
  by (simp add: bufs_def)

fun rx_event :: "ev \<Rightarrow> bool" where
  "rx_event (DEV (Uart_rx_enable n)) = True"
| "rx_event (DEV (Uart_rx_buf_rsp n)) = True"
| "rx_event _ = False"

lemma buf_step_other [simp]: "\<not> rx_event e \<Longrightarrow> buf_step b e = b"
  by (cases "(b, e)" rule: buf_step.cases) simp_all

lemma buf_step_rx [simp]:
  "buf_step b (DEV (Uart_rx_enable n)) = (Some n, snd b)"
  "buf_step b (DEV (Uart_rx_buf_rsp n)) = (Some n, snd b \<and> fst b \<noteq> Some n)"
  by (cases b; simp)+

lemma rx_event_K [simp]: "\<not> rx_event (K k)"
  by simp

definition buf_inv :: "'a uart_sys_scheme \<Rightarrow> bool" where
  "buf_inv s \<longleftrightarrow> snd (bufs (trace s))
     \<and> fst (bufs (trace s)) \<in> {None, Some (if rx_swap_toggle (ua s) then 2 else 1)}"

lemma buf_inv_invoke: "buf_inv s \<Longrightarrow> \<not> rx_event e \<Longrightarrow> buf_inv (invoke e s)"
  by (simp add: buf_inv_def)

lemma buf_inv_set [simp]:
  "buf_inv (set_ProductionData p s) = buf_inv s" "buf_inv (set_ConfigData c s) = buf_inv s"
  "buf_inv (set_DynamicData d s) = buf_inv s" "buf_inv (s\<lparr>halted := h\<rparr>) = buf_inv s"
  "buf_inv (s\<lparr>tm := t\<rparr>) = buf_inv s"
  by (simp_all add: buf_inv_def)

lemma buf_inv_ua: "buf_inv s \<Longrightarrow> rx_swap_toggle u = rx_swap_toggle (ua s) \<Longrightarrow> buf_inv (s\<lparr>ua := u\<rparr>)"
  by (simp add: buf_inv_def)

lemma buf_inv_lock [intro]: "buf_inv s \<Longrightarrow> buf_inv (lock m s)" "buf_inv s \<Longrightarrow> buf_inv (unlock m s)"
  by (simp_all add: buf_inv_def)

lemma buf_inv_enable: "buf_inv s \<Longrightarrow> buf_inv (snd (app_uart_enable E s))"
  by (auto simp: app_uart_enable_def Let_def buf_inv_def)

lemma buf_inv_disable: "buf_inv s \<Longrightarrow> buf_inv (snd (app_uart_disable E s))"
  by (auto simp: app_uart_disable_def Let_def buf_inv_def)

lemma buf_inv_send: "buf_inv s \<Longrightarrow> buf_inv (send_frame E front s)"
  by (auto simp: send_frame_def app_uart_transmit_def Let_def buf_inv_def)

lemma buf_inv_sync: "buf_inv s \<Longrightarrow> buf_inv (app_time_sync_set_utc E t s)"
  by (auto simp: app_time_sync_set_utc_def Let_def buf_inv_def)

lemma buf_inv_flags [simp]:
  "buf_inv (s\<lparr>ua := (ua s)\<lparr>bool_ConfigDataWrite := b, bool_DynamicDataWrite := c\<rparr>\<rparr>) = buf_inv s"
  "buf_inv (mark_production s) = buf_inv s"
  by (simp_all add: buf_inv_def mark_production_def)

lemma buf_inv_cmds:
  assumes "buf_inv s"
  shows "buf_inv (cmd_set_password E data s)" "buf_inv (cmd_set_serial E data s)"
    "buf_inv (cmd_set_mac E data s)" "buf_inv (cmd_set_device_config E data s)" "buf_inv (cmd_reset E s)"
    "buf_inv (cmd_read_serial E s)" "buf_inv (cmd_read_mac E s)" "buf_inv (cmd_read_ble_mac E s)"
    "buf_inv (cmd_read_fw_ver E s)" "buf_inv (cmd_read_device_config E data s)"
  using assms
  by (simp_all add: cmd_set_password_def cmd_set_serial_def cmd_set_mac_def cmd_set_device_config_def
      cmd_reset_def cmd_read_serial_def cmd_read_mac_def cmd_read_ble_mac_def cmd_read_fw_ver_def
      cmd_read_device_config_def app_self_restart_def sys_reboot_def Let_def case_prod_unfold
      buf_inv_send buf_inv_invoke buf_inv_disable)

lemma buf_inv_set_clock: "buf_inv s \<Longrightarrow> buf_inv (cmd_set_clock E data s)"
  unfolding cmd_set_clock_def Let_def by (intro buf_inv_send buf_inv_sync buf_inv_ua) simp_all

lemma buf_inv_dispatch: "buf_inv s \<Longrightarrow> buf_inv (dispatch E data s)"
  by (simp add: dispatch_def Let_def buf_inv_cmds buf_inv_set_clock)

lemma buf_inv_flush: "buf_inv s \<Longrightarrow> buf_inv (flush_writes E s)"
  by (simp add: flush_writes_def write_nvs_data_def Let_def buf_inv_invoke buf_inv_ua)

lemma buf_inv_process: "buf_inv s \<Longrightarrow> buf_inv (ProcessProductionMsg E data len s)"
  by (auto simp: ProcessProductionMsg_def Let_def intro!: buf_inv_flush buf_inv_dispatch buf_inv_invoke)

lemma buf_inv_driver: "buf_inv s \<Longrightarrow> buf_inv (uart_async_callback e s)"
  by (cases e) (auto simp: Let_def buf_inv_def)

interpretation uartb: invariant_machine "uart_do E" "\<lambda>_ _. True" buf_inv for E
proof
  fix s :: "'a uart_sys_scheme" and e
  assume "buf_inv s"
  then show "buf_inv (uart_do E e s)"
    by (cases e) (auto simp: buf_inv_enable buf_inv_disable buf_inv_driver uart_lifetime_timeout_handler_def
        app_uart_boot_sequence_start_def app_uart_init_def deferred_msg_processing_handler_def
        Let_def case_prod_unfold intro!: buf_inv_process buf_inv_invoke buf_inv_enable buf_inv_ua buf_inv_lock)
qed

section \<open>What a request does when the UART is powered\<close>

definition tx_events :: "bytes \<Rightarrow> ev list" where
  "tx_events front = [K (Mutex_lock M_uart_pm), DEV (Uart_tx (front @ [- sum_list front])), K (Mutex_unlock M_uart_pm)]"

lemma send_frame_powered:
  assumes "uart_is_powered (ua s)" "length front < length (tx_buf (ua s))"
  shows "\<exists>b. send_frame E front s = s\<lparr>trace := trace s @ tx_events front, ua := (ua s)\<lparr>tx_buf := b\<rparr>\<rparr>
    \<and> length b = length (tx_buf (ua s))"
proof -
  let ?b = "put_at 0 front (tx_buf (ua s))" and ?n = "length front"
  have "length ?b = length (tx_buf (ua s))" using assms by (simp add: length_put_at)
  moreover have "take ?n ?b = front" by (simp add: put_at_def)
  ultimately have "take (?n + 1) (?b[?n := FindChecksum ?b ?n]) = front @ [- sum_list front]"
    using assms by (simp add: take_Suc_conv_app_nth FindChecksum_eq)
  then show ?thesis
    using assms \<open>length ?b = length (tx_buf (ua s))\<close>
    by (intro exI [of _ "?b[?n := FindChecksum ?b ?n]"])
      (simp add: send_frame_def app_uart_transmit_def Let_def tx_events_def io_defs)
qed

lemma halted_send_frame [simp]: "halted (send_frame E front s) = halted s"
  by (simp add: send_frame_def app_uart_transmit_def Let_def)

lemma halted_mark [simp]: "halted (mark_production s) = halted s"
  by (simp add: mark_production_def)

text \<open>The bytes of a request: valid length and checksum, and its command.\<close>

definition is_request :: "u8 \<Rightarrow> bytes \<Rightarrow> nat \<Rightarrow> bool" where
  "is_request cmd data len \<longleftrightarrow> length data = UART_RX_BUF_SIZE \<and> 2 \<le> len \<and> len \<le> UART_RX_BUF_SIZE
     \<and> sum_list (take len data) = 0 \<and> data ! 1 = cmd"

lemma process_request:
  assumes "is_request cmd data len"
  shows "ProcessProductionMsg E data len s =
    (let s1 = dispatch E data (invoke (K (Work_reschedule W_uart_lifetime 120000)) s)
     in if halted s1 \<noteq> None then s1 else flush_writes E s1)"
  using assms checksum_valid_iff [of len data]
  by (simp add: ProcessProductionMsg_def is_request_def)

lemma mac_reversed:
  assumes "length m = 6" "length data = UART_RX_BUF_SIZE"
  shows "fold (\<lambda>i m. m[5 - i := data ! (i + 2)]) [0..<6] m = rev (get_at 2 6 data)"
proof -
  have "get_at 2 6 data = map (\<lambda>i. data ! (i + 2)) [0..<6]"
    using assms(2) by (intro nth_equalityI) (simp_all add: get_at_def UART_RX_BUF_SIZE_def add.commute)
  moreover obtain a b c d e f where "m = [a, b, c, d, e, f]"
    using assms(1) by (auto simp: numeral_eq_Suc length_Suc_conv)
  ultimately show ?thesis by (simp add: upt_6)
qed

lemma mac_on_the_wire: "length w = 6 \<Longrightarrow> map (\<lambda>i. rev w ! (5 - i)) [0..<6] = w"
  by (auto simp: numeral_eq_Suc length_Suc_conv upt_rec)

lemma flush_production:
  assumes "bool_ProductionDataWrite (ua s)" "\<not> bool_ConfigDataWrite (ua s)" "\<not> bool_DynamicDataWrite (ua s)"
  shows "flush_writes E s = invoke (DEV (Nvs_write PRODUCTION_DATA_KEY (prod_bytes (prod s))))
    (s\<lparr>ua := (ua s)\<lparr>bool_ProductionDataWrite := False\<rparr>\<rparr>)"
  using assms by (simp add: flush_writes_def write_nvs_data_def Let_def)

text \<open>A request that changes the production data: the change, its answer, and its write to flash.\<close>

lemma production_effect:
  assumes "uart_inv s" "halted s = None" "uart_is_powered (ua s)" "is_request cmd data len"
    and "length front < UART_TX_BUF_SIZE"
    and d: "dispatch E data (invoke (K (Work_reschedule W_uart_lifetime 120000)) s) =
      send_frame E front (mark_production (set_ProductionData p (invoke (K (Work_reschedule W_uart_lifetime 120000)) s)))"
  shows "prod (ProcessProductionMsg E data len s) = p"
    "uart_is_powered (ua (ProcessProductionMsg E data len s))"
    "halted (ProcessProductionMsg E data len s) = None"
    "trace (ProcessProductionMsg E data len s) = trace s @ K (Work_reschedule W_uart_lifetime 120000)
       # tx_events front @ [DEV (Nvs_write PRODUCTION_DATA_KEY (prod_bytes p))]"
proof -
  let ?s1 = "mark_production (set_ProductionData p (invoke (K (Work_reschedule W_uart_lifetime 120000)) s))"
  have np: "no_pending s" and buf: "length (tx_buf (ua s)) = UART_TX_BUF_SIZE"
    using assms(1,2) by (simp_all add: uart_inv_def uart_core_def)
  obtain b where b: "send_frame E front ?s1 = ?s1\<lparr>trace := trace ?s1 @ tx_events front, ua := (ua ?s1)\<lparr>tx_buf := b\<rparr>\<rparr>"
    using send_frame_powered [of ?s1 front E] assms(3,5) buf by (auto simp: mark_production_def)
  define t where "t = send_frame E front ?s1"
  have t: "bool_ProductionDataWrite (ua t)" "\<not> bool_ConfigDataWrite (ua t)" "\<not> bool_DynamicDataWrite (ua t)"
    "prod t = p" "uart_is_powered (ua t)"
    "trace t = trace s @ K (Work_reschedule W_uart_lifetime 120000) # tx_events front"
    using np assms(3) by (simp_all add: t_def b) (simp_all add: mark_production_def no_pending_def set_ProductionData_def)
  have "ProcessProductionMsg E data len s = flush_writes E t"
    using assms(2) by (simp add: process_request [OF assms(4)] d Let_def t_def)
  then have "ProcessProductionMsg E data len s =
      invoke (DEV (Nvs_write PRODUCTION_DATA_KEY (prod_bytes p))) (t\<lparr>ua := (ua t)\<lparr>bool_ProductionDataWrite := False\<rparr>\<rparr>)"
    by (simp only: flush_production [OF t(1-3)] t(4))
  then show "prod (ProcessProductionMsg E data len s) = p"
    "uart_is_powered (ua (ProcessProductionMsg E data len s))"
    "halted (ProcessProductionMsg E data len s) = None"
    "trace (ProcessProductionMsg E data len s) = trace s @ K (Work_reschedule W_uart_lifetime 120000)
       # tx_events front @ [DEV (Nvs_write PRODUCTION_DATA_KEY (prod_bytes p))]"
    using t(4-6) assms(2) by (simp_all add: t_def)
qed

text \<open>A request that only reads: its answer.\<close>

lemma read_effect:
  assumes "uart_inv s" "halted s = None" "uart_is_powered (ua s)" "is_request cmd data len"
    and "length front < UART_TX_BUF_SIZE"
    and d: "dispatch E data (invoke (K (Work_reschedule W_uart_lifetime 120000)) s) =
      send_frame E front (invoke (K (Work_reschedule W_uart_lifetime 120000)) s)"
  shows "trace (ProcessProductionMsg E data len s) = trace s @ K (Work_reschedule W_uart_lifetime 120000) # tx_events front"
proof -
  let ?s1 = "invoke (K (Work_reschedule W_uart_lifetime 120000)) s"
  have np: "no_pending s" and buf: "length (tx_buf (ua s)) = UART_TX_BUF_SIZE"
    using assms(1,2) by (simp_all add: uart_inv_def uart_core_def)
  obtain b where b: "send_frame E front ?s1 = ?s1\<lparr>trace := trace ?s1 @ tx_events front, ua := (ua ?s1)\<lparr>tx_buf := b\<rparr>\<rparr>"
    using send_frame_powered [of ?s1 front E] assms(3,5) buf by auto
  have "ProcessProductionMsg E data len s = flush_writes E (send_frame E front ?s1)"
    using assms(2) by (simp only: process_request [OF assms(4)] d Let_def) simp
  then show ?thesis
    using np by (simp add: b flush_writes_def no_pending_def)
qed

lemma set_mac_effect:
  assumes "uart_inv s" "halted s = None" "uart_is_powered (ua s)"
    and "is_request TOOL_SET_MAC_OF_DUT_CMD data len"
  shows "dispatch E data (invoke e s) = send_frame E [3, 0x8C, 1]
    (mark_production (set_ProductionData ((prod s)\<lparr>pd_MACAddr := rev (get_at 2 6 data)\<rparr>) (invoke e s)))"
proof -
  have "length (pd_MACAddr (prod s)) = 6" "length data = UART_RX_BUF_SIZE"
    using assms(1,4) by (simp_all add: uart_inv_def uart_core_unfold len_defs is_request_def)
  then show ?thesis
    using assms(4) by (simp add: dispatch_def is_request_def tool_defs cmd_set_mac_def mac_reversed [simplified] SUCCESS_def)
qed

lemma set_serial_effect:
  assumes "is_request TOOL_SET_SERIAL_OF_DUT_CMD data len"
  shows "dispatch E data (invoke e s) = send_frame E [3, 0x8A, 1]
    (mark_production (set_ProductionData ((prod s)\<lparr>pd_SerialNumber := get_at 2 SR_NUM_SIZE data\<rparr>) (invoke e s)))"
  using assms by (simp add: dispatch_def is_request_def tool_defs cmd_set_serial_def SUCCESS_def)

lemma read_mac_effect:
  assumes "is_request TOOL_READ_MAC_OF_DUT_CMD data len" "pd_MACAddr (prod s) = rev w" "length w = 6"
  shows "dispatch E data (invoke e s) = send_frame E ([8, 0x8D] @ w) (invoke e s)"
  using assms mac_on_the_wire [OF assms(3)] by (simp add: dispatch_def is_request_def tool_defs cmd_read_mac_def)

lemma read_serial_effect:
  assumes "is_request TOOL_READ_SERIAL_OF_DUT_CMD data len"
  shows "dispatch E data (invoke e s) = send_frame E ([20, 0x8B] @ pd_SerialNumber (prod s)) (invoke e s)"
  using assms by (simp add: dispatch_def is_request_def tool_defs cmd_read_serial_def)

text \<open>The request frame for a command with its payload.\<close>

definition request_frame :: "u8 \<Rightarrow> bytes \<Rightarrow> bytes" where
  "request_frame cmd payload =
     (let f = of_nat (length payload + 2) # cmd # payload in f @ [- sum_list f])"

text \<open>A chunk on its way from the driver to the interpreter.\<close>

definition receive :: "env \<Rightarrow> bytes \<Rightarrow> bytes \<Rightarrow> 'a uart_sys_scheme \<Rightarrow> 'a uart_sys_scheme" where
  "receive E chunk stack s = deferred_msg_processing_handler E stack (uart_async_callback (UART_RX_RDY chunk) s)"

lemma receive_effect:
  assumes "uart_inv s" "halted s = None" "uart_is_powered (ua s)" "chunk \<noteq> []" "length chunk \<le> UART_RX_BUF_SIZE"
    and "length stack = UART_RX_BUF_SIZE"
    and "n = length chunk"
  shows "\<exists>s1. receive E chunk stack s = ProcessProductionMsg E (put_at 0 chunk stack) n s1
    \<and> uart_inv s1 \<and> halted s1 = None \<and> uart_is_powered (ua s1) \<and> prod s1 = prod s"
proof -
  let ?r = "uart_async_callback (UART_RX_RDY chunk) s"
  let ?l = "lock M_uart_pm ?r"
  let ?s1 = "unlock M_uart_pm (?l\<lparr>ua := (ua ?l)\<lparr>deferred_rx_work_len := 0\<rparr>\<rparr>)"
  have len: "length (deferred_rx_work_buf (ua s)) = UART_RX_BUF_SIZE"
    using assms(1) by (simp add: uart_inv_def uart_core_def)
  have "uart_inv ?r" using assms(1) by (rule uart_inv_driver)
  then have inv: "uart_inv ?s1" by (auto simp: uart_inv_def uart_core_unfold no_pending_def)
  have "take (length chunk) (put_at 0 chunk (deferred_rx_work_buf (ua s))) = chunk" by (simp add: put_at_def)
  then have "receive E chunk stack s = ProcessProductionMsg E (put_at 0 chunk stack) (length chunk) ?s1"
    using assms(3-5) by (simp add: receive_def deferred_msg_processing_handler_def Let_def)
  then show ?thesis
    using inv assms(2-5,7) by (intro exI [of _ ?s1]) (simp add: Let_def)
qed

section \<open>Properties\<close>

definition uart_init_state :: uart_sys where
  "uart_init_state = \<lparr>trace = [], halted = None, gd = blank_gst, adv = adv_st_init,
     tm = time_st_reset no_block, ua = uart_st_init\<rparr>"

lemma uart_init_inv [simp]: "uart_inv uart_init_state"
proof -
  have "wf_data uart_init_state"
    using wf_data_init by (simp add: wf_data_def uart_init_state_def data_init_def)
  then show ?thesis
    by (simp add: uart_inv_def uart_core_def no_pending_def uart_init_state_def uart_st_init_def)
qed

lemma uart_buffers_alternate: "snd (bufs (trace (run (uart_do E) es uart_init_state)))"
proof -
  have "buf_inv uart_init_state" by (simp add: buf_inv_def uart_init_state_def bufs_def)
  then have "buf_inv (run (uart_do E) es uart_init_state)" using run_ok_True by (rule uartb.run_inv)
  then show ?thesis by (simp add: buf_inv_def)
qed

text \<open>
  C7: Production protocol, replies.  Whatever bytes arrive on the UART (with a wrong length
  or checksum, an unknown command, or a stale rest of the buffer) and however the driver
  answers, everything the device transmits is a well-formed frame: the first byte counts the
  bytes before the checksum and all bytes sum to 0.  The data keep their sizes, no mutex
  stays locked and, while the processor runs, no write is left pending.  The driver is never
  given the receive buffer it is filling.
\<close>

theorem uart_replies_are_frames:
  fixes E
  assumes "run_ok uart_ok (uart_do E) es uart_init_state"
  defines "s \<equiv> run (uart_do E) es uart_init_state"
  shows "(\<forall>f. DEV (Uart_tx f) \<in> set (trace s) \<longrightarrow> f \<noteq> [] \<and> length f = unat (hd f) + 1 \<and> sum_list f = 0)
    \<and> wf_data s \<and> locks (trace s) = Free \<and> (halted s = None \<longrightarrow> no_pending s) \<and> snd (bufs (trace s))"
proof -
  have "uart_inv s" unfolding s_def using uart_init_inv assms(1) by (rule uartm.run_inv)
  then show ?thesis
    using uart_buffers_alternate [of E es, folded s_def]
    by (auto simp: uart_inv_def uart_core_def list_all_iff frame_ok_def dest!: bspec)
qed

theorem uart_replies_are_frames_witness:
  "\<exists>s. s = run (uart_do (const_env 1)) [UE_driver UART_RX_BUF_REQUEST, UE_work (replicate 64 0)] uart_init_state
     \<and> wf_data s"
  using uart_replies_are_frames [of "const_env 1" "[UE_driver UART_RX_BUF_REQUEST, UE_work (replicate 64 0)]"]
  by (simp add: uart_init_state_def UART_RX_BUF_SIZE_def Let_def)

text \<open>
  C34: Provisioning the MAC address.  On a powered UART in any consistent state, a valid
  set-MAC request stores the six bytes of the wire in reverse order, answers success, and
  writes exactly the changed production structure to flash; a valid read-MAC request that
  follows answers with the same six bytes.
\<close>

theorem uart_mac_roundtrip:
  assumes "uart_inv s" "halted s = None" "uart_is_powered (ua s)"
    and "is_request TOOL_SET_MAC_OF_DUT_CMD data len" "is_request TOOL_READ_MAC_OF_DUT_CMD data' len'"
    and "s1 = ProcessProductionMsg E data len s" "s2 = ProcessProductionMsg E data' len' s1"
  shows "prod s1 = (prod s)\<lparr>pd_MACAddr := rev (get_at 2 6 data)\<rparr>
    \<and> DEV (Nvs_write PRODUCTION_DATA_KEY (prod_bytes (prod s1))) = last (trace s1)
    \<and> (\<exists>ck. trace s2 = trace s1 @ [K (Work_reschedule W_uart_lifetime 120000), K (Mutex_lock M_uart_pm),
          DEV (Uart_tx ([8, 0x8D] @ get_at 2 6 data @ [ck])), K (Mutex_unlock M_uart_pm)])"
proof -
  note eff = production_effect [OF assms(1-4) _ set_mac_effect [OF assms(1-4)], of E, folded assms(6)]
  have w: "length (get_at 2 6 data) = 6"
    using assms(4) by (simp add: is_request_def length_get_at UART_RX_BUF_SIZE_def)
  have "uart_inv s1"
    unfolding assms(6) using assms(1,2,4) by (intro uart_inv_process) (simp_all add: is_request_def)
  then show ?thesis
    using eff read_effect [OF \<open>uart_inv s1\<close> eff(3) eff(2) assms(5) _ read_mac_effect [OF assms(5) _ w], of E, folded assms(7)] w
    by (simp add: tx_events_def UART_TX_BUF_SIZE_def)
qed

text \<open>A request padded with the rest of the receive buffer.\<close>

definition in_buffer :: "bytes \<Rightarrow> bytes" where
  "in_buffer f = f @ replicate (UART_RX_BUF_SIZE - length f) 0xEE"

definition powered_state :: uart_sys where
  "powered_state = uart_init_state\<lparr>ua := uart_st_init\<lparr>uart_is_powered := True\<rparr>\<rparr>"

lemma powered_state_simps [simp]:
  "uart_inv powered_state" "halted powered_state = None" "uart_is_powered (ua powered_state)"
proof -
  show "uart_inv powered_state"
    using uart_init_inv by (simp add: uart_inv_def uart_core_unfold no_pending_def powered_state_def
        uart_init_state_def uart_st_init_def)
qed (simp_all add: powered_state_def uart_init_state_def)

theorem uart_mac_roundtrip_witness:
  "let E = const_env 0; s1 = ProcessProductionMsg E (in_buffer (request_frame 0x0C [1, 2, 3, 4, 5, 6])) 9 powered_state;
       s2 = ProcessProductionMsg E (in_buffer (request_frame 0x0D [])) 3 s1
   in pd_MACAddr (prod s1) = [6, 5, 4, 3, 2, 1]
     \<and> (\<exists>ck. DEV (Uart_tx [8, 0x8D, 1, 2, 3, 4, 5, 6, ck]) \<in> set (trace s2))"
proof -
  have r: "is_request TOOL_SET_MAC_OF_DUT_CMD (in_buffer (request_frame 0x0C [1, 2, 3, 4, 5, 6])) 9"
    "is_request TOOL_READ_MAC_OF_DUT_CMD (in_buffer (request_frame 0x0D [])) 3"
    by (simp_all add: is_request_def in_buffer_def request_frame_def Let_def UART_RX_BUF_SIZE_def tool_defs)
  have "get_at 2 6 (in_buffer (request_frame 0x0C [1, 2, 3, 4, 5, 6])) = [1, 2, 3, 4, 5, 6]"
    by (simp add: get_at_def in_buffer_def request_frame_def Let_def)
  then show ?thesis
    using uart_mac_roundtrip [of powered_state, OF _ _ _ r refl refl, of "const_env 0"]
    by (auto simp: Let_def)
qed

text \<open>
  C22: A request shorter than its payload.  No command checks the length of the message.  A
  three-byte set-serial request (a valid frame without a serial number) on a powered UART
  stores, behind the checksum byte, 17 bytes of the uninitialised stack buffer as the serial
  number and writes them to flash, and a read-serial request then sends them out.
\<close>

theorem uart_short_request_leaks_stack:
  fixes E and s :: "'a uart_sys_scheme"
  assumes "uart_inv s" "halted s = None" "uart_is_powered (ua s)"
    and "length stack = UART_RX_BUF_SIZE" "length stack' = UART_RX_BUF_SIZE"
  defines "t \<equiv> receive E (request_frame TOOL_SET_SERIAL_OF_DUT_CMD []) stack s"
  defines "u \<equiv> receive E (request_frame TOOL_READ_SERIAL_OF_DUT_CMD []) stack' t"
  shows "prod t = (prod s)\<lparr>pd_SerialNumber := 0xF4 # get_at 3 17 stack\<rparr>
    \<and> last (trace t) = DEV (Nvs_write PRODUCTION_DATA_KEY (prod_bytes (prod t)))
    \<and> (\<exists>ck. DEV (Uart_tx ([20, 0x8B, 0xF4] @ get_at 3 17 stack @ [ck])) \<in> set (trace u))"
proof -
  have f: "request_frame TOOL_SET_SERIAL_OF_DUT_CMD [] = [2, 0x0A, 0xF4]"
    "request_frame TOOL_READ_SERIAL_OF_DUT_CMD [] = [2, 0x0B, 0xF3]"
    by (simp_all add: request_frame_def tool_defs Let_def)
  have short: "[a, b, c] \<noteq> []" "length [a, b, c] \<le> UART_RX_BUF_SIZE" "3 = length [a, b, c]"
    "length [a, b, c] < UART_TX_BUF_SIZE" for a b c :: u8
    by (simp_all add: UART_RX_BUF_SIZE_def UART_TX_BUF_SIZE_def)
  have r: "is_request TOOL_SET_SERIAL_OF_DUT_CMD (put_at 0 [2, 0x0A, 0xF4] stack) 3"
    "is_request TOOL_READ_SERIAL_OF_DUT_CMD (put_at 0 [2, 0x0B, 0xF3] stack') 3"
    using assms(4,5) by (simp_all add: is_request_def tool_defs UART_RX_BUF_SIZE_def put_at_def)
  have pay: "get_at 2 SR_NUM_SIZE (put_at 0 [2, 0x0A, 0xF4] stack) = 0xF4 # get_at 3 17 stack"
    "length (get_at 3 17 stack) = 17"
    using assms(4) by (simp_all add: get_at_def put_at_def UART_RX_BUF_SIZE_def SR_NUM_SIZE_def numeral_3_eq_3)
  have "receive E [2, 0x0A, 0xF4] stack s = t" by (simp only: t_def f)
  with receive_effect [OF assms(1-3) _ _ assms(4), where chunk = "[2, 0x0A, 0xF4]" and n = 3 and E = E]
  obtain s1 where s1: "t = ProcessProductionMsg E (put_at 0 [2, 0x0A, 0xF4] stack) 3 s1"
    "uart_inv s1" "halted s1 = None" "uart_is_powered (ua s1)" "prod s1 = prod s"
    by (metis short)
  note t = production_effect [where E = E, OF s1(2-4) r(1) short(4) set_serial_effect [OF r(1)], folded s1(1), unfolded pay(1) s1(5)]
  have "uart_inv t"
    unfolding s1(1) using s1(2,3) assms(4) by (intro uart_inv_process) (simp_all add: length_put_at UART_RX_BUF_SIZE_def)
  moreover have "receive E [2, 0x0B, 0xF3] stack' t = u" by (simp only: u_def f)
  ultimately obtain t1 where t1: "u = ProcessProductionMsg E (put_at 0 [2, 0x0B, 0xF3] stack') 3 t1"
    "uart_inv t1" "halted t1 = None" "uart_is_powered (ua t1)" "prod t1 = prod t"
    using receive_effect [OF _ t(3) t(2) _ _ assms(5), where chunk = "[2, 0x0B, 0xF3]" and n = 3 and E = E] by (metis short)
  have w: "pd_SerialNumber (prod t1) = 0xF4 # get_at 3 17 stack" using t(1) t1(5) by simp
  then have "length ([20, 0x8B] @ pd_SerialNumber (prod t1)) < UART_TX_BUF_SIZE" using pay(2) by (simp add: UART_TX_BUF_SIZE_def)
  note u = read_effect [where E = E, OF t1(2-4) r(2) this read_serial_effect [OF r(2)], folded t1(1), unfolded w]
  have "DEV (Uart_tx ([20, 0x8B, 0xF4] @ get_at 3 17 stack @ [- sum_list ([20, 0x8B] @ 0xF4 # get_at 3 17 stack)])) \<in> set (trace u)"
    unfolding u by (simp add: tx_events_def)
  then show ?thesis using t(1) by (auto simp only: t(4) last_append last_ConsR last.simps append_is_Nil_conv list.simps simp_thms if_False if_True)
qed

theorem uart_short_request_leaks_stack_witness:
  "let secret = replicate 3 0 @ map of_nat [1..<18] @ replicate 44 0;
       t = receive (const_env 0) (request_frame TOOL_SET_SERIAL_OF_DUT_CMD []) secret powered_state;
       u = receive (const_env 0) (request_frame TOOL_READ_SERIAL_OF_DUT_CMD []) (replicate 64 0) t
   in \<exists>ck. DEV (Uart_tx ([20, 0x8B, 0xF4, 1, 2, 3, 4, 5, 6, 7, 8, 9, 10, 11, 12, 13, 14, 15, 16, 17, ck])) \<in> set (trace u)"
proof -
  let ?st = "replicate 3 0 @ map of_nat [1..<18] @ replicate 44 (0 :: u8)"
  have "get_at 3 17 ?st = [1, 2, 3, 4, 5, 6, 7, 8, 9, 10, 11, 12, 13, 14, 15, 16, 17]"
    by (simp add: get_at_def upt_rec)
  then show ?thesis
    using uart_short_request_leaks_stack [of powered_state ?st "replicate 64 0" "const_env 0"]
    by (simp add: Let_def UART_RX_BUF_SIZE_def)
qed

end
