(* ===== verification/Ui.thy ===== *)
theory Ui
  imports Uart
begin

text \<open>
  src/ui: the user interface of the SBT platform.  common.c (broadcast of requests to the
  registered listeners), platform_SBT_Buzzer.c (the speaker on a PWM output) and
  platform_SBT.c (UI states kept as atomic bits, the ringing buzzer, the multi-action button
  and the LED thread, whose LED calls are commented out in the source).

  The listeners live in a linker section and belong to other modules, so the list of their
  handlers is a parameter \<open>L\<close> of the operations that broadcast.
\<close>

section \<open>States and requests\<close>

datatype app_ui_state =
    APP_UI_STATE_APP_RUNNING | APP_UI_STATE_RINGING | APP_UI_STATE_RECOVERY_MODE
  | APP_UI_STATE_ID_MODE | APP_UI_STATE_PROVISIONED | APP_UI_STATE_FP_ADV
  | APP_UI_STATE_DFU_MODE | APP_UI_STATE_MOTION_DETECTOR_ACTIVE

fun ui_ix :: "app_ui_state \<Rightarrow> nat" where
  "ui_ix APP_UI_STATE_APP_RUNNING = 0"
| "ui_ix APP_UI_STATE_RINGING = 1"
| "ui_ix APP_UI_STATE_RECOVERY_MODE = 2"
| "ui_ix APP_UI_STATE_ID_MODE = 3"
| "ui_ix APP_UI_STATE_PROVISIONED = 4"
| "ui_ix APP_UI_STATE_FP_ADV = 5"
| "ui_ix APP_UI_STATE_DFU_MODE = 6"
| "ui_ix APP_UI_STATE_MOTION_DETECTOR_ACTIVE = 7"

datatype app_ui_request =
    APP_UI_REQUEST_RINGING_STOP | APP_UI_REQUEST_RECOVERY_MODE_ENTER | APP_UI_REQUEST_ID_MODE_ENTER
  | APP_UI_REQUEST_SIMULATED_BATTERY_CHANGE | APP_UI_REQUEST_FP_ADV_MODE_CHANGE
  | APP_UI_REQUEST_FMDN_ADV_MODE_CHANGE | APP_UI_REQUEST_FACTORY_RESET
  | APP_UI_REQUEST_DFU_MODE_ENTER | APP_UI_REQUEST_MOTION_INDICATE | APP_UI_REQUEST_COUNT

record ui_st =
  ui_state_status :: u32
  beep_state :: bool
  prev_uptime :: int
  btn_idx :: int

record ui_sys = uart_sys +
  ui :: ui_st

definition ui_st_init :: ui_st where
  "ui_st_init = \<lparr>ui_state_status = 0, beep_state = False, prev_uptime = 0, btn_idx = -1\<rparr>"

definition atomic_test_bit :: "u32 \<Rightarrow> app_ui_state \<Rightarrow> bool" where
  "atomic_test_bit r st = TEST_BIT r (ui_ix st)"

definition atomic_put_bit :: "u32 \<Rightarrow> app_ui_state \<Rightarrow> bool \<Rightarrow> u32" where
  "atomic_put_bit r st v = WRITE_BIT r (ui_ix st) v"

lemma ui_ix_less [simp]: "ui_ix st < 32" by (cases st) simp_all
lemma ui_ix_inj [simp]: "ui_ix a = ui_ix b \<longleftrightarrow> a = b" by (cases a; cases b) simp_all

interpretation ui_flags: flag_register atomic_test_bit atomic_put_bit "\<lambda>_. True"
  by unfold_locales (simp_all add: atomic_test_bit_def atomic_put_bit_def
      word_flags.get_put_same word_flags.get_put_other)

abbreviation ui_active :: "'a ui_sys_scheme \<Rightarrow> app_ui_state \<Rightarrow> bool" where
  "ui_active s st \<equiv> atomic_test_bit (ui_state_status (ui s)) st"

section \<open>common.c and platform_SBT_Buzzer.c\<close>

definition app_ui_request_broadcast ::
  "(app_ui_request \<Rightarrow> 'a ui_sys_scheme \<Rightarrow> 'a ui_sys_scheme) list \<Rightarrow> app_ui_request \<Rightarrow> 'a ui_sys_scheme \<Rightarrow> 'a ui_sys_scheme" where
  "app_ui_request_broadcast L request s = fold (\<lambda>handler. handler request) L s"

definition app_ui_speaker_init :: "env \<Rightarrow> 'a io_scheme \<Rightarrow> int \<times> 'a io_scheme" where
  "app_ui_speaker_init E s =
     (let s1 = invoke (DEV (Device_is_ready ''pwm_spk'')) s
      in if result E s1 = 0 then (- EIO, s1)
         else let s2 = invoke (DEV (Pwm_set False)) s1;
                  err = result E s2
              in if err \<noteq> 0 then (err, s2) else (0, s2))"

definition app_ui_speaker_on :: "env \<Rightarrow> 'a io_scheme \<Rightarrow> int \<times> 'a io_scheme" where
  "app_ui_speaker_on E s = (let s1 = invoke (DEV (Pwm_set True)) s in (result E s1, s1))"

definition app_ui_speaker_off :: "env \<Rightarrow> 'a io_scheme \<Rightarrow> int \<times> 'a io_scheme" where
  "app_ui_speaker_off E s = (let s1 = invoke (DEV (Pwm_set False)) s in (result E s1, s1))"

section \<open>Beeps\<close>

primrec speaker_beep_play :: "env \<Rightarrow> nat \<Rightarrow> nat \<Rightarrow> nat \<Rightarrow> 'a io_scheme \<Rightarrow> 'a io_scheme" where
  "speaker_beep_play E 0 on_ms off_ms s = s"
| "speaker_beep_play E (Suc cnt) on_ms off_ms s =
     (let s1 = snd (app_ui_speaker_on E s);
          s2 = invoke (K (Sleep_ms on_ms)) s1;
          s3 = snd (app_ui_speaker_off E s2);
          s4 = invoke (K (Sleep_ms off_ms)) s3
      in speaker_beep_play E cnt on_ms off_ms s4)"

datatype beep_duration = BEEP_SHORT | BEEP_MID | BEEP_LONG | BEEP_COUNT

fun speaker_beep_handle :: "env \<Rightarrow> nat \<Rightarrow> beep_duration \<Rightarrow> 'a io_scheme \<Rightarrow> 'a io_scheme" where
  "speaker_beep_handle E cnt BEEP_SHORT s = speaker_beep_play E cnt 100 500 s"
| "speaker_beep_handle E cnt BEEP_MID s = speaker_beep_play E cnt 250 500 s"
| "speaker_beep_handle E cnt BEEP_LONG s = speaker_beep_play E cnt 1000 500 s"
| "speaker_beep_handle E cnt BEEP_COUNT s = s"

definition buzzer_beep_handle :: "env \<Rightarrow> 'a ui_sys_scheme \<Rightarrow> 'a ui_sys_scheme" where
  "buzzer_beep_handle E s =
     (let s1 = s\<lparr>ui := (ui s)\<lparr>beep_state := \<not> beep_state (ui s)\<rparr>\<rparr>
      in if beep_state (ui s1)
         then invoke (K (Work_schedule W_buzzer_beep 50)) (snd (app_ui_speaker_on E s1))
         else invoke (K (Work_schedule W_buzzer_beep 500)) (snd (app_ui_speaker_off E s1)))"

section \<open>The button\<close>

text \<open>
  The table of release actions and the counter that walks it.  The handler below never
  schedules the walk (the call is commented out), so \<open>btn_idx\<close> stays at -1.
\<close>

record btn_release =
  br_request :: app_ui_request
  br_start_ms :: nat
  br_cnt :: nat
  br_duration :: beep_duration

definition noop_release :: "nat \<Rightarrow> btn_release" where
  "noop_release ms = \<lparr>br_request = APP_UI_REQUEST_COUNT, br_start_ms = ms, br_cnt = 0, br_duration = BEEP_COUNT\<rparr>"

definition short_release :: "app_ui_request \<Rightarrow> nat \<Rightarrow> nat \<Rightarrow> btn_release" where
  "short_release req ms cnt = \<lparr>br_request = req, br_start_ms = ms, br_cnt = cnt, br_duration = BEEP_SHORT\<rparr>"

definition btn_release_actions :: "btn_release list" where
  "btn_release_actions =
     [noop_release 0, short_release APP_UI_REQUEST_FP_ADV_MODE_CHANGE 1000 1,
      noop_release 3000, short_release APP_UI_REQUEST_ID_MODE_ENTER 20000 2,
      noop_release 15000, short_release APP_UI_REQUEST_RECOVERY_MODE_ENTER 30000 3,
      noop_release 25000, short_release APP_UI_REQUEST_DFU_MODE_ENTER 40000 4,
      noop_release 35000, short_release APP_UI_REQUEST_FACTORY_RESET 50000 5,
      \<lparr>br_request = APP_UI_REQUEST_COUNT, br_start_ms = 55000, br_cnt = 1, br_duration = BEEP_MID\<rparr>]"

text \<open>The difference of two \<open>uint32_t\<close> times; the assertion on their order is compiled out.\<close>

definition btn_work_timeout_get :: "int \<Rightarrow> u32" where
  "btn_work_timeout_get idx =
     (if idx = 0 then of_nat (br_start_ms (btn_release_actions ! 0))
      else of_nat (br_start_ms (btn_release_actions ! nat idx))
           - of_nat (br_start_ms (btn_release_actions ! nat (idx - 1))))"

definition btn_press_beep_work_handle :: "env \<Rightarrow> 'a ui_sys_scheme \<Rightarrow> 'a ui_sys_scheme" where
  "btn_press_beep_work_handle E s =
     (let s1 = s\<lparr>ui := (ui s)\<lparr>btn_idx := btn_idx (ui s) + 1\<rparr>\<rparr>;
          i = btn_idx (ui s1);
          s2 = check ''btn_idx'' (0 \<le> i \<and> i < int (length btn_release_actions)) s1;
          a = btn_release_actions ! nat i;
          s3 = (if i = 1 then speaker_beep_handle E (br_cnt a) (br_duration a) s2 else s2)
      in if int (length btn_release_actions) - 1 \<le> i then s3
         else invoke (K (Work_reschedule W_btn_press_beep (unat (btn_work_timeout_get (i + 1))))) s3)"

definition BTN_MULTI_ACTION :: u32 where "BTN_MULTI_ACTION = 1"

text \<open>The request and the beeps for a hold time in milliseconds.\<close>

definition release_action :: "int \<Rightarrow> (app_ui_request \<times> nat) option" where
  "release_action hold_time =
     (if 1000 < hold_time \<and> hold_time < 3000 then Some (APP_UI_REQUEST_FP_ADV_MODE_CHANGE, 1)
      else if 10000 < hold_time \<and> hold_time < 15000 then Some (APP_UI_REQUEST_FMDN_ADV_MODE_CHANGE, 2)
      else if 20000 < hold_time \<and> hold_time < 25000 then Some (APP_UI_REQUEST_ID_MODE_ENTER, 3)
      else if 50000 < hold_time \<and> hold_time < 55000 then Some (APP_UI_REQUEST_FACTORY_RESET, 6)
      else None)"

definition btn_handle ::
  "env \<Rightarrow> (app_ui_request \<Rightarrow> 'a ui_sys_scheme \<Rightarrow> 'a ui_sys_scheme) list \<Rightarrow> u32 \<Rightarrow> u32 \<Rightarrow> 'a ui_sys_scheme \<Rightarrow> 'a ui_sys_scheme" where
  "btn_handle E L button_state has_changed s =
     (if has_changed AND BTN_MULTI_ACTION = 0 then s
      else if button_state AND BTN_MULTI_ACTION \<noteq> 0 then
        let s1 = invoke (K Uptime_get) s;
            s2 = s1\<lparr>ui := (ui s1)\<lparr>prev_uptime := outval E s1\<rparr>\<rparr>
        in if ui_active s2 APP_UI_STATE_RINGING
           then app_ui_request_broadcast L APP_UI_REQUEST_RINGING_STOP s2 else s2
      else
        let s3 = (if prev_uptime (ui s) \<noteq> 0 then
              let s1 = invoke (K Uptime_get) s;
                  hold_time = outval E s1 - prev_uptime (ui s1);
                  s2 = (case release_action hold_time of
                      Some (req, beeps) \<Rightarrow>
                        app_ui_request_broadcast L req (speaker_beep_play E beeps 100 500 s1)
                    | None \<Rightarrow> s1)
              in s2\<lparr>ui := (ui s2)\<lparr>prev_uptime := 0\<rparr>\<rparr>
            else s)
        in s3\<lparr>ui := (ui s3)\<lparr>btn_idx := -1\<rparr>\<rparr>)"

section \<open>State indication and work handlers\<close>

definition cancel_ringing_work_handle ::
  "(app_ui_request \<Rightarrow> 'a ui_sys_scheme \<Rightarrow> 'a ui_sys_scheme) list \<Rightarrow> 'a ui_sys_scheme \<Rightarrow> 'a ui_sys_scheme" where
  "cancel_ringing_work_handle L s =
     (if ui_active s APP_UI_STATE_RINGING
      then app_ui_request_broadcast L APP_UI_REQUEST_RINGING_STOP s else s)"

definition app_ui_state_change_indicate :: "env \<Rightarrow> app_ui_state \<Rightarrow> bool \<Rightarrow> 'a ui_sys_scheme \<Rightarrow> 'a ui_sys_scheme" where
  "app_ui_state_change_indicate E state active s =
     (let s1 = s\<lparr>ui := (ui s)\<lparr>ui_state_status := atomic_put_bit (ui_state_status (ui s)) state active\<rparr>\<rparr>
      in if state = APP_UI_STATE_RINGING then
           if active \<and> btn_idx (ui s1) \<noteq> -1
           then invoke (K (Work_reschedule W_cancel_ringing 50)) s1
           else if active then invoke (K (Work_schedule W_buzzer_beep 0)) s1
           else invoke (K (Work_cancel W_buzzer_beep)) (snd (app_ui_speaker_off E s1))
         else s1)"

text \<open>One round of the LED thread: \<open>led_blink_once\<close> drives no LED and only sleeps.\<close>

definition led_state_id_maps :: "app_ui_state list" where
  "led_state_id_maps = [APP_UI_STATE_APP_RUNNING, APP_UI_STATE_PROVISIONED, APP_UI_STATE_ID_MODE,
     APP_UI_STATE_RECOVERY_MODE, APP_UI_STATE_FP_ADV, APP_UI_STATE_DFU_MODE,
     APP_UI_STATE_MOTION_DETECTOR_ACTIVE]"

definition led_blink_once :: "nat \<Rightarrow> 'a io_scheme \<Rightarrow> 'a io_scheme" where
  "led_blink_once on_ms s = invoke (K (Sleep_ms 0)) (invoke (K (Sleep_ms on_ms)) s)"

definition led_thread_round :: "'a ui_sys_scheme \<Rightarrow> 'a ui_sys_scheme" where
  "led_thread_round s =
     invoke (K (Sleep_ms 1000))
       (fold (\<lambda>st s. if ui_active s st then led_blink_once 500 s else s) led_state_id_maps s)"

definition app_ui_init :: "env \<Rightarrow> 'a io_scheme \<Rightarrow> int \<times> 'a io_scheme" where
  "app_ui_init E s =
     (let s1 = invoke (DEV Leds_init) s; err = result E s1
      in if err \<noteq> 0 then (err, s1)
         else let s2 = invoke (DEV Buttons_init) s1; err = result E s2
              in if err \<noteq> 0 then (err, s2)
                 else let (err, s3) = app_ui_speaker_init E s2
                      in if err \<noteq> 0 then (err, s3) else (0, s3))"

section \<open>Frame\<close>

lemma ui_invoke [simp]: "ui (invoke e s) = ui s"
  by (simp add: invoke_def)

lemma ui_lock [simp]: "ui (lock m s) = ui s" "ui (unlock m s) = ui s"
  by (simp_all add: lock_def unlock_def)

text \<open>Every component of the firmware but the UI's own record and the call trace.\<close>

lemma indicate_frame [frame, simp]:
  "gd (app_ui_state_change_indicate E st a s) = gd s"
  "adv (app_ui_state_change_indicate E st a s) = adv s"
  "tm (app_ui_state_change_indicate E st a s) = tm s"
  "ua (app_ui_state_change_indicate E st a s) = ua s"
  "halted (app_ui_state_change_indicate E st a s) = halted s"
  "btn_idx (ui (app_ui_state_change_indicate E st a s)) = btn_idx (ui s)"
  "beep_state (ui (app_ui_state_change_indicate E st a s)) = beep_state (ui s)"
  by (simp_all add: app_ui_state_change_indicate_def app_ui_speaker_off_def Let_def)

lemma indicate_status [simp]:
  "ui_state_status (ui (app_ui_state_change_indicate E st a s)) = atomic_put_bit (ui_state_status (ui s)) st a"
  by (simp add: app_ui_state_change_indicate_def app_ui_speaker_off_def Let_def)

lemma indicate_locks [simp]: "locks (trace (app_ui_state_change_indicate E st a s)) = locks (trace s)"
  by (simp add: app_ui_state_change_indicate_def app_ui_speaker_off_def Let_def)

lemma indicate_trace:
  "st \<noteq> APP_UI_STATE_RINGING \<Longrightarrow> trace (app_ui_state_change_indicate E st a s) = trace s"
  by (simp add: app_ui_state_change_indicate_def)

lemma ui_beeps [simp]: "ui (speaker_beep_play E n on off s) = ui s"
  by (induction n arbitrary: s) (simp_all add: app_ui_speaker_on_def app_ui_speaker_off_def Let_def)

section \<open>Silence when not ringing\<close>

text \<open>The speaker and the buzzer timer as the trace leaves them: (speaker on, work pending).\<close>

fun buzz_step :: "bool \<times> bool \<Rightarrow> ev \<Rightarrow> bool \<times> bool" where
  "buzz_step (on, pend) (DEV (Pwm_set b)) = (b, pend)"
| "buzz_step (on, pend) (K (Work_schedule W_buzzer_beep ms)) = (on, True)"
| "buzz_step (on, pend) (K (Work_cancel W_buzzer_beep)) = (on, False)"
| "buzz_step b e = b"

definition buzz :: "ev list \<Rightarrow> bool \<times> bool" where
  "buzz = foldl buzz_step (False, False)"

lemma buzz_append [simp]: "buzz (es @ fs) = foldl buzz_step (buzz es) fs"
  by (simp add: buzz_def)

lemma buzz_step_proj [simp]:
  "buzz_step b (DEV (Pwm_set v)) = (v, snd b)"
  "buzz_step b (K (Work_schedule W_buzzer_beep ms)) = (fst b, True)"
  "buzz_step b (K (Work_cancel W_buzzer_beep)) = (fst b, False)"
  by (cases b; simp)+

fun buzz_event :: "ev \<Rightarrow> bool" where
  "buzz_event (DEV (Pwm_set b)) = True"
| "buzz_event (K (Work_schedule w ms)) = (w = W_buzzer_beep)"
| "buzz_event (K (Work_cancel w)) = (w = W_buzzer_beep)"
| "buzz_event _ = False"

lemma buzz_step_other [simp]: "\<not> buzz_event e \<Longrightarrow> buzz_step b e = b"
  by (cases "(b, e)" rule: buzz_step.cases) auto

text \<open>
  The contract between the UI and the rest of the firmware: the button counter is idle, and
  when the ringing state is off, the speaker is silent and its timer is cancelled.
\<close>

definition ui_inv :: "'a ui_sys_scheme \<Rightarrow> bool" where
  "ui_inv s \<longleftrightarrow> btn_idx (ui s) = -1
     \<and> (\<not> ui_active s APP_UI_STATE_RINGING \<longrightarrow> buzz (trace s) = (False, False))"

lemma ui_inv_invoke: "ui_inv s \<Longrightarrow> \<not> buzz_event e \<Longrightarrow> ui_inv (invoke e s)"
  by (simp add: ui_inv_def)

lemma ui_inv_indicate: "ui_inv s \<Longrightarrow> ui_inv (app_ui_state_change_indicate E st a s)"
  by (cases "buzz (trace s)"; cases "st = APP_UI_STATE_RINGING")
    (auto simp: ui_inv_def app_ui_state_change_indicate_def app_ui_speaker_off_def Let_def
      ui_flags.get_put_same ui_flags.get_put_other)

lemma buzz_beeps:
  "buzz (trace (speaker_beep_play E n on off s)) = (if n = 0 then buzz (trace s) else (False, snd (buzz (trace s))))"
proof (induction n arbitrary: s)
  case (Suc n)
  then show ?case by (cases n) (auto simp: app_ui_speaker_on_def app_ui_speaker_off_def Let_def)
qed simp

lemma ui_inv_beeps: "ui_inv s \<Longrightarrow> ui_inv (speaker_beep_play E n on off s)"
  by (auto simp: ui_inv_def buzz_beeps)

lemma ui_inv_fields:
  "ui_state_status u = ui_state_status (ui s) \<Longrightarrow> btn_idx u = btn_idx (ui s) \<Longrightarrow> ui_inv (s\<lparr>ui := u\<rparr>) = ui_inv s"
  by (simp add: ui_inv_def)

text \<open>A request listener keeps the contract.\<close>

locale ui_listener =
  fixes handler :: "app_ui_request \<Rightarrow> 'a ui_sys_scheme \<Rightarrow> 'a ui_sys_scheme"
  assumes handler_inv: "ui_inv s \<Longrightarrow> ui_inv (handler request s)"
begin

lemma handlers_inv: "ui_inv s \<Longrightarrow> ui_inv (fold handler requests s)"
  by (induction requests arbitrary: s) (simp_all add: handler_inv)

end

lemma broadcast_inv: "list_all ui_listener L \<Longrightarrow> ui_inv s \<Longrightarrow> ui_inv (app_ui_request_broadcast L request s)"
  by (induction L arbitrary: s) (simp_all add: app_ui_request_broadcast_def ui_listener_def)

datatype ui_ev = UI_button u32 u32 | UI_buzzer | UI_indicate app_ui_state bool | UI_cancel_ringing

fun ui_do :: "env \<Rightarrow> (app_ui_request \<Rightarrow> 'a ui_sys_scheme \<Rightarrow> 'a ui_sys_scheme) list \<Rightarrow> ui_ev \<Rightarrow> 'a ui_sys_scheme \<Rightarrow> 'a ui_sys_scheme" where
  "ui_do E L (UI_button bs ch) s = btn_handle E L bs ch s"
| "ui_do E L UI_buzzer s = buzzer_beep_handle E s"
| "ui_do E L (UI_indicate st a) s = app_ui_state_change_indicate E st a s"
| "ui_do E L UI_cancel_ringing s = cancel_ringing_work_handle L s"

text \<open>The kernel runs the buzzer work only when it is pending.\<close>

fun ui_ok :: "ui_ev \<Rightarrow> 'a ui_sys_scheme \<Rightarrow> bool" where
  "ui_ok UI_buzzer s = snd (buzz (trace s))"
| "ui_ok _ s = True"

lemma ui_inv_button:
  assumes "list_all ui_listener L" "ui_inv s"
  shows "ui_inv (btn_handle E L bs ch s)"
proof -
  let ?u = "invoke (K Uptime_get) s"
  have u: "ui_inv ?u" using assms(2) by (simp add: ui_inv_invoke)
  have press: "ui_inv (?u\<lparr>ui := (ui s)\<lparr>prev_uptime := t\<rparr>\<rparr>)" for t
    using u by (simp add: ui_inv_fields)
  have beeps: "ui_inv (app_ui_request_broadcast L req (speaker_beep_play E n 100 500 ?u))" for req n
    using assms(1) u by (intro broadcast_inv ui_inv_beeps)
  have idle: "ui_inv t \<Longrightarrow> ui_inv (t\<lparr>ui := (ui t)\<lparr>prev_uptime := 0, btn_idx := -1\<rparr>\<rparr>)"
    "ui_inv t \<Longrightarrow> ui_inv (t\<lparr>ui := (ui t)\<lparr>btn_idx := -1\<rparr>\<rparr>)" for t :: "'a ui_sys_scheme"
    by (simp_all add: ui_inv_def)
  show ?thesis
    using assms press beeps u idle
    by (auto simp: btn_handle_def Let_def intro!: broadcast_inv split: option.splits)
qed

lemma ui_machine:
  fixes L :: "(app_ui_request \<Rightarrow> 'a ui_sys_scheme \<Rightarrow> 'a ui_sys_scheme) list"
  assumes "list_all ui_listener L"
  shows "invariant_machine (ui_do E L) ui_ok ui_inv"
proof
  fix s :: "'a ui_sys_scheme" and e
  assume "ui_inv s" "ui_ok e s"
  then show "ui_inv (ui_do E L e s)"
  proof (cases e)
    case UI_buzzer
    with \<open>ui_inv s\<close> \<open>ui_ok e s\<close> show ?thesis
      by (auto simp: ui_inv_def buzzer_beep_handle_def app_ui_speaker_on_def app_ui_speaker_off_def Let_def)
  qed (simp_all add: assms ui_inv_button ui_inv_indicate cancel_ringing_work_handle_def broadcast_inv)
qed

section \<open>Properties\<close>

definition ui_init_state :: ui_sys where
  "ui_init_state = uart_sys.extend uart_init_state \<lparr>ui = ui_st_init\<rparr>"

lemma ui_init_simps [simp]: "trace ui_init_state = []" "ui ui_init_state = ui_st_init" "halted ui_init_state = None"
  by (simp_all add: ui_init_state_def uart_init_state_def uart_sys.extend_def)

end
