(* ===== verification/Dfu.thy ===== *)
theory Dfu
  imports Ui
begin

text \<open>
  src/dfu.c: the firmware update mode.  The SMP characteristic is open only in this mode,
  which is entered from the UI or by a command of the Vision service and left by a timer
  that every access to the characteristic rearms.
\<close>

section \<open>State and operations\<close>

text \<open>The characteristics whose UUIDs the firmware compares.\<close>

datatype bt_uuid =
    SMP_BT_CHR_UUID | BT_UUID_DIS_FIRMWARE_REVISION | BT_UUID_GAP_DEVICE_NAME | OTHER_UUID nat

record dfu_st =
  dfu_mode :: bool

record dfu_sys = ui_sys +
  dfu :: dfu_st

definition dfu_st_init :: dfu_st where
  "dfu_st_init = \<lparr>dfu_mode = False\<rparr>"

definition DFU_MODE_TIMEOUT_MS :: nat where "DFU_MODE_TIMEOUT_MS = 120000"

lemma dfu_invoke [simp]: "dfu (invoke e s) = dfu s"
  by (simp add: invoke_def)

lemma dfu_lock [simp]: "dfu (lock m s) = dfu s" "dfu (unlock m s) = dfu s"
  by (simp_all add: lock_def unlock_def)

definition dfu_mode_change :: "env \<Rightarrow> bool \<Rightarrow> 'a dfu_sys_scheme \<Rightarrow> 'a dfu_sys_scheme" where
  "dfu_mode_change E new_mode s =
     (if dfu_mode (dfu s) = new_mode then s
      else
        let s1 = s\<lparr>dfu := (dfu s)\<lparr>dfu_mode := new_mode\<rparr>\<rparr>
        in app_ui_state_change_indicate E APP_UI_STATE_DFU_MODE new_mode s1)"

definition dfu_factory_reset_prepare :: "env \<Rightarrow> 'a dfu_sys_scheme \<Rightarrow> 'a dfu_sys_scheme" where
  "dfu_factory_reset_prepare E s = dfu_mode_change E False s"

definition app_dfu_bt_gatt_operation_allow :: "bt_uuid \<Rightarrow> 'a dfu_sys_scheme \<Rightarrow> bool \<times> 'a dfu_sys_scheme" where
  "app_dfu_bt_gatt_operation_allow uuid s =
     (if uuid \<noteq> SMP_BT_CHR_UUID then (True, s)
      else if \<not> dfu_mode (dfu s) then (False, s)
      else (True, invoke (K (Work_reschedule W_dfu_mode_timeout DFU_MODE_TIMEOUT_MS)) s))"

definition dfu_mode_action_handle :: "env \<Rightarrow> 'a dfu_sys_scheme \<Rightarrow> 'a dfu_sys_scheme" where
  "dfu_mode_action_handle E s =
     dfu_mode_change E True (invoke (K (Work_reschedule W_dfu_mode_timeout DFU_MODE_TIMEOUT_MS)) s)"

definition app_dfu_enter_mode_custom :: "env \<Rightarrow> 'a dfu_sys_scheme \<Rightarrow> 'a dfu_sys_scheme" where
  "app_dfu_enter_mode_custom E s = dfu_mode_action_handle E s"

definition dfu_mode_timeout_work_handle :: "env \<Rightarrow> 'a dfu_sys_scheme \<Rightarrow> 'a dfu_sys_scheme" where
  "dfu_mode_timeout_work_handle E s = dfu_mode_change E False s"

definition dfu_mode_request_handle :: "env \<Rightarrow> app_ui_request \<Rightarrow> 'a dfu_sys_scheme \<Rightarrow> 'a dfu_sys_scheme" where
  "dfu_mode_request_handle E request s =
     (if request = APP_UI_REQUEST_DFU_MODE_ENTER then dfu_mode_action_handle E s else s)"

section \<open>The mode as a machine\<close>

datatype dfu_ev = DF_access bt_uuid | DF_enter | DF_request app_ui_request | DF_timeout | DF_reset_prepare

fun dfu_do :: "env \<Rightarrow> dfu_ev \<Rightarrow> 'a dfu_sys_scheme \<Rightarrow> 'a dfu_sys_scheme" where
  "dfu_do E (DF_access u) s = snd (app_dfu_bt_gatt_operation_allow u s)"
| "dfu_do E DF_enter s = app_dfu_enter_mode_custom E s"
| "dfu_do E (DF_request r) s = dfu_mode_request_handle E r s"
| "dfu_do E DF_timeout s = dfu_mode_timeout_work_handle E s"
| "dfu_do E DF_reset_prepare s = dfu_factory_reset_prepare E s"

text \<open>
  The mode can end only through its timer or a factory reset, so it must never be on without
  a running timer.  The machine therefore carries the kernel's view of the timer: it runs
  after a reschedule and until its handler starts.
\<close>

fun dfu_timer_step :: "bool \<Rightarrow> ev \<Rightarrow> bool" where
  "dfu_timer_step r (K (Work_reschedule w ms)) = (r \<or> w = W_dfu_mode_timeout)"
| "dfu_timer_step r (K (Work_cancel w)) = (r \<and> w \<noteq> W_dfu_mode_timeout)"
| "dfu_timer_step r e = r"

definition dfu_timed_do :: "env \<Rightarrow> dfu_ev \<Rightarrow> 'a dfu_sys_scheme \<times> bool \<Rightarrow> 'a dfu_sys_scheme \<times> bool" where
  "dfu_timed_do E e = (\<lambda>(s, timer).
     let s' = dfu_do E e s
     in (s', foldl dfu_timer_step (timer \<and> e \<noteq> DF_timeout) (drop (length (trace s)) (trace s'))))"

definition dfu_inv :: "'a dfu_sys_scheme \<times> bool \<Rightarrow> bool" where
  "dfu_inv = (\<lambda>(s, timer). (ui_active s APP_UI_STATE_DFU_MODE = dfu_mode (dfu s)) \<and> (dfu_mode (dfu s) \<longrightarrow> timer))"

text \<open>Abstractly, the mode alone.\<close>

fun dfu_abs_step :: "dfu_ev \<Rightarrow> bool \<Rightarrow> bool" where
  "dfu_abs_step DF_enter m = True"
| "dfu_abs_step (DF_request r) m = (m \<or> r = APP_UI_REQUEST_DFU_MODE_ENTER)"
| "dfu_abs_step DF_timeout m = False"
| "dfu_abs_step DF_reset_prepare m = False"
| "dfu_abs_step (DF_access u) m = m"

lemma dfu_indicate [simp]: "dfu (app_ui_state_change_indicate E st a s) = dfu s"
  by (simp add: app_ui_state_change_indicate_def app_ui_speaker_off_def Let_def)

lemmas dfu_defs = dfu_mode_change_def dfu_factory_reset_prepare_def app_dfu_bt_gatt_operation_allow_def
  dfu_mode_action_handle_def app_dfu_enter_mode_custom_def dfu_mode_timeout_work_handle_def
  dfu_mode_request_handle_def

lemma dfu_do_spec:
  assumes "dfu_inv x"
  shows "dfu_inv (dfu_timed_do E e x)"
    "dfu_mode (dfu (fst (dfu_timed_do E e x))) = dfu_abs_step e (dfu_mode (dfu (fst x)))"
  using assms
  by (cases x; cases e; auto simp: dfu_defs dfu_inv_def dfu_timed_do_def Let_def ui_flags.get_put_same
      indicate_trace)+

interpretation dfum: simulation "dfu_timed_do E" "\<lambda>_ _. True" dfu_inv "\<lambda>x. dfu_mode (dfu (fst x))" dfu_abs_step for E
  by unfold_locales (simp_all add: dfu_do_spec)

lemma ui_inv_dfu_update [simp]: "ui_inv (s\<lparr>dfu := d\<rparr>) = ui_inv s"
  by (simp add: ui_inv_def)

lemma ui_inv_dfu_change: "ui_inv s \<Longrightarrow> ui_inv (dfu_mode_change E m s)"
  by (simp add: dfu_mode_change_def ui_inv_indicate)

interpretation dfu_listener: ui_listener "dfu_mode_request_handle E" for E
  by unfold_locales (simp add: dfu_mode_request_handle_def dfu_mode_action_handle_def ui_inv_dfu_change ui_inv_invoke)

section \<open>Properties\<close>

definition dfu_init_state :: dfu_sys where
  "dfu_init_state = ui_sys.extend ui_init_state \<lparr>dfu = dfu_st_init\<rparr>"

lemma dfu_init_simps [simp]: "ui dfu_init_state = ui_st_init" "dfu dfu_init_state = dfu_st_init"
  by (simp_all add: dfu_init_state_def ui_init_state_def ui_sys.extend_def uart_sys.extend_def uart_init_state_def)

text \<open>
  C17: DFU mode.  After any sequence of accesses, requests, commands, time-outs and factory
  resets, the mode is what the abstract machine of enter and leave events says, the UI shows
  it, its timer is running whenever it is on, and an operation on the SMP characteristic is
  allowed exactly when it is on (any other characteristic is always allowed by this module).
\<close>

theorem dfu_mode_correct:
  fixes E es
  defines "x \<equiv> run (dfu_timed_do E) es (dfu_init_state, False)"
  shows "dfu_mode (dfu (fst x)) = run dfu_abs_step es False
    \<and> ui_active (fst x) APP_UI_STATE_DFU_MODE = dfu_mode (dfu (fst x))
    \<and> (\<not> snd x \<longrightarrow> \<not> dfu_mode (dfu (fst x)))
    \<and> (fst (app_dfu_bt_gatt_operation_allow u (fst x)) \<longleftrightarrow> u \<noteq> SMP_BT_CHR_UUID \<or> dfu_mode (dfu (fst x)))"
proof -
  have init: "dfu_inv (dfu_init_state, False)"
    by (simp add: dfu_inv_def ui_st_init_def dfu_st_init_def atomic_test_bit_def TEST_BIT_def)
  have "dfu_inv x" unfolding x_def by (rule dfum.run_inv [OF init run_ok_True])
  moreover have "dfu_mode (dfu (fst x)) = run dfu_abs_step es False"
    using dfum.run_abs [OF init run_ok_True] by (simp add: x_def dfu_st_init_def)
  ultimately show ?thesis
    by (auto simp: dfu_inv_def case_prod_unfold app_dfu_bt_gatt_operation_allow_def)
qed

text \<open>A run with an entry, an access and a time-out.\<close>

theorem dfu_mode_correct_witness:
  "dfu_mode (dfu (fst (run (dfu_timed_do (const_env 0)) [DF_enter, DF_access SMP_BT_CHR_UUID] (dfu_init_state, False))))"
  using dfu_mode_correct [of "const_env 0" "[DF_enter, DF_access SMP_BT_CHR_UUID]" SMP_BT_CHR_UUID] by simp

end
