(* ===== verification/Service.thy ===== *)
theory Service
  imports Dfu
begin

text \<open>
  src/vision_custom_services.c: the Vision GATT service.  A client writes commands into
  \<open>write_buffer\<close>; a work item parses them and answers through the notification buffer.
  Until the password has been provided every other command is refused and ends the link.

  A command's effect is a \<open>reply\<close>: the first \<open>response_len\<close> bytes of the (zeroed) local
  reply buffer, and whether the link is to be closed or the device restarted afterwards.
  The two commands of the LIS3DH sensor are compiled out (\<open>CONFIG_I2C=n\<close>).
\<close>

section \<open>State\<close>

record svc_st =
  write_buffer :: bytes
  write_len :: nat
  notify_buffer :: bytes
  notify_len :: nat
  active_local_id :: u8
  is_notifying_enabled :: bool
  bool_UserAuthorization :: bool
  svc_ConfigDataWrite :: bool
  svc_DynamicDataWrite :: bool
  bool_AdvtIntervalUpdated :: bool
  current_conn :: "conn option"

record svc_sys = dfu_sys +
  svc :: svc_st

definition CUSTOM_MAX_DATA_LEN :: nat where "CUSTOM_MAX_DATA_LEN = 240"
definition AUTHO_TOUT_TIME_SEC :: nat where "AUTHO_TOUT_TIME_SEC = 20"
definition DISCC_TIME_SEC :: nat where "DISCC_TIME_SEC = 60"

definition svc_st_init :: svc_st where
  "svc_st_init = \<lparr>write_buffer = replicate CUSTOM_MAX_DATA_LEN 0, write_len = 0,
     notify_buffer = replicate CUSTOM_MAX_DATA_LEN 0, notify_len = 0, active_local_id = 0xFF,
     is_notifying_enabled = False, bool_UserAuthorization = False, svc_ConfigDataWrite = False,
     svc_DynamicDataWrite = False, bool_AdvtIntervalUpdated = False, current_conn = None\<rparr>"

definition FAIL :: u8 where "FAIL = 0x00"
definition INVALID_PASSWD :: u8 where "INVALID_PASSWD = 1"
definition AUTHORIZATION_FAIL :: u8 where "AUTHORIZATION_FAIL = 3"
definition INVALID_SUB_COMMAND :: u8 where "INVALID_SUB_COMMAND = 7"
definition INVALID_VALUE :: u8 where "INVALID_VALUE = 8"
definition INVALID_RTC :: u8 where "INVALID_RTC = 10"

lemmas reason_defs = FAIL_def SUCCESS_def INVALID_PASSWD_def AUTHORIZATION_FAIL_def INVALID_SUB_COMMAND_def
  INVALID_VALUE_def INVALID_RTC_def

definition PROVIDE_PASSWORD :: u8 where "PROVIDE_PASSWORD = 138"
definition SET_REAL_TIME_CLOCK :: u8 where "SET_REAL_TIME_CLOCK = 3"
definition SET_ADV_PERIOD :: u8 where "SET_ADV_PERIOD = 8"
definition SET_ENERGY_SAVE_TIME :: u8 where "SET_ENERGY_SAVE_TIME = 29"
definition PUT_DEVICE_IN_OTA_DFU_MODE :: u8 where "PUT_DEVICE_IN_OTA_DFU_MODE = 142"
definition RESTART_DEVICE :: u8 where "RESTART_DEVICE = 131"
definition READ_FIRMWARE_DETAIL :: u8 where "READ_FIRMWARE_DETAIL = 129"
definition READ_DIAGNOSTIC_DATA :: u8 where "READ_DIAGNOSTIC_DATA = 160"
definition READ_ENERGY_SAVING_PARA :: u8 where "READ_ENERGY_SAVING_PARA = 161"
definition READ_BLE_MAC_ADDR :: u8 where "READ_BLE_MAC_ADDR = 172"
definition READ_CURRENT_TIME :: u8 where "READ_CURRENT_TIME = 130"
definition READ_ASSOCIATION_PARA :: u8 where "READ_ASSOCIATION_PARA = 169"
definition GLOBAL_ENERGY_SAVE_CONFIG1 :: u8 where "GLOBAL_ENERGY_SAVE_CONFIG1 = 1"

lemmas command_defs = PROVIDE_PASSWORD_def SET_REAL_TIME_CLOCK_def SET_ADV_PERIOD_def
  SET_ENERGY_SAVE_TIME_def PUT_DEVICE_IN_OTA_DFU_MODE_def RESTART_DEVICE_def READ_FIRMWARE_DETAIL_def
  READ_DIAGNOSTIC_DATA_def READ_ENERGY_SAVING_PARA_def READ_BLE_MAC_ADDR_def READ_CURRENT_TIME_def
  READ_ASSOCIATION_PARA_def GLOBAL_ENERGY_SAVE_CONFIG1_def

lemma svc_invoke [simp]: "svc (invoke e s) = svc s"
  by (simp add: invoke_def)

lemma svc_lock [simp]: "svc (lock m s) = svc s" "svc (unlock m s) = svc s"
  by (simp_all add: lock_def unlock_def)

section \<open>GATT callbacks\<close>

definition read_notify_char :: "env \<Rightarrow> nat \<Rightarrow> nat \<Rightarrow> 'a svc_sys_scheme \<Rightarrow> int \<times> 'a svc_sys_scheme" where
  "read_notify_char E len offset s =
     (let s1 = lock M_svc s;
          s2 = invoke (BT (Gatt_attr_read (take (notify_len (svc s1)) (notify_buffer (svc s1))) len offset)) s1
      in (result E s2, unlock M_svc s2))"

definition BT_ATT_ERR_INVALID_ATTRIBUTE_LEN :: int where "BT_ATT_ERR_INVALID_ATTRIBUTE_LEN = 13"

definition write_incoming_char :: "bytes \<Rightarrow> nat \<Rightarrow> 'a svc_sys_scheme \<Rightarrow> int \<times> 'a svc_sys_scheme" where
  "write_incoming_char buf offset s =
     (let s1 = lock M_svc s; len = length buf
      in if CUSTOM_MAX_DATA_LEN < offset + len
         then (- BT_ATT_ERR_INVALID_ATTRIBUTE_LEN, unlock M_svc s1)
         else
           let s2 = s1\<lparr>svc := (svc s1)\<lparr>write_buffer := put_at offset buf (write_buffer (svc s1)),
                  write_len := (if write_len (svc s1) < offset + len then offset + len else write_len (svc s1))\<rparr>\<rparr>;
               s3 = invoke (K (Work_submit W_parse_and_reply)) s2
           in (int len, unlock M_svc s3))"

definition BT_GATT_CCC_NOTIFY :: u16 where "BT_GATT_CCC_NOTIFY = 1"

definition cccd_changed_cb :: "u16 \<Rightarrow> 'a svc_sys_scheme \<Rightarrow> 'a svc_sys_scheme" where
  "cccd_changed_cb value s =
     (let s1 = lock M_svc s;
          s2 = s1\<lparr>svc := (svc s1)\<lparr>is_notifying_enabled := (value = BT_GATT_CCC_NOTIFY)\<rparr>\<rparr>
      in unlock M_svc s2)"

text \<open>
  The attributes of the service, each with its permissions and callbacks.  The macro for a
  characteristic makes two attributes, its declaration and its value.
\<close>

datatype gatt_type = GATT_PRIMARY_SERVICE | GATT_CHRC_WRITE_DECL | CUSTOM_WRITE_CHAR | GATT_CHRC_NOTIFY_DECL
  | CUSTOM_NOTIFY_CHAR | GATT_CCC

record 's gatt_attr =
  ga_type :: gatt_type
  ga_perm_read :: bool
  ga_perm_write :: bool
  ga_read :: "(nat \<Rightarrow> nat \<Rightarrow> 's \<Rightarrow> int \<times> 's) option"
  ga_write :: "(bytes \<Rightarrow> nat \<Rightarrow> 's \<Rightarrow> int \<times> 's) option"
  ga_ccc_changed :: "(u16 \<Rightarrow> 's \<Rightarrow> 's) option"

definition gatt_declaration :: "gatt_type \<Rightarrow> 's gatt_attr" where
  "gatt_declaration t = \<lparr>ga_type = t, ga_perm_read = True, ga_perm_write = False, ga_read = None, ga_write = None,
     ga_ccc_changed = None\<rparr>"

definition custom_svc :: "env \<Rightarrow> 'a svc_sys_scheme gatt_attr list" where
  "custom_svc E =
     [gatt_declaration GATT_PRIMARY_SERVICE,
      gatt_declaration GATT_CHRC_WRITE_DECL,
      \<lparr>ga_type = CUSTOM_WRITE_CHAR, ga_perm_read = False, ga_perm_write = True, ga_read = None,
        ga_write = Some write_incoming_char, ga_ccc_changed = None\<rparr>,
      gatt_declaration GATT_CHRC_NOTIFY_DECL,
      \<lparr>ga_type = CUSTOM_NOTIFY_CHAR, ga_perm_read = True, ga_perm_write = False, ga_read = Some (read_notify_char E),
        ga_write = None, ga_ccc_changed = None\<rparr>,
      \<lparr>ga_type = GATT_CCC, ga_perm_read = True, ga_perm_write = True, ga_read = None, ga_write = None,
        ga_ccc_changed = Some cccd_changed_cb\<rparr>]"

text \<open>The index under which the replies are notified is the value of the notify characteristic.\<close>

lemma notify_attr: "ga_type (custom_svc E ! 4) = CUSTOM_NOTIFY_CHAR"
  by (simp add: custom_svc_def)

section \<open>Disconnection, restart and notification\<close>

definition ble_custom_service_initiate_disconnect :: "env \<Rightarrow> 'a svc_sys_scheme \<Rightarrow> int \<times> 'a svc_sys_scheme" where
  "ble_custom_service_initiate_disconnect E s =
     (let s1 = lock M_svc s
      in case current_conn (svc s1) of
           None \<Rightarrow> (- ENOTCONN, unlock M_svc s1)
         | Some c \<Rightarrow>
             let s2 = unlock M_svc (invoke (BT (Conn_ref c)) s1);
                 s3 = invoke (K (Sleep_ms 20)) s2;
                 s4 = invoke (BT (Conn_disconnect c)) s3;
                 rc = result E s4
             in (rc, invoke (BT (Conn_unref c)) s4))"

definition authorisation_timout_work_handler :: "env \<Rightarrow> 'a svc_sys_scheme \<Rightarrow> 'a svc_sys_scheme" where
  "authorisation_timout_work_handler E s = snd (ble_custom_service_initiate_disconnect E s)"

definition connection_timout_work_handler :: "env \<Rightarrow> 'a svc_sys_scheme \<Rightarrow> 'a svc_sys_scheme" where
  "connection_timout_work_handler E s = snd (ble_custom_service_initiate_disconnect E s)"

definition app_graceful_self_restart :: "env \<Rightarrow> 'a svc_sys_scheme \<Rightarrow> 'a svc_sys_scheme" where
  "app_graceful_self_restart E s =
     (let (_, s1) = ble_custom_service_initiate_disconnect E s;
          (_, s2) = app_uart_disable E s1;
          s3 = invoke (K (Sleep_ms 100)) s2;
          s4 = invoke (K (Sleep_ms 10)) s3
      in sys_reboot s4)"

definition ble_custom_service_send_notification ::
  "env \<Rightarrow> conn option \<Rightarrow> bytes \<Rightarrow> 'a svc_sys_scheme \<Rightarrow> int \<times> 'a svc_sys_scheme" where
  "ble_custom_service_send_notification E conn data s =
     (case conn of
        None \<Rightarrow> (- EINVAL, s)
      | Some c \<Rightarrow>
          if CUSTOM_MAX_DATA_LEN < length data then (- EINVAL, s)
          else
            let s1 = lock M_svc s;
                s2 = s1\<lparr>svc := (svc s1)\<lparr>notify_buffer := put_at 0 data (notify_buffer (svc s1)),
                       notify_len := length data\<rparr>\<rparr>
            in if \<not> is_notifying_enabled (svc s2) then (- EACCES, unlock M_svc s2)
               else
                 let s3 = unlock M_svc s2;
                     s4 = invoke (BT (Gatt_get_mtu c)) s3;
                     negotiated_mtu = outval E s4
                 in if negotiated_mtu < int (length data) + 3 then (- EACCES, s4)
                    else
                      let s5 = invoke (BT (Gatt_notify c data)) s4
                      in (result E s5, s5))"

definition ble_custom_service_get_written_data :: "'a svc_sys_scheme \<Rightarrow> int \<times> bytes \<times> 'a svc_sys_scheme" where
  "ble_custom_service_get_written_data s =
     (let s1 = lock M_svc s; n = write_len (svc s1)
      in if n = 0 then (- ENODATA, [], unlock M_svc s1)
         else (0, take n (write_buffer (svc s1)), unlock M_svc (s1\<lparr>svc := (svc s1)\<lparr>write_len := 0\<rparr>\<rparr>)))"

definition ble_custom_service_init :: "'a svc_sys_scheme \<Rightarrow> int \<times> 'a svc_sys_scheme" where
  "ble_custom_service_init s =
     (let s1 = lock M_svc s;
          s2 = s1\<lparr>svc := (svc s1)\<lparr>write_buffer := replicate CUSTOM_MAX_DATA_LEN 0,
                 notify_buffer := replicate CUSTOM_MAX_DATA_LEN 0, write_len := 0, notify_len := 0\<rparr>\<rparr>;
          s3 = invoke (K (Work_init W_authorisation)) s2;
          s4 = invoke (K (Work_init W_connection)) s3
      in (0, unlock M_svc s4))"

section \<open>Commands\<close>

record reply =
  re_bytes :: bytes
  re_disconnect :: bool
  re_restart :: bool

definition answer :: "bytes \<Rightarrow> reply" where
  "answer bs = \<lparr>re_bytes = bs, re_disconnect = False, re_restart = False\<rparr>"

definition refuse :: "u8 \<Rightarrow> reply" where
  "refuse reason = \<lparr>re_bytes = [FAIL, reason], re_disconnect = True, re_restart = False\<rparr>"

text \<open>Before the password has been provided.\<close>

definition svc_unauthorised :: "bytes \<Rightarrow> 'a svc_sys_scheme \<Rightarrow> reply \<times> 'a svc_sys_scheme" where
  "svc_unauthorised temp_buf s =
     (if temp_buf ! 0 \<noteq> PROVIDE_PASSWORD then
        (refuse AUTHORIZATION_FAIL, invoke (K (Work_cancel W_authorisation)) s)
      else if get_at 1 MAX_PASSWORD_SIZE temp_buf = pd_Password (prod s) then
        let s1 = s\<lparr>svc := (svc s)\<lparr>bool_UserAuthorization := True\<rparr>\<rparr>;
            s2 = invoke (K (Work_cancel W_authorisation)) s1;
            s3 = invoke (K (Work_schedule W_connection (DISCC_TIME_SEC * 1000))) s2
        in (answer ([SUCCESS, APP_VERSION_MAJOR, APP_VERSION_MINOR, 0xFF, 0xFF, 0, 0, 0, 0, 0, 0, 0,
              HARDWARE_MAJOR, HARDWARE_MINOR]), s3)
      else (refuse INVALID_PASSWD, s))"

definition svc_set_clock :: "env \<Rightarrow> bytes \<Rightarrow> 'a svc_sys_scheme \<Rightarrow> reply \<times> 'a svc_sys_scheme" where
  "svc_set_clock E temp_buf s =
     (let s1 = set_DynamicData ((dyn s)\<lparr>dd_CurrentTime := un_le32 (get_at 1 4 temp_buf)\<rparr>) s;
          s2 = set_ConfigData ((conf s1)\<lparr>cd_TimeZoneOffset := un_le16 (get_at 5 2 temp_buf)\<rparr>) s1;
          s3 = s2\<lparr>svc := (svc s2)\<lparr>svc_ConfigDataWrite := True, svc_DynamicDataWrite := True\<rparr>\<rparr>;
          s4 = app_time_sync_set_utc E (dd_CurrentTime (dyn s3)) s3
      in (answer [SUCCESS], s4))"

definition svc_read_time :: "env \<Rightarrow> 'a svc_sys_scheme \<Rightarrow> reply \<times> 'a svc_sys_scheme" where
  "svc_read_time E s =
     (let (live_epoch, s1) = app_time_get_utc_epoch E s
      in if live_epoch \<noteq> 0 then (answer (SUCCESS # le32 live_epoch), s1)
         else (answer [FAIL, INVALID_RTC], s1))"

definition svc_read_association :: "bytes \<Rightarrow> 'a svc_sys_scheme \<Rightarrow> reply \<times> 'a svc_sys_scheme" where
  "svc_read_association temp_buf s =
     (if temp_buf ! 1 = 6 then (answer ([SUCCESS, 6] @ le16 (cd_TimeZoneOffset (conf s))), s)
      else (refuse INVALID_SUB_COMMAND, s))"

definition svc_set_adv_period :: "bytes \<Rightarrow> 'a svc_sys_scheme \<Rightarrow> reply \<times> 'a svc_sys_scheme" where
  "svc_set_adv_period temp_buf s =
     (let v = un_le16 (get_at 1 2 temp_buf)
      in if 100 \<le> v \<and> v \<le> 5000 then
           let s1 = set_ConfigData ((conf s)\<lparr>cd_AdvertismentInterval := v\<rparr>) s;
               s2 = lock M_svc s1;
               s3 = unlock M_svc (s2\<lparr>svc := (svc s2)\<lparr>bool_AdvtIntervalUpdated := True\<rparr>\<rparr>)
           in (answer [SUCCESS], s3\<lparr>svc := (svc s3)\<lparr>svc_ConfigDataWrite := True\<rparr>\<rparr>)
         else (refuse INVALID_VALUE, s))"

definition svc_set_energy_save :: "bytes \<Rightarrow> 'a svc_sys_scheme \<Rightarrow> reply \<times> 'a svc_sys_scheme" where
  "svc_set_energy_save temp_buf s =
     (if temp_buf ! 1 = GLOBAL_ENERGY_SAVE_CONFIG1 then
        let p = (cd_energy_save_para (conf s))\<lparr>u16_StartMinutes := un_le16 (get_at 2 2 temp_buf),
                  u16_EndMinutes := un_le16 (get_at 4 2 temp_buf)\<rparr>;
            s1 = set_ConfigData ((conf s)\<lparr>cd_energy_save_para := p\<rparr>) s
        in (answer [SUCCESS], s1\<lparr>svc := (svc s1)\<lparr>svc_ConfigDataWrite := True\<rparr>\<rparr>)
      else (refuse INVALID_SUB_COMMAND, s))"

definition svc_read_energy_save :: "'a svc_sys_scheme \<Rightarrow> reply" where
  "svc_read_energy_save s =
     (let p = cd_energy_save_para (conf s) in answer (SUCCESS # le16 (u16_StartMinutes p) @ le16 (u16_EndMinutes p)))"

definition svc_read_mac :: "bytes \<Rightarrow> 'a svc_sys_scheme \<Rightarrow> reply" where
  "svc_read_mac temp_buf s =
     (if temp_buf ! 1 = 1 then answer (SUCCESS # get_factory_mac_copy s) else refuse INVALID_SUB_COMMAND)"

definition svc_read_firmware :: reply where
  [simp]: "svc_read_firmware = answer [SUCCESS, APP_VERSION_MAJOR, APP_VERSION_MINOR]"

definition svc_read_diagnostic :: "'a svc_sys_scheme \<Rightarrow> reply" where
  [simp]: "svc_read_diagnostic s = answer (SUCCESS # le16 (dd_ResetCnt (dyn s)))"

definition svc_unknown_command :: reply where
  [simp]: "svc_unknown_command = refuse INVALID_SUB_COMMAND"

definition svc_authorised :: "env \<Rightarrow> bytes \<Rightarrow> 'a svc_sys_scheme \<Rightarrow> reply \<times> 'a svc_sys_scheme" where
  "svc_authorised E temp_buf s0 =
     (let s = invoke (K (Work_reschedule W_connection (DISCC_TIME_SEC * 1000))) s0;
          c = temp_buf ! 0
      in if c = SET_REAL_TIME_CLOCK then svc_set_clock E temp_buf s
         else if c = READ_CURRENT_TIME then svc_read_time E s
         else if c = READ_ASSOCIATION_PARA then svc_read_association temp_buf s
         else if c = SET_ADV_PERIOD then svc_set_adv_period temp_buf s
         else if c = SET_ENERGY_SAVE_TIME then svc_set_energy_save temp_buf s
         else if c = READ_ENERGY_SAVING_PARA then (svc_read_energy_save s, s)
         else if c = RESTART_DEVICE then
           (\<lparr>re_bytes = [SUCCESS], re_disconnect = True, re_restart = True\<rparr>, s)
         else if c = PUT_DEVICE_IN_OTA_DFU_MODE then (answer [SUCCESS], app_dfu_enter_mode_custom E s)
         else if c = READ_BLE_MAC_ADDR then (svc_read_mac temp_buf s, s)
         else if c = READ_FIRMWARE_DETAIL then (svc_read_firmware, s)
         else if c = READ_DIAGNOSTIC_DATA then (svc_read_diagnostic s, s)
         else (svc_unknown_command, s))"

section \<open>The parser\<close>

definition svc_flush_writes :: "env \<Rightarrow> 'a svc_sys_scheme \<Rightarrow> 'a svc_sys_scheme" where
  "svc_flush_writes E s =
     (let s1 = (if svc_ConfigDataWrite (svc s)
            then snd (write_nvs_data E CONFIG_DATA_KEY (conf_bytes (conf s))
                   (s\<lparr>svc := (svc s)\<lparr>svc_ConfigDataWrite := False\<rparr>\<rparr>)) else s)
      in if svc_DynamicDataWrite (svc s1)
         then snd (write_nvs_data E DYNAMIC_DATA_KEY (dyn_bytes (dyn s1))
                (s1\<lparr>svc := (svc s1)\<lparr>svc_DynamicDataWrite := False\<rparr>\<rparr>)) else s1)"

text \<open>What follows the commands: the answer, the writes, the end of the link and the restart.\<close>

definition svc_finish :: "env \<Rightarrow> conn \<Rightarrow> reply \<Rightarrow> 'a svc_sys_scheme \<Rightarrow> 'a svc_sys_scheme" where
  "svc_finish E c r s =
     (let s1 = (if re_bytes r \<noteq> [] then snd (ble_custom_service_send_notification E (Some c) (re_bytes r) s) else s);
          s2 = invoke (BT (Conn_unref c)) s1;
          s3 = svc_flush_writes E s2;
          s4 = (if re_disconnect r \<or> re_restart r
                then invoke (K (Sleep_ms 60)) (invoke (K (Work_cancel W_connection)) s3) else s3);
          s5 = (if re_disconnect r then snd (ble_custom_service_initiate_disconnect E s4) else s4)
      in if re_restart r then app_graceful_self_restart E s5 else s5)"

definition svc_execute :: "env \<Rightarrow> bytes \<Rightarrow> 'a svc_sys_scheme \<Rightarrow> reply \<times> 'a svc_sys_scheme" where
  "svc_execute E temp_buf s =
     (if \<not> bool_UserAuthorization (svc s) then svc_unauthorised temp_buf s else svc_authorised E temp_buf s)"

definition ble_parse_and_reply_work_handler :: "env \<Rightarrow> 'a svc_sys_scheme \<Rightarrow> 'a svc_sys_scheme" where
  "ble_parse_and_reply_work_handler E s =
     (let s1 = lock M_svc s;
          n = write_len (svc s1);
          temp_buf = put_at 0 (take n (write_buffer (svc s1))) (replicate CUSTOM_MAX_DATA_LEN 0);
          s2 = (if 0 < n then s1\<lparr>svc := (svc s1)\<lparr>write_len := 0\<rparr>\<rparr> else s1);
          conn_to_use = current_conn (svc s2);
          s3 = (case conn_to_use of None \<Rightarrow> s2 | Some c \<Rightarrow> invoke (BT (Conn_ref c)) s2);
          s4 = unlock M_svc s3
      in case conn_to_use of
           None \<Rightarrow> s4
         | Some c \<Rightarrow>
             if n = 0 then invoke (BT (Conn_unref c)) s4
             else let (r, s5) = svc_execute E temp_buf s4 in svc_finish E c r s5)"

section \<open>Connection callbacks\<close>

definition exchange_func :: "conn \<Rightarrow> nat \<Rightarrow> 'a svc_sys_scheme \<Rightarrow> 'a svc_sys_scheme" where
  "exchange_func c err s = (if err = 0 then invoke (BT (Gatt_get_mtu c)) s else s)"

definition svc_connected :: "env \<Rightarrow> conn \<Rightarrow> nat \<Rightarrow> 'a svc_sys_scheme \<Rightarrow> 'a svc_sys_scheme" where
  "svc_connected E c err s =
     (if err \<noteq> 0 then s
      else
        let s1 = lock M_svc s;
            s2 = invoke (BT (Conn_ref c)) s1;
            s3 = unlock M_svc (s2\<lparr>svc := (svc s2)\<lparr>current_conn := Some c\<rparr>\<rparr>);
            s4 = invoke (BT (Conn_get_info c)) s3;
            rc = result E s4
        in if rc \<noteq> 0 then s4
           else
             let s5 = s4\<lparr>svc := (svc s4)\<lparr>active_local_id := word_of_int (outval E s4)\<rparr>\<rparr>
             in if int (unat (active_local_id (svc s5))) = getVisionId s5 then
                  let s6 = invoke (BT (Gatt_exchange_mtu c)) s5;
                      s7 = s6\<lparr>svc := (svc s6)\<lparr>bool_UserAuthorization := False\<rparr>\<rparr>
                  in invoke (K (Work_schedule W_authorisation (AUTHO_TOUT_TIME_SEC * 1000))) s7
                else s5)"

definition svc_disconnected :: "env \<Rightarrow> conn \<Rightarrow> 'a svc_sys_scheme \<Rightarrow> 'a svc_sys_scheme" where
  "svc_disconnected E c s =
     (let s1 = lock M_svc s;
          s2 = (if current_conn (svc s1) = Some c
                then let s' = invoke (BT (Conn_unref c)) s1 in s'\<lparr>svc := (svc s')\<lparr>current_conn := None\<rparr>\<rparr>
                else s1)
      in if int (unat (active_local_id (svc s2))) = getVisionId s2 then
           let need_interval_update = bool_AdvtIntervalUpdated (svc s2);
               s3 = s2\<lparr>svc := (svc s2)\<lparr>active_local_id := 0xFF, bool_AdvtIntervalUpdated := False,
                      bool_UserAuthorization := False\<rparr>\<rparr>;
               s4 = invoke (K (Work_cancel W_authorisation)) s3;
               s5 = unlock M_svc (invoke (K (Work_cancel W_connection)) s4);
               i = cd_AdvertismentInterval (conf s5);
               s6 = (if need_interval_update
                     then snd (ble_adv_custom_update_interval E (ucast i) (ucast i + 10) s5) else s5)
           in snd (ble_adv_custom_start E s6)
         else unlock M_svc s2)"

section \<open>Invariant\<close>

text \<open>References held on each connection: \<open>bt_conn_ref\<close> minus \<open>bt_conn_unref\<close>.\<close>

fun ref_step :: "(conn \<Rightarrow> int) \<Rightarrow> ev \<Rightarrow> (conn \<Rightarrow> int)" where
  "ref_step m (BT (Conn_ref c)) = m(c := m c + 1)"
| "ref_step m (BT (Conn_unref c)) = m(c := m c - 1)"
| "ref_step m e = m"

definition conn_refs :: "ev list \<Rightarrow> conn \<Rightarrow> int" where
  "conn_refs = foldl ref_step (\<lambda>_. 0)"

lemma conn_refs_append [simp]: "conn_refs (es @ fs) = foldl ref_step (conn_refs es) fs"
  by (simp add: conn_refs_def)

fun quiet :: "ev \<Rightarrow> bool" where
  "quiet (K (Mutex_lock m)) = False"
| "quiet (K (Mutex_unlock m)) = False"
| "quiet (BT (Conn_ref c)) = False"
| "quiet (BT (Conn_unref c)) = False"
| "quiet e = True"

lemma quiet_steps: "quiet e \<Longrightarrow> lock_step l e = l \<and> ref_step m e = m"
  by (cases "(l, e)" rule: lock_step.cases; cases "(m, e)" rule: ref_step.cases; simp)

text \<open>
  Buffer sizes and data sizes, no mutex held, and exactly one reference on the current
  connection, plus the references \<open>k\<close> that the running operation holds itself.
\<close>

definition held :: "svc_st \<Rightarrow> conn \<Rightarrow> int" where
  "held v c = (if current_conn v = Some c then 1 else 0)"

definition svc_core :: "(conn \<Rightarrow> int) \<Rightarrow> 'a svc_sys_scheme \<Rightarrow> bool" where
  "svc_core k s \<longleftrightarrow> wf_data s \<and> length (write_buffer (svc s)) = CUSTOM_MAX_DATA_LEN
     \<and> write_len (svc s) \<le> CUSTOM_MAX_DATA_LEN \<and> length (notify_buffer (svc s)) = CUSTOM_MAX_DATA_LEN
     \<and> locks (trace s) = Free \<and> conn_refs (trace s) = (\<lambda>c. held (svc s) c + k c)"

definition svc_settled :: "'a svc_sys_scheme \<Rightarrow> bool" where
  "svc_settled s \<longleftrightarrow> \<not> svc_ConfigDataWrite (svc s) \<and> \<not> svc_DynamicDataWrite (svc s)"

definition svc_inv :: "'a svc_sys_scheme \<Rightarrow> bool" where
  "svc_inv s \<longleftrightarrow> svc_core (\<lambda>_. 0) s \<and> svc_settled s"

lemma svc_core_invoke: "svc_core k s \<Longrightarrow> quiet e \<Longrightarrow> svc_core k (invoke e s)"
  by (simp add: svc_core_def wf_data_def quiet_steps)

lemma svc_core_frame:
  "svc_core k s \<Longrightarrow> gd t = gd s \<Longrightarrow> svc t = svc s \<Longrightarrow> locks (trace t) = locks (trace s) \<Longrightarrow>
   conn_refs (trace t) = conn_refs (trace s) \<Longrightarrow> svc_core k t"
  by (simp add: svc_core_def wf_data_def)

lemma svc_core_data:
  "svc_core k s \<Longrightarrow> wf_conf c \<Longrightarrow> svc_core k (set_ConfigData c s)"
  "svc_core k s \<Longrightarrow> svc_core k (set_DynamicData d s)"
  by (simp_all add: svc_core_def wf_data_def set_ConfigData_def set_DynamicData_def)

lemma svc_core_flags:
  "svc_core k s \<Longrightarrow> write_buffer v = write_buffer (svc s) \<Longrightarrow> write_len v = write_len (svc s) \<Longrightarrow>
   notify_buffer v = notify_buffer (svc s) \<Longrightarrow> current_conn v = current_conn (svc s) \<Longrightarrow>
   svc_core k (s\<lparr>svc := v\<rparr>)"
  by (simp add: svc_core_def wf_data_def held_def [abs_def])

lemma svc_core_halted [simp]: "svc_core k (s\<lparr>halted := h\<rparr>) = svc_core k s"
  by (simp add: svc_core_def wf_data_def)

lemma svc_core_wf: "svc_core k s \<Longrightarrow> wf_conf (conf s)"
  by (simp add: svc_core_def wf_data_def)

lemma gd_svc_update [simp]: "gd (s\<lparr>svc := v\<rparr>) = gd s" "trace (s\<lparr>svc := v\<rparr>) = trace s"
  by simp_all

lemma svc_core_ref: "svc_core k s \<Longrightarrow> svc_core (k(c := k c + 1)) (invoke (BT (Conn_ref c)) s)"
  by (auto simp: svc_core_def wf_data_def fun_eq_iff)

lemma svc_core_unref: "svc_core (k(c := k c + 1)) s \<Longrightarrow> svc_core k (invoke (BT (Conn_unref c)) s)"
  by (auto simp: svc_core_def wf_data_def fun_eq_iff)

lemma svc_core_disconnect: "svc_core k s \<Longrightarrow> svc_core k (snd (ble_custom_service_initiate_disconnect E s))"
  by (auto simp: ble_custom_service_initiate_disconnect_def Let_def svc_core_def wf_data_def fun_eq_iff
      split: option.splits)

lemma svc_core_notify:
  "svc_core k s \<Longrightarrow> svc_core k (snd (ble_custom_service_send_notification E co data s))"
  by (auto simp: ble_custom_service_send_notification_def Let_def svc_core_def wf_data_def length_put_at
      held_def [abs_def] split: option.splits)

lemma svc_core_uart: "svc_core k s \<Longrightarrow> svc_core k (snd (app_uart_disable E s))"
  by (auto simp: app_uart_disable_def Let_def svc_core_def wf_data_def)

lemma svc_core_restart: "svc_core k s \<Longrightarrow> svc_core k (app_graceful_self_restart E s)"
  by (simp add: app_graceful_self_restart_def sys_reboot_def Let_def case_prod_unfold
      svc_core_invoke svc_core_uart svc_core_disconnect)

lemma svc_core_time_sync: "svc_core k s \<Longrightarrow> svc_core k (app_time_sync_set_utc E t s)"
  by (simp add: app_time_sync_set_utc_def Let_def svc_core_def wf_data_def)

lemma svc_core_get_utc: "svc_core k s \<Longrightarrow> svc_core k (snd (app_time_get_utc_epoch E s))"
  by (simp add: app_time_get_utc_epoch_def Let_def svc_core_def wf_data_def)

lemma svc_core_dfu: "svc_core k s \<Longrightarrow> svc_core k (app_dfu_enter_mode_custom E s)"
  by (simp add: dfu_defs Let_def svc_core_def wf_data_def app_ui_state_change_indicate_def)

lemma svc_core_unauthorised: "svc_core k s \<Longrightarrow> svc_core k (snd (svc_unauthorised buf s))"
  by (auto simp: svc_unauthorised_def Let_def intro!: svc_core_invoke svc_core_flags)

lemma wf_conf_updates [simp]:
  "wf_conf (c\<lparr>cd_TimeZoneOffset := z\<rparr>) = wf_conf c" "wf_conf (c\<lparr>cd_AdvertismentInterval := v\<rparr>) = wf_conf c"
  "wf_conf (c\<lparr>cd_energy_save_para := p\<rparr>) = wf_conf c"
  by (simp_all add: wf_conf_def)

lemma svc_core_lock_pair:
  "svc_core k s \<Longrightarrow> svc_core k (unlock M_svc (lock M_svc s))"
  by (simp add: svc_core_def wf_data_def)

lemma svc_core_set_clock: "svc_core k s \<Longrightarrow> svc_core k (snd (svc_set_clock E buf s))"
  unfolding svc_set_clock_def Let_def snd_conv
  by (intro svc_core_time_sync svc_core_flags svc_core_data) (simp_all add: svc_core_wf)

lemma svc_core_set_adv_period: "svc_core k s \<Longrightarrow> svc_core k (snd (svc_set_adv_period buf s))"
  using svc_core_data(1) [of k s] svc_core_wf [of k s]
  by (auto simp: svc_set_adv_period_def Let_def svc_core_def wf_data_def held_def [abs_def])

lemma svc_core_set_energy: "svc_core k s \<Longrightarrow> svc_core k (snd (svc_set_energy_save buf s))"
  by (auto simp: svc_set_energy_save_def Let_def svc_core_wf intro!: svc_core_flags svc_core_data)

lemma svc_core_authorised: "svc_core k s \<Longrightarrow> svc_core k (snd (svc_authorised E buf s))"
  by (simp add: svc_authorised_def Let_def svc_core_set_clock svc_core_set_adv_period svc_core_set_energy
      svc_core_invoke svc_core_dfu svc_core_get_utc svc_read_time_def svc_read_association_def
      case_prod_unfold)

lemma svc_core_execute: "svc_core k s \<Longrightarrow> svc_core k (snd (svc_execute E buf s))"
  by (simp add: svc_execute_def svc_core_authorised svc_core_unauthorised)

lemma svc_core_flush: "svc_core k s \<Longrightarrow> svc_core k (svc_flush_writes E s)"
  by (simp add: svc_flush_writes_def write_nvs_data_def Let_def svc_core_invoke svc_core_flags)

lemma svc_core_finish:
  assumes "svc_core (k(c := k c + 1)) s"
  shows "svc_core k (svc_finish E c r s)"
proof -
  have "svc_core k (svc_flush_writes E (invoke (BT (Conn_unref c))
      (if re_bytes r \<noteq> [] then snd (ble_custom_service_send_notification E (Some c) (re_bytes r) s) else s)))"
    using assms by (intro svc_core_flush svc_core_unref) (simp add: svc_core_notify)
  then show ?thesis
    by (simp add: svc_finish_def Let_def svc_core_restart svc_core_disconnect svc_core_invoke)
qed

lemma svc_settled_frame:
  "svc_ConfigDataWrite (svc t) = svc_ConfigDataWrite (svc s) \<Longrightarrow>
   svc_DynamicDataWrite (svc t) = svc_DynamicDataWrite (svc s) \<Longrightarrow> svc_settled t = svc_settled s"
  by (simp add: svc_settled_def)

lemma svc_settled_invoke [simp]: "svc_settled (invoke e s) = svc_settled s"
  by (simp add: svc_settled_def)

lemma svc_uart_disable [simp]: "svc (snd (app_uart_disable E s)) = svc s"
  by (simp add: app_uart_disable_def Let_def)

lemma svc_initiate_disconnect [simp]: "svc (snd (ble_custom_service_initiate_disconnect E s)) = svc s"
  by (simp add: ble_custom_service_initiate_disconnect_def Let_def split: option.split)

lemma svc_settled_flush [simp]:
  "\<not> svc_ConfigDataWrite (svc (svc_flush_writes E s))" "\<not> svc_DynamicDataWrite (svc (svc_flush_writes E s))"
  by (simp_all add: svc_flush_writes_def write_nvs_data_def Let_def)

lemma svc_restart [simp]: "svc (app_graceful_self_restart E s) = svc s"
  by (simp add: app_graceful_self_restart_def sys_reboot_def Let_def case_prod_unfold)

lemma svc_settled_finish: "svc_settled (svc_finish E c r s)"
  by (simp add: svc_finish_def Let_def svc_settled_def)

text \<open>The two lemmas for an operation that holds one reference of its own.\<close>

lemma svc_core_own:
  "svc_core ((\<lambda>_. 0)(c := 1)) s \<Longrightarrow> svc_core (\<lambda>_. 0) (svc_finish E c r s)"
  "svc_core ((\<lambda>_. 0)(c := 1)) s \<Longrightarrow> svc_core (\<lambda>_. 0) (invoke (BT (Conn_unref c)) s)"
  using svc_core_finish [of "\<lambda>_. 0" c s E r] svc_core_unref [of "\<lambda>_. 0" c s] by simp_all

lemma svc_inv_parse:
  assumes "svc_inv s"
  shows "svc_inv (ble_parse_and_reply_work_handler E s)"
proof -
  define s1 where "s1 = lock M_svc s"
  define s2 where "s2 = (if 0 < write_len (svc s1) then s1\<lparr>svc := (svc s1)\<lparr>write_len := 0\<rparr>\<rparr> else s1)"
  have core: "svc_core (\<lambda>_. 0) (unlock M_svc s2)" and "svc_settled (unlock M_svc s2)"
    using assms by (auto simp: s1_def s2_def svc_inv_def svc_core_def wf_data_def held_def [abs_def] svc_settled_def)
  moreover have "svc_core ((\<lambda>_. 0)(c := 1)) (unlock M_svc (invoke (BT (Conn_ref c)) s2))" for c
    using core by (auto simp: s1_def s2_def svc_core_def wf_data_def fun_eq_iff split: if_splits)
  moreover have "svc_settled (unlock M_svc (invoke (BT (Conn_ref c)) s2))" for c
    using \<open>svc_settled (unlock M_svc s2)\<close> by (simp add: svc_settled_def)
  ultimately show ?thesis
    unfolding ble_parse_and_reply_work_handler_def Let_def s1_def [symmetric] s2_def [symmetric]
    by (auto simp: svc_inv_def svc_settled_finish case_prod_unfold svc_core_own svc_core_execute split: option.split)
qed

lemma svc_core_adv:
  "svc_core k s \<Longrightarrow> svc_core k (snd (ble_adv_custom_start E s))"
  "svc_core k s \<Longrightarrow> svc_core k (snd (ble_adv_custom_update_interval E a b s))"
  by (auto simp: ble_adv_custom_start_def ble_adv_custom_update_interval_def Let_def svc_core_def wf_data_def
      split: option.splits)

lemma svc_adv_frame [simp]:
  "svc (snd (ble_adv_custom_start E s)) = svc s"
  "svc (snd (ble_adv_custom_update_interval E a b s)) = svc s"
  by (simp_all add: ble_adv_custom_start_def ble_adv_custom_update_interval_def Let_def split: option.split)

lemma svc_inv_connected:
  assumes "svc_inv s" "err = 0 \<longrightarrow> current_conn (svc s) = None"
  shows "svc_inv (svc_connected E c err s)"
proof (cases "err = 0")
  case True
  define s3 where "s3 = unlock M_svc ((invoke (BT (Conn_ref c)) (lock M_svc s))\<lparr>svc := (svc s)\<lparr>current_conn := Some c\<rparr>\<rparr>)"
  have "svc_core (\<lambda>_. 0) s3" "svc_settled s3"
    using assms True by (auto simp: s3_def svc_inv_def svc_core_def wf_data_def svc_settled_def held_def fun_eq_iff)
  then show ?thesis
    using True
    by (simp add: svc_connected_def Let_def svc_inv_def svc_settled_def flip: s3_def)
      (auto intro!: svc_core_invoke svc_core_flags)
qed (simp add: svc_connected_def assms(1))

lemma svc_inv_disconnected:
  assumes "svc_inv s"
  shows "svc_inv (svc_disconnected E c s)"
proof -
  define s2 where "s2 = (if current_conn (svc s) = Some c
    then (invoke (BT (Conn_unref c)) (lock M_svc s))\<lparr>svc := (svc s)\<lparr>current_conn := None\<rparr>\<rparr> else lock M_svc s)"
  define s5 where "s5 = unlock M_svc (invoke (K (Work_cancel W_connection)) (invoke (K (Work_cancel W_authorisation))
    (s2\<lparr>svc := (svc s2)\<lparr>active_local_id := 0xFF, bool_AdvtIntervalUpdated := False, bool_UserAuthorization := False\<rparr>\<rparr>)))"
  have u: "svc_core (\<lambda>_. 0) (unlock M_svc s2)" "svc_settled (unlock M_svc s2)"
    and 5: "svc_core (\<lambda>_. 0) s5" "svc_settled s5"
    using assms by (auto simp: s2_def s5_def svc_inv_def svc_core_def wf_data_def svc_settled_def held_def fun_eq_iff)
  have "svc_disconnected E c s =
    (if int (unat (active_local_id (svc s2))) = getVisionId s2 then
       snd (ble_adv_custom_start E (if bool_AdvtIntervalUpdated (svc s2)
         then snd (ble_adv_custom_update_interval E (ucast (cd_AdvertismentInterval (conf s5)))
                (ucast (cd_AdvertismentInterval (conf s5)) + 10) s5) else s5))
     else unlock M_svc s2)"
    by (simp add: svc_disconnected_def Let_def s2_def s5_def)
  then show ?thesis
    using u 5 by (simp add: svc_inv_def svc_settled_def svc_core_adv)
qed

datatype svc_ev = SE_init | SE_write bytes nat | SE_read nat nat | SE_ccc u16 | SE_work
  | SE_auth_timeout | SE_conn_timeout | SE_connected conn nat | SE_disconnected conn

fun svc_do :: "env \<Rightarrow> svc_ev \<Rightarrow> 'a svc_sys_scheme \<Rightarrow> 'a svc_sys_scheme" where
  "svc_do E SE_init s = snd (ble_custom_service_init s)"
| "svc_do E (SE_write buf offset) s = snd (write_incoming_char buf offset s)"
| "svc_do E (SE_read len offset) s = snd (read_notify_char E len offset s)"
| "svc_do E (SE_ccc v) s = cccd_changed_cb v s"
| "svc_do E SE_work s = ble_parse_and_reply_work_handler E s"
| "svc_do E SE_auth_timeout s = authorisation_timout_work_handler E s"
| "svc_do E SE_conn_timeout s = connection_timout_work_handler E s"
| "svc_do E (SE_connected c err) s = svc_connected E c err s"
| "svc_do E (SE_disconnected c) s = svc_disconnected E c s"

text \<open>One connection at a time.\<close>

fun svc_ok :: "svc_ev \<Rightarrow> 'a svc_sys_scheme \<Rightarrow> bool" where
  "svc_ok (SE_connected c err) s = (err \<noteq> 0 \<or> current_conn (svc s) = None)"
| "svc_ok _ s = True"

lemma svc_inv_callbacks:
  assumes "svc_inv s"
  shows "svc_inv (snd (ble_custom_service_init s))" "svc_inv (snd (write_incoming_char buf offset s))"
    "svc_inv (snd (read_notify_char E len offset s))" "svc_inv (cccd_changed_cb v s)"
  using assms
  by (auto simp: ble_custom_service_init_def write_incoming_char_def read_notify_char_def cccd_changed_cb_def
      svc_inv_def svc_core_def wf_data_def svc_settled_def held_def [abs_def] length_put_at Let_def)

lemma svc_inv_initiate: "svc_inv s \<Longrightarrow> svc_inv (snd (ble_custom_service_initiate_disconnect E s))"
  by (simp add: svc_inv_def svc_core_disconnect svc_settled_def)

interpretation svcm: invariant_machine "svc_do E" svc_ok svc_inv for E
proof
  fix s :: "'a svc_sys_scheme" and e
  assume "svc_inv s" "svc_ok e s"
  then show "svc_inv (svc_do E e s)"
    by (cases e) (auto simp: svc_inv_callbacks svc_inv_initiate svc_inv_parse svc_inv_connected svc_inv_disconnected
        authorisation_timout_work_handler_def connection_timout_work_handler_def)
qed

section \<open>The end of a Vision session\<close>

definition close_calls :: "svc_st \<Rightarrow> conn \<Rightarrow> ev list" where
  "close_calls v c = K (Mutex_lock M_svc) # (if current_conn v = Some c then [BT (Conn_unref c)] else [])
     @ [K (Work_cancel W_authorisation), K (Work_cancel W_connection), K (Mutex_unlock M_svc)]"

lemma svc_disconnected_vision:
  assumes "int (unat (active_local_id (svc s))) = Vision_id (adv s)"
  shows "\<exists>t. svc_disconnected E c s = snd (ble_adv_custom_start E (if bool_AdvtIntervalUpdated (svc s)
         then snd (ble_adv_custom_update_interval E (ucast (cd_AdvertismentInterval (conf s)))
                (ucast (cd_AdvertismentInterval (conf s)) + 10) t) else t))
    \<and> gd t = gd s \<and> adv t = adv s \<and> tm t = tm s \<and> \<not> bool_UserAuthorization (svc t)
    \<and> active_local_id (svc t) = 0xFF \<and> trace t = trace s @ close_calls (svc s) c"
proof -
  define s2 where "s2 = (if current_conn (svc s) = Some c
    then (invoke (BT (Conn_unref c)) (lock M_svc s))\<lparr>svc := (svc s)\<lparr>current_conn := None\<rparr>\<rparr> else lock M_svc s)"
  have 2: "gd s2 = gd s" "adv s2 = adv s" "tm s2 = tm s" "active_local_id (svc s2) = active_local_id (svc s)"
    "bool_AdvtIntervalUpdated (svc s2) = bool_AdvtIntervalUpdated (svc s)"
    "trace s2 = trace s @ K (Mutex_lock M_svc) # (if current_conn (svc s) = Some c then [BT (Conn_unref c)] else [])"
    by (simp_all add: s2_def)
  show ?thesis
    using assms 2
    by (intro exI [of _ "unlock M_svc (invoke (K (Work_cancel W_connection)) (invoke (K (Work_cancel W_authorisation))
        (s2\<lparr>svc := (svc s2)\<lparr>active_local_id := 0xFF, bool_AdvtIntervalUpdated := False, bool_UserAuthorization := False\<rparr>\<rparr>)))"])
      (cases "current_conn (svc s) = Some c";
       simp add: svc_disconnected_def Let_def getVisionId_def close_calls_def s2_def)
qed

lemma adv_calls_extend:
  "set (trace s) \<subseteq> set (trace (snd (ble_adv_custom_start E s)))"
  "set (trace s) \<subseteq> set (trace (snd (ble_adv_custom_update_interval E a b s)))"
  by (auto simp: ble_adv_custom_start_def ble_adv_custom_update_interval_def Let_def split: option.splits)

lemma disconnected_locks_session:
  assumes "int (unat (active_local_id (svc s))) = Vision_id (adv s)"
  shows "\<not> bool_UserAuthorization (svc (svc_disconnected E c s))"
    and "{K (Work_cancel W_authorisation), K (Work_cancel W_connection)} \<subseteq> set (trace (svc_disconnected E c s))"
proof -
  obtain t where t: "svc_disconnected E c s = snd (ble_adv_custom_start E (if bool_AdvtIntervalUpdated (svc s)
         then snd (ble_adv_custom_update_interval E (ucast (cd_AdvertismentInterval (conf s)))
                (ucast (cd_AdvertismentInterval (conf s)) + 10) t) else t))"
    "\<not> bool_UserAuthorization (svc t)" "trace t = trace s @ close_calls (svc s) c"
    using svc_disconnected_vision [OF assms, of E c] by blast
  show "\<not> bool_UserAuthorization (svc (svc_disconnected E c s))" using t(1,2) by simp
  have "{K (Work_cancel W_authorisation), K (Work_cancel W_connection)} \<subseteq> set (trace t)"
    by (simp add: t(3) close_calls_def)
  then show "{K (Work_cancel W_authorisation), K (Work_cancel W_connection)} \<subseteq> set (trace (svc_disconnected E c s))"
    unfolding t(1) using adv_calls_extend by (auto split: if_splits) blast+
qed

section \<open>Refusal\<close>

text \<open>The command in the buffer, as the parser copies it.\<close>

definition pending_command :: "'a svc_sys_scheme \<Rightarrow> bytes" where
  "pending_command s = put_at 0 (take (write_len (svc s)) (write_buffer (svc s))) (replicate CUSTOM_MAX_DATA_LEN 0)"

definition is_login :: "st_ProductionData \<Rightarrow> bytes \<Rightarrow> bool" where
  "is_login p buf \<longleftrightarrow> buf ! 0 = PROVIDE_PASSWORD \<and> get_at 1 MAX_PASSWORD_SIZE buf = pd_Password p"

text \<open>What a refused command does to the state: the firmware's data and modes are untouched.\<close>

definition same_app :: "'a svc_sys_scheme \<Rightarrow> 'a svc_sys_scheme \<Rightarrow> bool" where
  "same_app s t \<longleftrightarrow> gd t = gd s \<and> adv t = adv s \<and> tm t = tm s \<and> ua t = ua s \<and> ui t = ui s \<and> dfu t = dfu s
     \<and> halted t = halted s \<and> bool_UserAuthorization (svc t) = bool_UserAuthorization (svc s)
     \<and> current_conn (svc t) = current_conn (svc s)"

fun harmless :: "conn \<Rightarrow> ev \<Rightarrow> bool" where
  "harmless c (DEV d) = False"
| "harmless c (FP f) = False"
| "harmless c (Assert_fail w) = False"
| "harmless c (K (Mutex_lock m)) = (m = M_svc)"
| "harmless c (K (Mutex_unlock m)) = (m = M_svc)"
| "harmless c (K (Work_cancel w)) = (w \<in> {W_authorisation, W_connection})"
| "harmless c (K (Sleep_ms n)) = True"
| "harmless c (K _) = False"
| "harmless c (BT (Gatt_notify d bs)) = (d = c \<and> length bs = 2 \<and> hd bs = FAIL)"
| "harmless c (BT (Gatt_get_mtu d)) = (d = c)"
| "harmless c (BT (Conn_ref d)) = (d = c)"
| "harmless c (BT (Conn_unref d)) = (d = c)"
| "harmless c (BT (Conn_disconnect d)) = (d = c)"
| "harmless c (BT _) = False"

definition extends_by :: "(ev \<Rightarrow> bool) \<Rightarrow> 'a io_scheme \<Rightarrow> 'a io_scheme \<Rightarrow> bool" where
  "extends_by P s t \<longleftrightarrow> (\<exists>es. trace t = trace s @ es \<and> list_all P es)"

lemma extends_by_trans: "extends_by P s t \<Longrightarrow> extends_by P t u \<Longrightarrow> extends_by P s u"
  by (auto simp: extends_by_def)

lemma extends_byI: "trace t = trace s @ es \<Longrightarrow> list_all P es \<Longrightarrow> extends_by P s t"
  by (auto simp: extends_by_def)

lemma same_app_trans: "same_app s t \<Longrightarrow> same_app t u \<Longrightarrow> same_app s u"
  by (simp add: same_app_def)

lemma notify_refusal:
  "same_app s (snd (ble_custom_service_send_notification E (Some c) [FAIL, r] s))"
  "extends_by (harmless c) s (snd (ble_custom_service_send_notification E (Some c) [FAIL, r] s))"
  "svc_settled s \<Longrightarrow> svc_settled (snd (ble_custom_service_send_notification E (Some c) [FAIL, r] s))"
  by (auto simp: ble_custom_service_send_notification_def same_app_def extends_by_def svc_settled_def Let_def)

lemma initiate_effect:
  assumes "current_conn (svc s) = Some c"
  shows "same_app s (snd (ble_custom_service_initiate_disconnect E s))"
    and "trace (snd (ble_custom_service_initiate_disconnect E s)) = trace s @ [K (Mutex_lock M_svc), BT (Conn_ref c),
      K (Mutex_unlock M_svc), K (Sleep_ms 20), BT (Conn_disconnect c), BT (Conn_unref c)]"
  using assms by (simp_all add: ble_custom_service_initiate_disconnect_def same_app_def Let_def)

lemma refuse_finish:
  assumes "svc_settled s" "current_conn (svc s) = Some c"
  shows "same_app s (svc_finish E c (refuse r) s)" "extends_by (harmless c) s (svc_finish E c (refuse r) s)"
    "BT (Conn_disconnect c) \<in> set (trace (svc_finish E c (refuse r) s))"
proof -
  define s1 where "s1 = snd (ble_custom_service_send_notification E (Some c) [FAIL, r] s)"
  define s4 where "s4 = invoke (K (Sleep_ms 60)) (invoke (K (Work_cancel W_connection)) (invoke (BT (Conn_unref c)) s1))"
  have 1: "same_app s s1" "extends_by (harmless c) s s1" "svc_settled s1"
    unfolding s1_def using notify_refusal assms(1) by blast+
  have 4: "same_app s1 s4" "extends_by (harmless c) s1 s4" "current_conn (svc s4) = Some c"
    using assms(2) 1(1) by (auto simp: s4_def same_app_def extends_by_def)
  have fin: "svc_finish E c (refuse r) s = snd (ble_custom_service_initiate_disconnect E s4)"
    using 1(3) by (simp add: svc_finish_def refuse_def Let_def s1_def s4_def svc_flush_writes_def svc_settled_def)
  have 5: "extends_by (harmless c) s4 (svc_finish E c (refuse r) s)"
    by (rule extends_byI, simp add: fin initiate_effect(2) [OF 4(3)]) simp
  show "same_app s (svc_finish E c (refuse r) s)"
    using same_app_trans [OF same_app_trans [OF 1(1) 4(1)]] initiate_effect(1) [OF 4(3)] by (simp add: fin)
  show "extends_by (harmless c) s (svc_finish E c (refuse r) s)"
    using extends_by_trans [OF extends_by_trans [OF 1(2) 4(2)] 5] .
  show "BT (Conn_disconnect c) \<in> set (trace (svc_finish E c (refuse r) s))"
    by (simp add: fin initiate_effect(2) [OF 4(3)])
qed

lemma unauthorised_refused:
  assumes "\<not> is_login (prod s) buf" "svc_settled s"
  shows "\<exists>r t. svc_unauthorised buf s = (refuse r, t) \<and> same_app s t \<and> svc_settled t
    \<and> extends_by (harmless c) s t"
  using assms by (auto simp: svc_unauthorised_def is_login_def same_app_def extends_by_def)

lemma parse_refused:
  fixes E
  assumes "svc_inv s" "\<not> bool_UserAuthorization (svc s)" "\<not> is_login (prod s) (pending_command s)"
    and "current_conn (svc s) = Some c" "0 < write_len (svc s)"
  defines "s' \<equiv> ble_parse_and_reply_work_handler E s"
  shows "same_app s s'" "extends_by (harmless c) s s'" "BT (Conn_disconnect c) \<in> set (trace s')"
proof -
  define s4 where "s4 = unlock M_svc (invoke (BT (Conn_ref c)) ((lock M_svc s)\<lparr>svc := (svc s)\<lparr>write_len := 0\<rparr>\<rparr>))"
  have 4: "same_app s s4" "extends_by (harmless c) s s4" "svc_settled s4" "current_conn (svc s4) = Some c"
    using assms(1,4) by (auto simp: s4_def same_app_def extends_by_def svc_inv_def svc_settled_def)
  have nologin: "\<not> is_login (prod s4) (pending_command s)" using assms(3) 4(1) by (simp add: same_app_def)
  obtain r t where t: "svc_unauthorised (pending_command s) s4 = (refuse r, t)" "same_app s4 t" "svc_settled t"
    and et: "extends_by (harmless c) s4 t"
    using unauthorised_refused [OF nologin 4(3)] by blast
  have ct: "current_conn (svc t) = Some c" using t(2) 4(4) by (simp add: same_app_def)
  have "bool_UserAuthorization (svc s4) = bool_UserAuthorization (svc s)" using 4(1) by (simp add: same_app_def)
  then have s': "s' = svc_finish E c (refuse r) t"
    using assms(2,4,5) t(1)
    by (simp add: s'_def ble_parse_and_reply_work_handler_def Let_def svc_execute_def pending_command_def
        flip: s4_def)
  note fin = refuse_finish [OF t(3) ct, of E r]
  show "same_app s s'"
    using same_app_trans [OF same_app_trans [OF 4(1) t(2)] fin(1)] by (simp add: s')
  show "extends_by (harmless c) s s'"
    using extends_by_trans [OF extends_by_trans [OF 4(2) et] fin(2)] by (simp add: s')
  show "BT (Conn_disconnect c) \<in> set (trace s')" using fin(3) by (simp add: s')
qed

section \<open>Replies\<close>

text \<open>
  The format of an answer: a status byte, two bytes when it is a failure, at most 14 bytes;
  the link is closed on every failure but the unset clock, and for a restart.
\<close>

definition reply_ok :: "reply \<Rightarrow> bool" where
  "reply_ok r \<longleftrightarrow> re_bytes r \<noteq> [] \<and> length (re_bytes r) \<le> 14
     \<and> hd (re_bytes r) \<in> {FAIL, SUCCESS}
     \<and> (hd (re_bytes r) = FAIL \<longrightarrow> length (re_bytes r) = 2 \<and> (re_disconnect r \<or> re_bytes r ! 1 = INVALID_RTC))
     \<and> (re_restart r \<longrightarrow> hd (re_bytes r) = SUCCESS \<and> re_disconnect r)"

lemma reply_ok_simps [simp]:
  "reply_ok (refuse r)" "reply_ok (answer (SUCCESS # bs)) \<longleftrightarrow> length bs \<le> 13"
  "reply_ok (answer [FAIL, INVALID_RTC])"
  "reply_ok \<lparr>re_bytes = [SUCCESS], re_disconnect = True, re_restart = True\<rparr>"
  by (auto simp: reply_ok_def answer_def refuse_def FAIL_def SUCCESS_def)

lemma reply_ok_authorised: "wf_data s \<Longrightarrow> reply_ok (fst (svc_authorised E buf s))"
  by (simp add: svc_authorised_def Let_def svc_set_clock_def svc_read_time_def svc_read_association_def
      svc_set_adv_period_def svc_set_energy_save_def svc_read_energy_save_def svc_read_mac_def
      get_factory_mac_copy_def wf_data_def len_defs case_prod_unfold)

lemma reply_ok_unauthorised: "reply_ok (fst (svc_unauthorised buf s))"
  by (simp add: svc_unauthorised_def Let_def)

section \<open>Properties\<close>

definition svc_init_state :: svc_sys where
  "svc_init_state = dfu_sys.extend dfu_init_state \<lparr>svc = svc_st_init\<rparr>"

lemma svc_init_simps [simp]: "trace svc_init_state = []" "gd svc_init_state = blank_gst" "svc svc_init_state = svc_st_init"
  "adv svc_init_state = adv_st_init" "halted svc_init_state = None"
  by (simp_all add: svc_init_state_def dfu_init_state_def ui_init_state_def uart_init_state_def
      dfu_sys.extend_def ui_sys.extend_def uart_sys.extend_def)

lemma svc_init_inv [simp]: "svc_inv svc_init_state"
  using wf_data_init
  by (simp add: svc_inv_def svc_core_def wf_data_def data_init_def svc_st_init_def held_def svc_settled_def
      conn_refs_def CUSTOM_MAX_DATA_LEN_def)

text \<open>
  C5: No command without the password.  When the session is not authorised and the buffered
  command is anything but the login with the stored password, processing it leaves the
  persistent data, the clock, the advertiser, the UART, the UI, the DFU mode and the
  authorisation itself as they were, does not restart the device, writes nothing to flash,
  answers at most with two-byte failures, only to that client, and asks for its
  disconnection.
\<close>

theorem svc_locked_without_password:
  fixes E
  assumes "svc_inv s" "\<not> bool_UserAuthorization (svc s)" "\<not> is_login (prod s) (pending_command s)"
    and "current_conn (svc s) = Some c" "0 < write_len (svc s)"
  defines "s' \<equiv> ble_parse_and_reply_work_handler E s"
  shows "gd s' = gd s \<and> tm s' = tm s \<and> adv s' = adv s \<and> ua s' = ua s \<and> ui s' = ui s \<and> dfu s' = dfu s
    \<and> \<not> bool_UserAuthorization (svc s') \<and> halted s' = halted s
    \<and> extends_by (harmless c) s s' \<and> BT (Conn_disconnect c) \<in> set (trace s')"
  using parse_refused [OF assms(1-5), of E] assms(2) by (simp add: s'_def same_app_def)

definition locked_out_state :: svc_sys where
  "locked_out_state = run (svc_do (const_env 0)) [SE_connected 7 0, SE_ccc 1, SE_write [RESTART_DEVICE] 0] svc_init_state"

lemma locked_out_svc:
  "svc locked_out_state = svc_st_init\<lparr>current_conn := Some 7, active_local_id := 0, is_notifying_enabled := True,
     write_buffer := RESTART_DEVICE # replicate 239 0, write_len := 1\<rparr>"
  by (simp add: locked_out_state_def svc_connected_def cccd_changed_cb_def write_incoming_char_def Let_def
      result_def outval_def const_env_def svc_st_init_def getVisionId_def adv_st_init_def put_at_def
      CUSTOM_MAX_DATA_LEN_def BT_GATT_CCC_NOTIFY_def drop_Cons' numeral_eq_Suc)

lemma locked_out_inv: "svc_inv locked_out_state"
  unfolding locked_out_state_def
  by (rule svcm.run_inv [OF svc_init_inv]) (simp add: svc_st_init_def cccd_changed_cb_def)

lemma locked_out_gd: "gd locked_out_state = blank_gst"
  by (simp add: locked_out_state_def svc_connected_def cccd_changed_cb_def write_incoming_char_def Let_def
      result_def outval_def const_env_def svc_st_init_def getVisionId_def adv_st_init_def)

theorem svc_locked_without_password_witness:
  "BT (Conn_disconnect 7) \<in> set (trace (ble_parse_and_reply_work_handler (const_env 0) locked_out_state))
   \<and> gd (ble_parse_and_reply_work_handler (const_env 0) locked_out_state) = blank_gst"
proof -
  have "\<not> is_login (prod locked_out_state) (pending_command locked_out_state)"
    by (simp add: is_login_def pending_command_def locked_out_svc put_at_def command_defs)
  then show ?thesis
    using svc_locked_without_password [OF locked_out_inv, of 7 "const_env 0"]
    by (simp add: locked_out_svc locked_out_gd svc_st_init_def)
qed



definition id_env :: "int \<Rightarrow> env" where
  "id_env i = (const_env 0)\<lparr>out := (\<lambda>_. i)\<rparr>"

definition vision_state :: "int \<Rightarrow> svc_sys" where
  "vision_state i = svc_init_state\<lparr>adv := adv_st_init\<lparr>Vision_id := i\<rparr>\<rparr>"

lemma vision_state_simps [simp]:
  "svc (vision_state i) = svc_st_init" "Vision_id (adv (vision_state i)) = i" "gd (vision_state i) = blank_gst"
  "halted (vision_state i) = None"
  by (simp_all add: vision_state_def)

lemma id_env_simps [simp]: "ret (id_env i) t = 0" "out (id_env i) t = i"
  by (simp_all add: id_env_def const_env_def)

text \<open>The sessions of a client on an identity \<open>j\<close> that is not the Vision identity.\<close>

definition on_identity :: "env \<Rightarrow> conn \<Rightarrow> int \<Rightarrow> bool" where
  "on_identity E d j \<longleftrightarrow> 0 \<le> j \<and> j < 256
     \<and> (\<forall>es. ret E (es @ [BT (Conn_get_info d)]) = 0 \<and> out E (es @ [BT (Conn_get_info d)]) = j)"

lemma connect_other:
  assumes "on_identity E d j" "j \<noteq> Vision_id (adv s)"
  shows "svc (svc_connected E d 0 s) = (svc s)\<lparr>current_conn := Some d, active_local_id := word_of_int j\<rparr>"
    "adv (svc_connected E d 0 s) = adv s" "gd (svc_connected E d 0 s) = gd s" "halted (svc_connected E d 0 s) = halted s"
    "trace (svc_connected E d 0 s) = trace s @ [K (Mutex_lock M_svc), BT (Conn_ref d), K (Mutex_unlock M_svc), BT (Conn_get_info d)]"
    "int (unat (active_local_id (svc (svc_connected E d 0 s)))) = j"
proof -
  have "int (unat (word_of_int j :: u8)) = j"
    using assms(1) by (simp add: on_identity_def unsigned_of_int take_bit_int_eq_self)
  then show "svc (svc_connected E d 0 s) = (svc s)\<lparr>current_conn := Some d, active_local_id := word_of_int j\<rparr>"
    "adv (svc_connected E d 0 s) = adv s" "gd (svc_connected E d 0 s) = gd s" "halted (svc_connected E d 0 s) = halted s"
    "trace (svc_connected E d 0 s) = trace s @ [K (Mutex_lock M_svc), BT (Conn_ref d), K (Mutex_unlock M_svc), BT (Conn_get_info d)]"
    "int (unat (active_local_id (svc (svc_connected E d 0 s)))) = j"
    using assms by (simp_all add: on_identity_def svc_connected_def Let_def result_def outval_def getVisionId_def lock_def unlock_def)
qed

lemma disconnect_other:
  assumes "int (unat (active_local_id (svc s))) \<noteq> Vision_id (adv s)"
  shows "svc (svc_disconnected E c s) = (svc s)\<lparr>current_conn := (if current_conn (svc s) = Some c then None else current_conn (svc s))\<rparr>"
    "adv (svc_disconnected E c s) = adv s" "gd (svc_disconnected E c s) = gd s" "halted (svc_disconnected E c s) = halted s"
    "trace (svc_disconnected E c s) = trace s @ [K (Mutex_lock M_svc)]
       @ (if current_conn (svc s) = Some c then [BT (Conn_unref c)] else []) @ [K (Mutex_unlock M_svc)]"
  using assms by (simp_all add: svc_disconnected_def Let_def getVisionId_def lock_def unlock_def)

lemma write_whole [simp]:
  assumes "write_len (svc s) = 0" "0 < length buf" "length buf \<le> 240"
  shows "svc (snd (write_incoming_char buf 0 s))
      = (svc s)\<lparr>write_buffer := put_at 0 buf (write_buffer (svc s)), write_len := length buf\<rparr>"
    "adv (snd (write_incoming_char buf 0 s)) = adv s" "gd (snd (write_incoming_char buf 0 s)) = gd s"
    "halted (snd (write_incoming_char buf 0 s)) = halted s"
  using assms by (simp_all add: write_incoming_char_def Let_def CUSTOM_MAX_DATA_LEN_def)

lemma notify_svc:
  "current_conn (svc (snd (ble_custom_service_send_notification E co d s))) = current_conn (svc s)
   \<and> bool_UserAuthorization (svc (snd (ble_custom_service_send_notification E co d s))) = bool_UserAuthorization (svc s)
   \<and> active_local_id (svc (snd (ble_custom_service_send_notification E co d s))) = active_local_id (svc s)
   \<and> write_len (svc (snd (ble_custom_service_send_notification E co d s))) = write_len (svc s)
   \<and> adv (snd (ble_custom_service_send_notification E co d s)) = adv s
   \<and> gd (snd (ble_custom_service_send_notification E co d s)) = gd s
   \<and> halted (snd (ble_custom_service_send_notification E co d s)) = halted s"
  by (simp add: ble_custom_service_send_notification_def Let_def split: option.split)

lemma flush_svc:
  "current_conn (svc (svc_flush_writes E s)) = current_conn (svc s)
   \<and> bool_UserAuthorization (svc (svc_flush_writes E s)) = bool_UserAuthorization (svc s)
   \<and> active_local_id (svc (svc_flush_writes E s)) = active_local_id (svc s)
   \<and> write_len (svc (svc_flush_writes E s)) = write_len (svc s)
   \<and> adv (svc_flush_writes E s) = adv s \<and> gd (svc_flush_writes E s) = gd s
   \<and> halted (svc_flush_writes E s) = halted s"
  by (simp add: svc_flush_writes_def write_nvs_data_def Let_def)

lemma work_login:
  fixes E
  assumes "current_conn (svc s) = Some c" "0 < write_len (svc s)" "\<not> bool_UserAuthorization (svc s)"
    and "is_login (prod s) (pending_command s)"
  defines "t \<equiv> ble_parse_and_reply_work_handler E s"
  shows "bool_UserAuthorization (svc t)" "current_conn (svc t) = Some c" "write_len (svc t) = 0"
    "active_local_id (svc t) = active_local_id (svc s)" "adv t = adv s" "gd t = gd s" "halted t = halted s"
  using assms
  by (simp_all add: ble_parse_and_reply_work_handler_def Let_def svc_execute_def svc_unauthorised_def
      is_login_def pending_command_def svc_finish_def answer_def notify_svc flush_svc)

lemma work_restart:
  assumes "current_conn (svc s) = Some c" "0 < write_len (svc s)" "bool_UserAuthorization (svc s)"
    and "pending_command s ! 0 = RESTART_DEVICE"
  shows "halted (ble_parse_and_reply_work_handler E s) = Some Rebooted"
  using assms
  by (simp add: ble_parse_and_reply_work_handler_def Let_def svc_execute_def svc_authorised_def
      pending_command_def svc_finish_def command_defs app_graceful_self_restart_def sys_reboot_def case_prod_unfold)

lemma first_byte: "0 < length buf \<Longrightarrow> put_at 0 (take (length buf) (put_at 0 buf wb)) z ! 0 = buf ! 0"
  by (simp add: put_at_def nth_append)

text \<open>
  C21: A hole in the sessions.  The authorisation is only reset for the Vision identity.  A
  client that is connected on another identity of the device and logs in leaves the service
  authorised after its disconnection: the next client on such an identity is authorised at
  once and, for instance, restarts the device without any password.
\<close>

theorem svc_authorisation_survives_other_identity:
  fixes E and s :: "'a svc_sys_scheme"
  assumes "current_conn (svc s) = Some c" and "\<not> bool_UserAuthorization (svc s)"
    and "0 < write_len (svc s)" and "is_login (prod s) (pending_command s)"
    and "int (unat (active_local_id (svc s))) \<noteq> Vision_id (adv s)"
    and "on_identity E d j" and "j \<noteq> Vision_id (adv s)"
    and "buf \<noteq> []" and "hd buf = RESTART_DEVICE" and "length buf \<le> CUSTOM_MAX_DATA_LEN"
  defines "u \<equiv> svc_disconnected E c (ble_parse_and_reply_work_handler E s)"
  defines "v \<equiv> snd (write_incoming_char buf 0 (svc_connected E d 0 u))"
  shows "current_conn (svc u) = None \<and> bool_UserAuthorization (svc u)
    \<and> current_conn (svc v) = Some d \<and> bool_UserAuthorization (svc v)
    \<and> halted (ble_parse_and_reply_work_handler E v) = Some Rebooted"
proof -
  note t = work_login [OF assms(1,3,2,4), of E]
  have u: "svc u = (svc (ble_parse_and_reply_work_handler E s))\<lparr>current_conn := None\<rparr>" "adv u = adv s"
    using t assms(5) by (simp_all add: u_def disconnect_other)
  have w: "svc (svc_connected E d 0 u) = (svc u)\<lparr>current_conn := Some d, active_local_id := word_of_int j\<rparr>"
    using assms(6,7) u(2) by (simp add: connect_other)
  have v: "svc v = (svc u)\<lparr>current_conn := Some d, active_local_id := word_of_int j,
      write_buffer := put_at 0 buf (write_buffer (svc u)), write_len := length buf\<rparr>"
    using t(3) u(1) w assms(8,10) by (simp add: v_def write_whole CUSTOM_MAX_DATA_LEN_def)
  have "halted (ble_parse_and_reply_work_handler E v) = Some Rebooted"
    using assms(8,9) t(1) by (intro work_restart [of _ d]) (simp_all add: v u(1) pending_command_def first_byte hd_conv_nth)
  then show ?thesis using t(1) by (simp add: u(1) v)
qed

theorem svc_authorisation_survives_other_identity_witness:
  "let E = id_env 1;
       s = snd (write_incoming_char (PROVIDE_PASSWORD # replicate 16 0) 0 (svc_connected E 7 0 (vision_state 2)));
       u = svc_disconnected E 7 (ble_parse_and_reply_work_handler E s)
   in bool_UserAuthorization (svc u) \<and> current_conn (svc u) = None
      \<and> halted (ble_parse_and_reply_work_handler E (snd (write_incoming_char [RESTART_DEVICE] 0 (svc_connected E 8 0 u)))) = Some Rebooted"
proof -
  let ?E = "id_env 1" and ?pw = "PROVIDE_PASSWORD # replicate 16 (0 :: u8)"
  define s where "s = snd (write_incoming_char ?pw 0 (svc_connected ?E 7 0 (vision_state 2)))"
  have o: "on_identity ?E d 1" for d by (simp add: on_identity_def)
  have c: "svc (svc_connected ?E 7 0 (vision_state 2)) = svc_st_init\<lparr>current_conn := Some 7, active_local_id := 1\<rparr>"
    "adv (svc_connected ?E 7 0 (vision_state 2)) = adv (vision_state 2)" "gd (svc_connected ?E 7 0 (vision_state 2)) = blank_gst"
    using connect_other [OF o, of "vision_state 2" 7] by simp_all
  have s: "svc s = svc_st_init\<lparr>current_conn := Some 7, active_local_id := 1,
      write_buffer := put_at 0 ?pw (replicate CUSTOM_MAX_DATA_LEN 0), write_len := 17\<rparr>" "Vision_id (adv s) = 2" "gd s = blank_gst"
    by (simp_all add: s_def c svc_st_init_def write_whole)
  have "pd_Password zero_ProductionData = replicate 16 0"
    by (simp add: zero_ProductionData_def prod_of_bytes_def get_at_def sizeof_defs len_defs)
  then have "is_login (prod s) (pending_command s)"
    by (simp add: is_login_def s pending_command_def blank_gst_def put_at_def get_at_def CUSTOM_MAX_DATA_LEN_def len_defs)
  then show ?thesis
    using svc_authorisation_survives_other_identity [of s 7 ?E 8 1 "[RESTART_DEVICE]", OF _ _ _ _ _ o] s
    by (simp add: Let_def CUSTOM_MAX_DATA_LEN_def svc_st_init_def flip: s_def)
qed

text \<open>What a valid period command leaves behind.\<close>

lemma notify_keeps_flags:
  "bool_AdvtIntervalUpdated (svc (snd (ble_custom_service_send_notification E co d s))) = bool_AdvtIntervalUpdated (svc s)
   \<and> svc_ConfigDataWrite (svc (snd (ble_custom_service_send_notification E co d s))) = svc_ConfigDataWrite (svc s)
   \<and> svc_DynamicDataWrite (svc (snd (ble_custom_service_send_notification E co d s))) = svc_DynamicDataWrite (svc s)"
  by (simp add: ble_custom_service_send_notification_def Let_def split: option.split)

lemma finish_answer:
  assumes "svc_ConfigDataWrite (svc s)" "\<not> svc_DynamicDataWrite (svc s)"
  shows "svc_finish E c (answer (b # bs)) s = (let s2 = invoke (BT (Conn_unref c)) (snd (ble_custom_service_send_notification E (Some c) (b # bs) s))
    in invoke (DEV (Nvs_write CONFIG_DATA_KEY (conf_bytes (conf s2)))) (s2\<lparr>svc := (svc s2)\<lparr>svc_ConfigDataWrite := False\<rparr>\<rparr>))"
  using assms
  by (simp add: svc_finish_def answer_def svc_flush_writes_def write_nvs_data_def Let_def notify_keeps_flags)

lemma work_adv_period:
  fixes E v
  assumes "current_conn (svc s) = Some c" "0 < write_len (svc s)" "bool_UserAuthorization (svc s)" "svc_settled s"
    and "pending_command s ! 0 = SET_ADV_PERIOD" "v = un_le16 (get_at 1 2 (pending_command s))" "100 \<le> v" "v \<le> 5000"
  defines "t \<equiv> ble_parse_and_reply_work_handler E s"
  shows "cd_AdvertismentInterval (conf t) = v" "bool_AdvtIntervalUpdated (svc t)" "adv t = adv s"
    "active_local_id (svc t) = active_local_id (svc s)"
    "last (trace t) = DEV (Nvs_write CONFIG_DATA_KEY (conf_bytes (conf t)))"
proof -
  define s4 where "s4 = unlock M_svc (invoke (BT (Conn_ref c)) ((lock M_svc s)\<lparr>svc := (svc s)\<lparr>write_len := 0\<rparr>\<rparr>))"
  have 4: "bool_UserAuthorization (svc s4)" "\<not> svc_DynamicDataWrite (svc s4)" "adv s4 = adv s"
    "active_local_id (svc s4) = active_local_id (svc s)"
    using assms(3,4) by (simp_all add: s4_def svc_settled_def)
  define r where "r = svc_execute E (pending_command s) s4"
  have r: "fst r = answer [SUCCESS]" "svc_ConfigDataWrite (svc (snd r))" "\<not> svc_DynamicDataWrite (svc (snd r))"
    "cd_AdvertismentInterval (conf (snd r)) = v" "bool_AdvtIntervalUpdated (svc (snd r))" "adv (snd r) = adv s"
    "active_local_id (svc (snd r)) = active_local_id (svc s)"
    using 4 assms(5-8)
    by (simp_all add: r_def svc_execute_def svc_authorised_def Let_def command_defs svc_set_adv_period_def
        set_ConfigData_def)
  have "t = svc_finish E c (fst r) (snd r)"
    using assms(1,2) by (simp add: t_def ble_parse_and_reply_work_handler_def Let_def pending_command_def
        case_prod_unfold r_def flip: s4_def)
  then have t: "t = (let s2 = invoke (BT (Conn_unref c)) (snd (ble_custom_service_send_notification E (Some c) [SUCCESS] (snd r)))
    in invoke (DEV (Nvs_write CONFIG_DATA_KEY (conf_bytes (conf s2)))) (s2\<lparr>svc := (svc s2)\<lparr>svc_ConfigDataWrite := False\<rparr>\<rparr>))"
    using finish_answer [OF r(2,3), of E c SUCCESS "[]"] r(1) by simp
  show "cd_AdvertismentInterval (conf t) = v" "bool_AdvtIntervalUpdated (svc t)" "adv t = adv s"
    "active_local_id (svc t) = active_local_id (svc s)"
    "last (trace t) = DEV (Nvs_write CONFIG_DATA_KEY (conf_bytes (conf t)))"
    using r(4-7) by (simp_all add: t Let_def notify_svc notify_keeps_flags)
qed

lemma update_interval_stopped:
  assumes "\<And>t. ret E t = 0" "adv_set (adv s) = Some h" "\<not> is_advertising (adv s)"
  shows "\<exists>p. ble_adv_custom_update_interval E a b s =
      (0, s\<lparr>trace := trace s @ [K (Mutex_lock M_adv), BT (Ext_adv_update_param h p), K (Mutex_unlock M_adv)]\<rparr>)
    \<and> ap_interval_min p = ms_to_ticks a \<and> ap_interval_max p = ms_to_ticks b"
  using assms
  by (intro exI [of _ "\<lparr>ap_id = Vision_id (adv s), ap_sid = 1, ap_use_identity = True,
      ap_interval_min = ms_to_ticks a, ap_interval_max = ms_to_ticks b\<rparr>"])
    (simp add: ble_adv_custom_update_interval_def Let_def io_defs)

lemma start_stopped:
  assumes "\<And>t. ret E t = 0" "adv_set (adv s) = Some h" "\<not> is_advertising (adv s)"
  shows "is_advertising (adv (snd (ble_adv_custom_start E s)))"
    "gd (snd (ble_adv_custom_start E s)) = gd s"
    "trace (snd (ble_adv_custom_start E s)) = trace s @ [K (Mutex_lock M_adv), BT (Ext_adv_start h), K (Mutex_unlock M_adv)]"
  using assms by (simp_all add: ble_adv_custom_start_def Let_def result_def)

text \<open>
  C35: Setting the advertising period.  In an authorised Vision session, a period command with
  a value of 100 to 5000 ms stores the value and writes the configuration to flash at once;
  when the session ends (the set being stopped by the connection and no call failing), the
  set is reparametrised with exactly that interval, and 10 ms more as the maximum, in units
  of 0.625 ms, and advertises again.
\<close>

theorem svc_adv_period_applied:
  fixes E v
  assumes "current_conn (svc s) = Some c" "0 < write_len (svc s)" "bool_UserAuthorization (svc s)" "svc_settled s"
    and "pending_command s ! 0 = SET_ADV_PERIOD" "v = un_le16 (get_at 1 2 (pending_command s))" "100 \<le> v" "v \<le> 5000"
    and "int (unat (active_local_id (svc s))) = Vision_id (adv s)" "adv_set (adv s) = Some h" "\<not> is_advertising (adv s)"
    and "\<And>t. ret E t = 0"
  defines "t \<equiv> ble_parse_and_reply_work_handler E s"
  defines "u \<equiv> svc_disconnected E c t"
  shows "cd_AdvertismentInterval (conf u) = v
    \<and> last (trace t) = DEV (Nvs_write CONFIG_DATA_KEY (conf_bytes (conf t)))
    \<and> (\<exists>p. BT (Ext_adv_update_param h p) \<in> set (trace u) \<and> unat (ap_interval_min p) = 8 * unat v div 5
          \<and> unat (ap_interval_max p) = 8 * (unat v + 10) div 5)
    \<and> is_advertising (adv u) \<and> \<not> bool_UserAuthorization (svc u)"
proof -
  note w = work_adv_period [OF assms(1-8), of E, folded t_def]
  have vis: "int (unat (active_local_id (svc t))) = Vision_id (adv t)" using assms(9) w by simp
  obtain x where x: "u = snd (ble_adv_custom_start E (snd (ble_adv_custom_update_interval E (ucast v) (ucast v + 10) x)))"
    "gd x = gd t" "adv x = adv s"
    using svc_disconnected_vision [OF vis, of E c] w(1-3) by (auto simp: u_def)
  obtain p where p: "ble_adv_custom_update_interval E (ucast v) (ucast v + 10) x =
      (0, x\<lparr>trace := trace x @ [K (Mutex_lock M_adv), BT (Ext_adv_update_param h p), K (Mutex_unlock M_adv)]\<rparr>)"
    "ap_interval_min p = ms_to_ticks (ucast v)" "ap_interval_max p = ms_to_ticks (ucast v + 10)"
    using update_interval_stopped [of E x h "ucast v" "ucast v + 10"] assms(10-12) x(3) by metis
  have n: "unat v \<le> 5000" using assms(8) by (simp add: word_le_nat_alt)
  then have "unat (ucast v :: u32) = unat v" "unat (ucast v + 10 :: u32) = unat v + 10"
    by (simp_all add: unat_word_ariths unsigned_ucast_eq take_bit_nat_eq_self)
  with n have ticks: "unat (ap_interval_min p) = 8 * unat v div 5" "unat (ap_interval_max p) = 8 * (unat v + 10) div 5"
    by (simp_all add: p(2,3) ms_to_ticks_exact)
  let ?y = "x\<lparr>trace := trace x @ [K (Mutex_lock M_adv), BT (Ext_adv_update_param h p), K (Mutex_unlock M_adv)]\<rparr>"
  have y: "adv_set (adv ?y) = Some h" "\<not> is_advertising (adv ?y)" using x(3) assms(10,11) by simp_all
  note st = start_stopped [of E, OF assms(12) y]
  have "u = snd (ble_adv_custom_start E ?y)" by (simp add: x(1) p(1))
  then have "is_advertising (adv u)" "gd u = gd x" "BT (Ext_adv_update_param h p) \<in> set (trace u)"
    using st by simp_all
  then show ?thesis
    using w(1,5) x(2) ticks disconnected_locks_session(1) [OF vis, of E c] by (auto simp: u_def)
qed

definition period_state :: svc_sys where
  "period_state = svc_init_state\<lparr>
     adv := adv_st_init\<lparr>Vision_id := 2, adv_set := Some 0\<rparr>,
     svc := svc_st_init\<lparr>current_conn := Some 7, active_local_id := 2, bool_UserAuthorization := True,
       write_buffer := [SET_ADV_PERIOD, 0xE8, 0x03] @ replicate 237 0, write_len := 3\<rparr>\<rparr>"

theorem svc_adv_period_applied_witness:
  "\<exists>p. BT (Ext_adv_update_param 0 p) \<in> set (trace (svc_disconnected (const_env 0) 7
      (ble_parse_and_reply_work_handler (const_env 0) period_state)))
    \<and> unat (ap_interval_min p) = 1600 \<and> unat (ap_interval_max p) = 1616"
proof -
  have "pending_command period_state ! 0 = SET_ADV_PERIOD"
    and "get_at 1 2 (pending_command period_state) = [0xE8, 0x03]"
    by (simp_all add: pending_command_def period_state_def put_at_def get_at_def CUSTOM_MAX_DATA_LEN_def)
  moreover have "un_le16 [0xE8, 0x03] = 1000" by (simp add: un_le16_def)
  moreover have "current_conn (svc period_state) = Some 7" "0 < write_len (svc period_state)"
    "bool_UserAuthorization (svc period_state)" "svc_settled period_state"
    "int (unat (active_local_id (svc period_state))) = Vision_id (adv period_state)"
    "adv_set (adv period_state) = Some 0" "\<not> is_advertising (adv period_state)"
    by (simp_all add: period_state_def svc_settled_def svc_st_init_def adv_st_init_def)
  moreover have "ret (const_env 0) t = 0" for t by (simp add: const_env_def)
  ultimately show ?thesis
    using svc_adv_period_applied [of period_state 7 1000 0 "const_env 0"] by auto
qed

end
