(* ===== verification/Ring.thy ===== *)
theory Ring
  imports Service
begin

text \<open>
  src/ring.c (ringing on request of a Find My Device client) and
  src/motion_detector/platform_SBT.c (the DULT motion detector callbacks).  The strings that
  describe the state and the source in the log are pure functions; the log lines are not
  modelled.
\<close>

section \<open>Ringing: state\<close>

record ring_st =
  fmdn_ring_active_comp_bm :: u8
  fmdn_ring_src :: ring_src
  motion_detector_active :: bool
  motion_detected :: bool

record ring_sys = svc_sys +
  ring :: ring_st

text \<open>Component bitmaps of the FMDN library.\<close>

definition RING_COMP_BM_NONE :: u8 where "RING_COMP_BM_NONE = 0"
definition RING_COMP_BM_ALL :: u8 where "RING_COMP_BM_ALL = 0xFF"
definition RING_COMP_RIGHT :: u8 where "RING_COMP_RIGHT = 1"
definition RING_COMP_LEFT :: u8 where "RING_COMP_LEFT = 2"
definition RING_COMP_CASE :: u8 where "RING_COMP_CASE = 4"

lemmas ring_comp_defs = RING_COMP_BM_NONE_def RING_COMP_BM_ALL_def RING_COMP_RIGHT_def RING_COMP_LEFT_def
  RING_COMP_CASE_def

definition ring_st_init :: ring_st where
  "ring_st_init = \<lparr>fmdn_ring_active_comp_bm = 0, fmdn_ring_src = RING_SRC_FMDN_BT_GATT,
     motion_detector_active = False, motion_detected = False\<rparr>"

lemma ring_invoke [simp]: "ring (invoke e s) = ring s"
  by (simp add: invoke_def)

lemma ring_indicate [simp]: "ring (app_ui_state_change_indicate E st a s) = ring s"
  by (simp add: app_ui_state_change_indicate_def app_ui_speaker_off_def Let_def)

section \<open>Ringing: operations\<close>

definition ring_state_update :: "env \<Rightarrow> ring_state_param \<Rightarrow> 'a ring_sys_scheme \<Rightarrow> 'a ring_sys_scheme" where
  "ring_state_update E param s =
     (let s1 = invoke (FP (Ring_state_update (fmdn_ring_src (ring s)) param)) s;
          err = result E s1
      in if err \<noteq> 0 then s1
         else
           let s2 = app_ui_state_change_indicate E APP_UI_STATE_RINGING
                      (rp_active_comp_bm param \<noteq> RING_COMP_BM_NONE) s1
           in s2\<lparr>ring := (ring s2)\<lparr>fmdn_ring_active_comp_bm := rp_active_comp_bm param\<rparr>\<rparr>)"

definition stop_param :: "ring_trigger \<Rightarrow> ring_state_param" where
  "stop_param trigger = \<lparr>rp_trigger = trigger, rp_active_comp_bm = RING_COMP_BM_NONE, rp_timeout = 0\<rparr>"

definition ring_request_handle :: "env \<Rightarrow> app_ui_request \<Rightarrow> 'a ring_sys_scheme \<Rightarrow> 'a ring_sys_scheme" where
  "ring_request_handle E request s =
     (if request = APP_UI_REQUEST_RINGING_STOP then
        if fmdn_ring_active_comp_bm (ring s) = RING_COMP_BM_NONE then s
        else ring_state_update E (stop_param RING_TRIGGER_UI_STOPPED) s
      else s)"

definition ring_provisioning_state_changed :: "env \<Rightarrow> bool \<Rightarrow> 'a ring_sys_scheme \<Rightarrow> 'a ring_sys_scheme" where
  "ring_provisioning_state_changed E provisioned s =
     (if \<not> provisioned \<and> fmdn_ring_active_comp_bm (ring s) \<noteq> RING_COMP_BM_NONE
      then ring_state_update E (stop_param RING_TRIGGER_GATT_STOPPED) s else s)"

text \<open>The build selects three components (\<open>CONFIG_BT_FAST_PAIR_FMDN_RING_COMP_THREE\<close>).\<close>

definition ring_comp_bm_all_configured_get :: u8 where
  "ring_comp_bm_all_configured_get = RING_COMP_RIGHT OR RING_COMP_LEFT OR RING_COMP_CASE"

text \<open>The descriptions of the state and of the source for the log.\<close>

definition RING_COMP_STATE_STR_LEN :: nat where "RING_COMP_STATE_STR_LEN = 100"

definition ring_comp_state_text :: "u8 \<Rightarrow> string" where
  "ring_comp_state_text active_comp_bm =
     (let state = (\<lambda>comp. if active_comp_bm AND comp \<noteq> 0 then ''active'' else ''inactive'')
      in ''Right='' @ state RING_COMP_RIGHT @ '', Left='' @ state RING_COMP_LEFT @ '', Case='' @ state RING_COMP_CASE)"

text \<open>\<open>snprintf\<close> writes at most the size of the buffer, less the terminator.\<close>

definition ring_comp_state_str_get :: "u8 \<Rightarrow> string" where
  "ring_comp_state_str_get active_comp_bm = take (RING_COMP_STATE_STR_LEN - 1) (ring_comp_state_text active_comp_bm)"

lemma ring_state_str_fits: "ring_comp_state_str_get bm = ring_comp_state_text bm"
  by (simp add: ring_comp_state_str_get_def ring_comp_state_text_def RING_COMP_STATE_STR_LEN_def Let_def)

fun ring_src_str_get :: "ring_src \<Rightarrow> string" where
  "ring_src_str_get RING_SRC_FMDN_BT_GATT = ''Bluetooth GATT FMDN''"
| "ring_src_str_get RING_SRC_DULT_BT_GATT = ''Bluetooth GATT DULT''"
| "ring_src_str_get RING_SRC_DULT_MOTION_DETECTOR = ''Motion Detector DULT''"

definition fmdn_ring_start_request :: "env \<Rightarrow> ring_src \<Rightarrow> u8 \<Rightarrow> u16 \<Rightarrow> 'a ring_sys_scheme \<Rightarrow> 'a ring_sys_scheme" where
  "fmdn_ring_start_request E src req_comp_bm timeout s =
     (let active_comp_bm = (if req_comp_bm = RING_COMP_BM_ALL then ring_comp_bm_all_configured_get else req_comp_bm);
          param = \<lparr>rp_trigger = RING_TRIGGER_STARTED, rp_active_comp_bm = active_comp_bm, rp_timeout = timeout\<rparr>;
          s1 = s\<lparr>ring := (ring s)\<lparr>fmdn_ring_src := src\<rparr>\<rparr>
      in ring_state_update E param s1)"

definition fmdn_ring_timeout_expired :: "env \<Rightarrow> ring_src \<Rightarrow> 'a ring_sys_scheme \<Rightarrow> 'a ring_sys_scheme" where
  "fmdn_ring_timeout_expired E src s =
     ring_state_update E (stop_param RING_TRIGGER_TIMEOUT_STOPPED)
       (check ''src == fmdn_ring_src'' (src = fmdn_ring_src (ring s)) s)"

definition fmdn_ring_stop_request :: "env \<Rightarrow> ring_src \<Rightarrow> 'a ring_sys_scheme \<Rightarrow> 'a ring_sys_scheme" where
  "fmdn_ring_stop_request E src s =
     (let s1 = s\<lparr>ring := (ring s)\<lparr>fmdn_ring_src := src\<rparr>\<rparr>
      in ring_state_update E (stop_param RING_TRIGGER_GATT_STOPPED) s1)"

definition app_ring_init :: "env \<Rightarrow> 'a io_scheme \<Rightarrow> int \<times> 'a io_scheme" where
  "app_ring_init E s =
     (let s1 = invoke (FP Ring_cb_register) s; err = result E s1
      in if err \<noteq> 0 then (err, s1)
         else let s2 = invoke (FP Fmdn_info_cb_register) s1; err = result E s2
              in if err \<noteq> 0 then (err, s2) else (0, s2))"

section \<open>Motion detector\<close>

definition fmdn_motion_detector_start :: "env \<Rightarrow> 'a ring_sys_scheme \<Rightarrow> 'a ring_sys_scheme" where
  "fmdn_motion_detector_start E s =
     (let s1 = check ''!motion_detector_active'' (\<not> motion_detector_active (ring s)) s;
          s2 = s1\<lparr>ring := (ring s1)\<lparr>motion_detector_active := True\<rparr>\<rparr>
      in app_ui_state_change_indicate E APP_UI_STATE_MOTION_DETECTOR_ACTIVE True s2)"

definition fmdn_motion_detector_period_expired :: "env \<Rightarrow> 'a ring_sys_scheme \<Rightarrow> bool \<times> 'a ring_sys_scheme" where
  "fmdn_motion_detector_period_expired E s =
     (let s1 = invoke (DEV (Gpio_get ''lis3dh_int'')) s;
          s2 = s1\<lparr>ring := (ring s1)\<lparr>motion_detected := (result E s1 \<noteq> 0)\<rparr>\<rparr>;
          s3 = check ''motion_detector_active'' (motion_detector_active (ring s2)) s2
      in (motion_detected (ring s3), s3))"

definition fmdn_motion_detector_stop :: "env \<Rightarrow> 'a ring_sys_scheme \<Rightarrow> 'a ring_sys_scheme" where
  "fmdn_motion_detector_stop E s =
     (let s1 = check ''motion_detector_active'' (motion_detector_active (ring s)) s;
          s2 = s1\<lparr>ring := (ring s1)\<lparr>motion_detector_active := False\<rparr>\<rparr>;
          s3 = app_ui_state_change_indicate E APP_UI_STATE_MOTION_DETECTOR_ACTIVE False s2
      in s3\<lparr>ring := (ring s3)\<lparr>motion_detected := False\<rparr>\<rparr>)"

definition app_motion_detector_init :: "env \<Rightarrow> 'a io_scheme \<Rightarrow> int \<times> 'a io_scheme" where
  "app_motion_detector_init E s = (let s1 = invoke (FP Motion_detector_cb_register) s in (result E s1, s1))"

section \<open>Invariant\<close>

definition ring_inv :: "'a ring_sys_scheme \<Rightarrow> bool" where
  "ring_inv s \<longleftrightarrow> ui_inv s
     \<and> ui_active s APP_UI_STATE_RINGING = (fmdn_ring_active_comp_bm (ring s) \<noteq> RING_COMP_BM_NONE)
     \<and> ui_active s APP_UI_STATE_MOTION_DETECTOR_ACTIVE = motion_detector_active (ring s)"

lemma ui_inv_ring [simp]: "ui_inv (s\<lparr>ring := r\<rparr>) = ui_inv s"
  by (simp add: ui_inv_def)

lemma check_simps [simp]: "ring (check w b s) = ring s" "ui (check w b s) = ui s"
  by (simp_all add: check_def)

lemma ui_inv_check [simp]: "ui_inv (check w b s) = ui_inv s"
  by (simp add: check_def ui_inv_def)

lemma ring_inv_invoke: "ring_inv s \<Longrightarrow> \<not> buzz_event e \<Longrightarrow> ring_inv (invoke e s)"
  by (simp add: ring_inv_def ui_inv_invoke)

lemma ring_inv_src [simp]:
  "ring_inv (s\<lparr>ring := (ring s)\<lparr>fmdn_ring_src := src\<rparr>\<rparr>) = ring_inv s"
  "ring_inv (s\<lparr>ring := (ring s)\<lparr>motion_detected := b\<rparr>\<rparr>) = ring_inv s"
  "ring_inv (check w b s) = ring_inv s"
  by (simp_all add: ring_inv_def)

lemma ring_inv_update: "ring_inv s \<Longrightarrow> ring_inv (ring_state_update E param s)"
  by (auto simp: ring_state_update_def Let_def ring_inv_def ui_inv_indicate ui_inv_invoke
      ui_flags.get_put_same ui_flags.get_put_other)

lemma ring_inv_motion:
  "ring_inv s \<Longrightarrow> ring_inv (fmdn_motion_detector_start E s)"
  "ring_inv s \<Longrightarrow> ring_inv (fmdn_motion_detector_stop E s)"
  "ring_inv s \<Longrightarrow> ring_inv (snd (fmdn_motion_detector_period_expired E s))"
  by (auto simp: fmdn_motion_detector_start_def fmdn_motion_detector_stop_def
      fmdn_motion_detector_period_expired_def Let_def ring_inv_def ui_inv_indicate ui_inv_invoke
      ui_flags.get_put_same ui_flags.get_put_other)

datatype ring_ev = RE_start ring_src u8 u16 | RE_timeout ring_src | RE_stop ring_src
  | RE_request app_ui_request | RE_provisioning bool | RE_buzzer
  | RE_motion_start | RE_motion_period | RE_motion_stop

fun ring_do :: "env \<Rightarrow> ring_ev \<Rightarrow> 'a ring_sys_scheme \<Rightarrow> 'a ring_sys_scheme" where
  "ring_do E (RE_start src bm timeout) s = fmdn_ring_start_request E src bm timeout s"
| "ring_do E (RE_timeout src) s = fmdn_ring_timeout_expired E src s"
| "ring_do E (RE_stop src) s = fmdn_ring_stop_request E src s"
| "ring_do E (RE_request r) s = ring_request_handle E r s"
| "ring_do E (RE_provisioning p) s = ring_provisioning_state_changed E p s"
| "ring_do E RE_buzzer s = buzzer_beep_handle E s"
| "ring_do E RE_motion_start s = fmdn_motion_detector_start E s"
| "ring_do E RE_motion_period s = snd (fmdn_motion_detector_period_expired E s)"
| "ring_do E RE_motion_stop s = fmdn_motion_detector_stop E s"

fun ring_ok :: "ring_ev \<Rightarrow> 'a ring_sys_scheme \<Rightarrow> bool" where
  "ring_ok RE_buzzer s = snd (buzz (trace s))"
| "ring_ok _ s = True"

lemma ring_inv_buzzer: "ring_inv s \<Longrightarrow> snd (buzz (trace s)) \<Longrightarrow> ring_inv (buzzer_beep_handle E s)"
  by (auto simp: ring_inv_def ui_inv_def buzzer_beep_handle_def app_ui_speaker_on_def app_ui_speaker_off_def Let_def)

interpretation ringm: invariant_machine "ring_do E" ring_ok ring_inv for E
proof
  fix s :: "'a ring_sys_scheme" and e
  assume "ring_inv s" "ring_ok e s"
  then show "ring_inv (ring_do E e s)"
    by (cases e) (simp_all add: fmdn_ring_start_request_def fmdn_ring_timeout_expired_def
        fmdn_ring_stop_request_def ring_request_handle_def ring_provisioning_state_changed_def
        ring_inv_update ring_inv_motion ring_inv_buzzer Let_def)
qed

lemma ui_inv_ring_update: "ui_inv s \<Longrightarrow> ui_inv (ring_state_update E param s)"
  by (simp add: ring_state_update_def Let_def ui_inv_indicate ui_inv_invoke)

interpretation ring_listener: ui_listener "ring_request_handle E" for E
  by unfold_locales (simp add: ring_request_handle_def ui_inv_ring_update)

section \<open>Properties\<close>

definition ring_init_state :: ring_sys where
  "ring_init_state = svc_sys.extend svc_init_state \<lparr>ring = ring_st_init\<rparr>"

lemma ring_init_simps [simp]: "trace ring_init_state = []" "ui ring_init_state = ui_st_init"
  "ring ring_init_state = ring_st_init" "halted ring_init_state = None"
  by (simp_all add: ring_init_state_def svc_init_state_def dfu_init_state_def ui_init_state_def uart_init_state_def
      svc_sys.extend_def dfu_sys.extend_def ui_sys.extend_def uart_sys.extend_def)

lemma ring_init_inv [simp]: "ring_inv ring_init_state"
  by (simp add: ring_inv_def ui_inv_def ui_st_init_def ring_st_init_def buzz_def RING_COMP_BM_NONE_def
      atomic_test_bit_def TEST_BIT_def)

end
