(* ===== verification/Devices.thy ===== *)
theory Devices
  imports Ring
begin

text \<open>
  src/vision_watchdog.c (the hardware watchdog and its feeding) and src/vision_motion.c (the
  LIS3DH accelerometer; built only with \<open>CONFIG_I2C\<close>).
\<close>

section \<open>Watchdog\<close>

record dev_sys = ring_sys +
  wdt_channel_id :: int

definition wdt_feed_work_handler :: "'a dev_sys_scheme \<Rightarrow> 'a dev_sys_scheme" where
  "wdt_feed_work_handler s =
     invoke (K (Work_schedule W_wdt_feed 4000)) (invoke (DEV (Wdt_feed (wdt_channel_id s))) s)"

definition app_watchdog_init :: "env \<Rightarrow> 'a dev_sys_scheme \<Rightarrow> int \<times> 'a dev_sys_scheme" where
  "app_watchdog_init E s =
     (let s1 = invoke (DEV (Device_is_ready ''wdt0'')) s
      in if result E s1 = 0 then (- ENODEV, s1)
         else
           let s2 = invoke (DEV (Wdt_install_timeout 8000)) s1;
               s3 = s2\<lparr>wdt_channel_id := result E s2\<rparr>
           in if wdt_channel_id s3 < 0 then (wdt_channel_id s3, s3)
              else
                let s4 = invoke (DEV Wdt_setup) s3;
                    err = result E s4
                in if err \<noteq> 0 then (err, s4)
                   else (0, invoke (K (Work_init W_wdt_feed)) s4))"

definition app_watchdog_start_feeding :: "'a io_scheme \<Rightarrow> 'a io_scheme" where
  "app_watchdog_start_feeding s = invoke (K (Work_schedule W_wdt_feed 0)) s"

section \<open>LIS3DH\<close>

definition LIS3DH_WHO_AM_I :: u8 where "LIS3DH_WHO_AM_I = 0x0F"
definition LIS3DH_CTRL_REG1 :: u8 where "LIS3DH_CTRL_REG1 = 0x20"
definition LIS3DH_CTRL_REG2 :: u8 where "LIS3DH_CTRL_REG2 = 0x21"
definition LIS3DH_CTRL_REG3 :: u8 where "LIS3DH_CTRL_REG3 = 0x22"
definition LIS3DH_CTRL_REG4 :: u8 where "LIS3DH_CTRL_REG4 = 0x23"
definition LIS3DH_CTRL_REG5 :: u8 where "LIS3DH_CTRL_REG5 = 0x24"
definition LIS3DH_CTRL_REG6 :: u8 where "LIS3DH_CTRL_REG6 = 0x25"
definition LIS3DH_INT1_CFG :: u8 where "LIS3DH_INT1_CFG = 0x30"
definition LIS3DH_INT1_THS :: u8 where "LIS3DH_INT1_THS = 0x32"
definition LIS3DH_INT1_DURATION :: u8 where "LIS3DH_INT1_DURATION = 0x33"

text \<open>
  The code writes registers one after the other and returns the first error
  (\<open>if (ret) return ret;\<close>): the writes of a list, stopping at the first failure.
\<close>

definition i2c_write_reg :: "env \<Rightarrow> u8 \<Rightarrow> u8 \<Rightarrow> 'a io_scheme \<Rightarrow> int \<times> 'a io_scheme" where
  "i2c_write_reg E reg val s = (let s1 = invoke (DEV (I2c_write_reg reg val)) s in (result E s1, s1))"

definition i2c_read_reg :: "env \<Rightarrow> u8 \<Rightarrow> 'a io_scheme \<Rightarrow> int \<times> u8 \<times> 'a io_scheme" where
  "i2c_read_reg E reg s = (let s1 = invoke (DEV (I2c_read_reg reg)) s in (result E s1, word_of_int (outval E s1), s1))"

fun i2c_write_all :: "env \<Rightarrow> (u8 \<times> u8) list \<Rightarrow> 'a io_scheme \<Rightarrow> int \<times> 'a io_scheme" where
  "i2c_write_all E [] s = (0, s)"
| "i2c_write_all E ((reg, val) # ws) s =
     (let (err, s1) = i2c_write_reg E reg val s
      in if err \<noteq> 0 then (err, s1) else i2c_write_all E ws s1)"

text \<open>The GPIO calls that follow, each returning its error.\<close>

fun call_all :: "env \<Rightarrow> ev list \<Rightarrow> 'a io_scheme \<Rightarrow> int \<times> 'a io_scheme" where
  "call_all E [] s = (0, s)"
| "call_all E (e # es) s =
     (let s1 = invoke e s; err = result E s1
      in if err \<noteq> 0 then (err, s1) else call_all E es s1)"

definition lis3dh_int_callback :: "'a io_scheme \<Rightarrow> 'a io_scheme" where
  "lis3dh_int_callback s = invoke (DEV (Gpio_get ''lis3dh_int'')) s"

definition lis3dh_setup :: "env \<Rightarrow> u8 \<Rightarrow> u8 \<Rightarrow> 'a io_scheme \<Rightarrow> int \<times> 'a io_scheme" where
  "lis3dh_setup E threshold duration s =
     (let (err, who, s1) = i2c_read_reg E LIS3DH_WHO_AM_I s
      in if err \<noteq> 0 then (err, s1)
         else
           let (err, s2) = i2c_write_all E [(LIS3DH_CTRL_REG1, 0x17), (LIS3DH_CTRL_REG2, 0x09),
                 (LIS3DH_CTRL_REG3, 0x40), (LIS3DH_CTRL_REG4, 0x00), (LIS3DH_CTRL_REG5, 0x00),
                 (LIS3DH_CTRL_REG6, 0x00), (LIS3DH_INT1_CFG, 0x15), (LIS3DH_INT1_THS, threshold),
                 (LIS3DH_INT1_DURATION, duration)] s1
           in if err \<noteq> 0 then (err, s2)
              else
                let s3 = invoke (DEV (Gpio_is_ready ''lis3dh_int'')) s2
                in if result E s3 = 0 then (- ENODEV, s3)
                   else
                     let (err, s4) = call_all E [DEV (Gpio_configure_input ''lis3dh_int''),
                           DEV (Gpio_interrupt_both_edges ''lis3dh_int'')] s3
                     in if err \<noteq> 0 then (err, s4)
                        else
                          let s5 = invoke (DEV (Gpio_init_callback ''lis3dh_int'')) s4;
                              s6 = invoke (DEV (Gpio_add_callback ''lis3dh_int'')) s5;
                              err = result E s6
                          in if err \<noteq> 0 then (err, s6)
                             else (0, invoke (DEV (Pm_suspend ''i2c0'')) s6))"

definition lis3dh_update :: "env \<Rightarrow> u8 \<Rightarrow> u8 \<Rightarrow> 'a io_scheme \<Rightarrow> int \<times> 'a io_scheme" where
  "lis3dh_update E threshold duration s =
     (let s1 = invoke (DEV (Pm_resume ''i2c0'')) s;
          (err, s2) = i2c_write_all E [(LIS3DH_INT1_THS, threshold), (LIS3DH_INT1_DURATION, duration)] s1
      in if err \<noteq> 0 then (err, s2) else (0, invoke (DEV (Pm_suspend ''i2c0'')) s2))"

definition lis3dh_powerdown :: "env \<Rightarrow> 'a io_scheme \<Rightarrow> int \<times> 'a io_scheme" where
  "lis3dh_powerdown E s =
     (let s1 = invoke (DEV (Pm_resume ''i2c0'')) s;
          (err, who, s2) = i2c_read_reg E LIS3DH_WHO_AM_I s1
      in if err \<noteq> 0 then (err, s2)
         else
           let (err, s3) = (if who \<noteq> 0x33 then (0, s2)
                 else i2c_write_all E [(LIS3DH_CTRL_REG1, 0x08), (LIS3DH_CTRL_REG3, 0x00)] s2)
           in if err \<noteq> 0 then (err, s3) else (0, invoke (DEV (Pm_suspend ''i2c0'')) s3))"

section \<open>The bus and its power\<close>

text \<open>The register writes that reach the bus: all of them, or those up to the first failure.\<close>

definition writes_of :: "(u8 \<times> u8) list \<Rightarrow> ev list" where
  "writes_of ws = map (\<lambda>(r, v). DEV (I2c_write_reg r v)) ws"

lemma writes_of_simps [simp]: "writes_of [] = []" "writes_of ((r, v) # ws) = DEV (I2c_write_reg r v) # writes_of ws"
  by (simp_all add: writes_of_def)

lemma i2c_write_all_spec:
  "i2c_write_all E ws s = (err, t) \<Longrightarrow>
   \<exists>us vs. ws = us @ vs \<and> trace t = trace s @ writes_of us \<and> (err = 0 \<longrightarrow> vs = []) \<and> (err \<noteq> 0 \<longrightarrow> us \<noteq> [])"
proof (induction ws arbitrary: s)
  case Nil
  then show ?case by simp
next
  case (Cons w ws)
  obtain r v where w: "w = (r, v)" by (cases w)
  let ?s1 = "invoke (DEV (I2c_write_reg r v)) s"
  show ?case
  proof (cases "result E ?s1 = 0")
    case True
    with Cons.prems have "i2c_write_all E ws ?s1 = (err, t)"
      by (simp add: w i2c_write_reg_def Let_def)
    from Cons.IH [OF this] obtain us vs where "ws = us @ vs" "trace t = trace ?s1 @ writes_of us"
      "err = 0 \<longrightarrow> vs = []" by blast
    then show ?thesis
      by (intro exI [of _ "w # us"] exI [of _ vs]) (simp add: w)
  next
    case False
    with Cons.prems have "err = result E ?s1" "t = ?s1" by (auto simp: w i2c_write_reg_def Let_def)
    with False show ?thesis
      by (intro exI [of _ "[w]"] exI [of _ ws]) (simp add: w)
  qed
qed

text \<open>Whether the I2C controller is powered after a trace.\<close>

fun i2c_step :: "bool \<Rightarrow> ev \<Rightarrow> bool" where
  "i2c_step p (DEV (Pm_resume d)) = (p \<or> d = ''i2c0'')"
| "i2c_step p (DEV (Pm_suspend d)) = (p \<and> d \<noteq> ''i2c0'')"
| "i2c_step p e = p"

definition i2c_powered :: "ev list \<Rightarrow> bool" where
  "i2c_powered = foldl i2c_step True"

lemma i2c_powered_append [simp]: "i2c_powered (es @ fs) = foldl i2c_step (i2c_powered es) fs"
  by (simp add: i2c_powered_def)

lemma i2c_writes_power [simp]: "foldl i2c_step p (writes_of ws) = p"
  by (induction ws) (auto simp: writes_of_def)

section \<open>Updating the accelerometer\<close>

text \<open>
   The threshold and the duration are written in this order
  after the bus has been resumed; the update returns 0 exactly when both writes succeed, and
  then the bus is suspended; when a write fails its code is returned and the bus stays
  powered.
\<close>

lemma lis3dh_update_power:
  assumes "lis3dh_update E threshold duration s = (err, t)"
  shows "\<exists>us vs. us @ vs = [(LIS3DH_INT1_THS, threshold), (LIS3DH_INT1_DURATION, duration)]
      \<and> trace t = trace s @ DEV (Pm_resume ''i2c0'') # writes_of us @ (if err = 0 then [DEV (Pm_suspend ''i2c0'')] else [])
      \<and> (err = 0 \<longrightarrow> vs = []) \<and> (err \<noteq> 0 \<longrightarrow> us \<noteq> []) \<and> i2c_powered (trace t) = (err \<noteq> 0)"
proof -
  let ?ws = "[(LIS3DH_INT1_THS, threshold), (LIS3DH_INT1_DURATION, duration)]"
  obtain e2 s2 where w: "i2c_write_all E ?ws (invoke (DEV (Pm_resume ''i2c0'')) s) = (e2, s2)" by fastforce
  have t: "err = e2" "t = (if e2 \<noteq> 0 then s2 else invoke (DEV (Pm_suspend ''i2c0'')) s2)"
    using assms w by (auto simp: lis3dh_update_def Let_def simp del: i2c_write_all.simps split: if_splits)
  obtain us vs where v: "?ws = us @ vs" "trace s2 = trace (invoke (DEV (Pm_resume ''i2c0'')) s) @ writes_of us"
    "e2 = 0 \<longrightarrow> vs = []" "e2 \<noteq> 0 \<longrightarrow> us \<noteq> []"
    using i2c_write_all_spec [OF w] by blast
  have u: "us @ vs = ?ws" "trace s2 = trace s @ DEV (Pm_resume ''i2c0'') # writes_of us"
    "e2 = 0 \<longrightarrow> vs = []" "e2 \<noteq> 0 \<longrightarrow> us \<noteq> []"
    using v by simp_all
  have "i2c_powered (trace t) = (err \<noteq> 0)" by (simp add: t u(2))
  with u t show ?thesis by (intro exI [of _ us] exI [of _ vs]) simp
qed

end
