(* ===== verification/Battery.thy ===== *)
theory Battery
  imports Devices
begin

text \<open>
  src/vision_battery.c: the battery voltage through the ADC, its conversion to a percentage,
  the consumption-based estimate in the persistent dynamic data, and what is reported to the
  Vision advertiser and to the FMDN library.  src/common.c is in BatteryLevel.

  The remaining capacity is a C \<open>float\<close>, stored as its 32 bits; \<open>f32_val\<close> and \<open>f32_bits\<close>
  translate between the bits and the rational value (finite numbers).
\<close>

section \<open>IEEE 754 single precision as bits\<close>

definition f32_val :: "u32 \<Rightarrow> rat" where
  "f32_val w =
     (let sign = (if 2 ^ 31 \<le> unat w then - 1 else 1);
          ex = unat w div 2 ^ 23 mod 256;
          frac = unat w mod 2 ^ 23
      in sign * (if ex = 0 then of_nat frac * 2 powi (- 149)
                 else of_nat (2 ^ 23 + frac) * 2 powi (int ex - 150)))"

definition f32_bits :: "rat \<Rightarrow> u32" where
  "f32_bits x =
     (if x = 0 then 0
      else
        let a = \<bar>x\<bar>; e = f32_exp a;
            m = (if e < - 126 then \<lfloor>a / 2 powi (- 149)\<rfloor>
                 else (e + 126) * 2 ^ 23 + \<lfloor>a / 2 powi (e - 23)\<rfloor>)
        in word_of_int ((if x < 0 then 2 ^ 31 else 0) + m))"

lemma f32_exp_unique:
  assumes "2 powi e \<le> x" "x < 2 powi (e + 1)"
  shows "f32_exp x = e"
proof (rule ccontr)
  have pos: "0 < x" using assms(1) by (rule less_le_trans [rotated]) simp
  assume "f32_exp x \<noteq> e"
  then consider "f32_exp x + 1 \<le> e" | "e + 1 \<le> f32_exp x" by linarith
  then show False
  proof cases
    case 1
    then have "(2::rat) powi (f32_exp x + 1) \<le> 2 powi e" by (intro power_int_increasing) simp_all
    then show False using f32_exp_bounds(2) [OF pos] assms(1) by linarith
  next
    case 2
    then have "(2::rat) powi (e + 1) \<le> 2 powi f32_exp x" by (intro power_int_increasing) simp_all
    then show False using f32_exp_bounds(1) [OF pos] assms(2) by linarith
  qed
qed

lemma round_evenI: "\<bar>y - of_int n\<bar> < 1 / 2 \<Longrightarrow> round_even y = n"
proof -
  assume h: "\<bar>y - of_int n\<bar> < 1 / 2"
  have "\<bar>of_int (round_even y) - of_int n :: rat\<bar> < 1"
    using round_even_error [of y] h by linarith
  then have "\<bar>round_even y - n\<bar> < 1"
    by (metis of_int_abs of_int_diff of_int_less_1_iff)
  then show ?thesis by simp
qed

lemma f32_rndI:
  assumes "2 powi e \<le> x" "x < 2 powi (e + 1)" "- 126 \<le> e"
    and "\<bar>x / 2 powi (e - 23) - of_int n\<bar> < 1 / 2"
  shows "f32_rnd x = of_int n * 2 powi (e - 23)"
proof -
  have pos: "0 < x" using assms(1) by (rule less_le_trans [rotated]) simp
  have u: "f32_ulp x = 2 powi (e - 23)"
    using assms(3) by (simp add: f32_ulp_def f32_exp_unique [OF assms(1,2)])
  show ?thesis using pos round_evenI [OF assms(4)] by (simp add: f32_rnd_def u)
qed

text \<open>Natural numbers below \<open>2^24\<close> survive the encoding.\<close>

lemma f32_val_bits:
  assumes "n < 2 ^ 24"
  shows "f32_val (f32_bits (of_nat n)) = of_nat n"
proof (cases "n = 0")
  case True
  then show ?thesis by (simp add: f32_val_def f32_bits_def)
next
  case False
  define k where "k = floorlog 2 n - 1"
  have fl: "2 ^ k \<le> n" "n < 2 ^ (k + 1)" "0 < floorlog 2 n"
    using floorlog_bounds [of n 2] False by (simp_all add: k_def floorlog_def)
  have "k < 24" using fl(1) assms by (meson le_less_trans nat_power_less_imp_less pos2)
  then have k: "k \<le> 23" by simp
  have "(of_nat (2 ^ k) :: rat) \<le> of_nat n" "(of_nat n :: rat) < of_nat (2 ^ (k + 1))"
    using fl(1,2) by (simp_all only: of_nat_le_iff of_nat_less_iff)
  then have e: "f32_exp (of_nat n) = int k"
    by (intro f32_exp_unique) (simp_all add: power_int_add)
  define m where "m = n * 2 ^ (23 - k)"
  have m: "(of_nat n :: rat) / 2 powi (int k - 23) = of_int (int m)"
  proof -
    have "(2::rat) powi (int k - 23) = 1 / 2 ^ (23 - k)"
      using k by (simp add: power_int_def nat_diff_distrib power_one_over field_simps)
    then show ?thesis by (simp add: m_def)
  qed
  have lo: "2 ^ 23 \<le> m"
  proof -
    have "2 ^ 23 = 2 ^ k * (2 ^ (23 - k) :: nat)" using k by (simp flip: power_add)
    also have "\<dots> \<le> m" unfolding m_def using fl(1) by (rule mult_right_mono) simp
    finally show ?thesis .
  qed
  have hi: "m < 2 ^ 24"
  proof -
    have "m < 2 ^ (k + 1) * (2 ^ (23 - k) :: nat)" unfolding m_def using fl(2) by simp
    also have "\<dots> = 2 ^ 24" using k by (simp flip: power_add)
    finally show ?thesis .
  qed
  define f where "f = m - 2 ^ 23"
  have f: "f < 2 ^ 23" "m = 2 ^ 23 + f" using lo hi by (simp_all add: f_def)
  let ?w = "(k + 127) * 2 ^ 23 + f"
  have "f32_bits (of_nat n) = of_nat ?w"
    using False f(2) by (simp add: f32_bits_def Let_def e m floor_of_int algebra_simps)
  moreover have small: "?w < 2 ^ 31" using k f(1) by simp
  moreover have "unat (of_nat ?w :: u32) = ?w"
    by (simp only: unat_of_nat, rule mod_less) (use small in simp)
  ultimately have u: "unat (f32_bits (of_nat n)) = ?w" by simp
  have "?w div 2 ^ 23 mod 256 = k + 127" using k f(1) by simp
  moreover have "?w mod 2 ^ 23 = f" using f(1) by (simp only: mod_mult_self3 mod_less)
  ultimately have "?w div 2 ^ 23 mod 256 = k + 127" "?w mod 2 ^ 23 = f" .
  then have "f32_val (f32_bits (of_nat n)) = of_nat m * 2 powi (int k - 23)"
    using small by (simp only: f32_val_def u Let_def) (simp add: f(2))
  also have "\<dots> = of_nat n" using m by (simp add: field_simps)
  finally show ?thesis .
qed

section \<open>State\<close>

record bat_st =
  adc_raw_data :: int
  battery_charge :: u8
  gu8_ActBasedBattPercent :: u8
  gu8_LastActBasedBattPercent :: u8
  battery_level :: u8

record bat_sys = dev_sys +
  bat :: bat_st

definition bat_st_init :: bat_st where
  "bat_st_init = \<lparr>adc_raw_data = 0, battery_charge = 0, gu8_ActBasedBattPercent = 0,
     gu8_LastActBasedBattPercent = 0, battery_level = 0xFF\<rparr>"

definition gu16_voltTable :: "int list" where
  "gu16_voltTable = [2900, 2935, 2970, 3005, 3040, 3075, 3110, 3145, 3180, 3215, 3250, 3285, 3320, 3355, 3390]"

definition gu8_pergTable :: "u8 list" where
  "gu8_pergTable = [5, 10, 15, 20, 25, 30, 35, 40, 45, 50, 55, 60, 65, 70, 75]"

lemma bat_invoke [simp]: "bat (invoke e s) = bat s"
  by (simp add: invoke_def)

lemma bat_lock [simp]: "bat (lock m s) = bat s" "bat (unlock m s) = bat s"
  by (simp_all add: lock_def unlock_def)

section \<open>Operations\<close>

definition battery_init :: "env \<Rightarrow> 'a io_scheme \<Rightarrow> int \<times> 'a io_scheme" where
  "battery_init E s =
     (let s1 = invoke (DEV Adc_is_ready) s
      in if result E s1 = 0 then (- ENOENT, s1)
         else
           let s2 = invoke (DEV Adc_channel_setup) s1;
               err = result E s2
           in if err < 0 then (err, s2)
              else
                let s3 = invoke (DEV Adc_sequence_init) s2;
                    err = result E s3
                in if err < 0 then (err, s3) else (0, s3))"

text \<open>Conversion to \<open>int32_t\<close>.\<close>

definition to_s32 :: "int \<Rightarrow> int" where
  "to_s32 x = sint (word_of_int x :: u32)"

definition battery_voltage_get :: "env \<Rightarrow> 'a bat_sys_scheme \<Rightarrow> int \<times> int \<times> 'a bat_sys_scheme" where
  "battery_voltage_get E s =
     (let s1 = invoke (DEV Adc_read) s;
          err = result E s1;
          s2 = s1\<lparr>bat := (bat s1)\<lparr>adc_raw_data := to_s16 (outval E s1)\<rparr>\<rparr>
      in if err \<noteq> 0 then (err, 0, s2)
         else
           let raw = adc_raw_data (bat s2);
               s3 = invoke (DEV (Adc_raw_to_millivolts raw)) s2;
               err = result E s3;
               val_mv = (if err < 0 then raw else to_s32 (outval E s3))
           in (0, val_mv, updateAdvBatmV E (word_of_int val_mv) s3))"

text \<open>The loop over the table, from the last entry down.\<close>

primrec volt2percent_loop :: "int \<Rightarrow> nat \<Rightarrow> u8" where
  "volt2percent_loop BatVolt 0 = 0"
| "volt2percent_loop BatVolt (Suc i) =
     (if gu16_voltTable ! i \<le> BatVolt then gu8_pergTable ! i else volt2percent_loop BatVolt i)"

definition gu8_Volt2PercentTable :: "int \<Rightarrow> u8" where
  "gu8_Volt2PercentTable BatVolt = volt2percent_loop BatVolt 15"

definition voltage_to_percent_convert :: "int \<Rightarrow> 'a bat_sys_scheme \<Rightarrow> u8 \<times> 'a bat_sys_scheme" where
  "voltage_to_percent_convert val s =
     (if val < 3400 then (gu8_Volt2PercentTable val, s)
      else
        let s1 = lock M_battery s;
            per = gu8_ActBasedBattPercent (bat s1)
        in (per, unlock M_battery s1))"

text \<open>\<open>battery_measure(&battery_charge)\<close>, the only use.\<close>

definition battery_measure :: "env \<Rightarrow> 'a bat_sys_scheme \<Rightarrow> int \<times> 'a bat_sys_scheme" where
  "battery_measure E s =
     (let s1 = invoke (K (Busy_wait_us 100)) s;
          (err, val_mv, s2) = battery_voltage_get E s1
      in if err \<noteq> 0 then (err, s2)
         else
           let (per, s3) = voltage_to_percent_convert val_mv s2;
               s4 = s3\<lparr>bat := (bat s3)\<lparr>battery_charge := per\<rparr>\<rparr>
           in (0, updateAdvBatLevel E per s4))"

definition battery_level_set :: "env \<Rightarrow> bool \<Rightarrow> 'a bat_sys_scheme \<Rightarrow> int \<times> 'a bat_sys_scheme" where
  "battery_level_set E forced_set s =
     (if \<not> forced_set \<and> battery_level (bat s) = battery_charge (bat s) then (0, s)
      else
        let s1 = invoke (FP (Battery_level_set (battery_charge (bat s)))) s;
            err = result E s1
        in if err \<noteq> 0 then (err, s1)
           else (0, s1\<lparr>bat := (bat s1)\<lparr>battery_level := battery_charge (bat s1)\<rparr>\<rparr>))"

definition CONFIG_APP_BATTERY_VOLTAGE_POLL_INTERVAL :: nat where
  "CONFIG_APP_BATTERY_VOLTAGE_POLL_INTERVAL = 10"

definition CONFIG_APP_BATTERY_PERCENTAGE_CAL_INTERVAL :: nat where
  "CONFIG_APP_BATTERY_PERCENTAGE_CAL_INTERVAL = 60"

definition battery_periodic_poll_handler :: "env \<Rightarrow> 'a bat_sys_scheme \<Rightarrow> 'a bat_sys_scheme" where
  "battery_periodic_poll_handler E s =
     (let (_, s1) = battery_measure E s;
          s2 = invoke (K (Work_submit W_battery_level_set)) s1
      in invoke (K (Work_schedule W_battery_poll (CONFIG_APP_BATTERY_VOLTAGE_POLL_INTERVAL * 60000))) s2)"

definition battery_level_set_work_handler :: "env \<Rightarrow> 'a bat_sys_scheme \<Rightarrow> 'a bat_sys_scheme" where
  "battery_level_set_work_handler E s = snd (battery_level_set E False s)"

definition FULL_BAT_CAPACITY_uAH :: rat where "FULL_BAT_CAPACITY_uAH = 2160000"
definition AVG_DEEPSLEEP_CRNT_uAH :: rat where "AVG_DEEPSLEEP_CRNT_uAH = 14"
definition DEFAULT_BATT_PER :: rat where "DEFAULT_BATT_PER = 100"

lemmas bat_consts = FULL_BAT_CAPACITY_uAH_def AVG_DEEPSLEEP_CRNT_uAH_def DEFAULT_BATT_PER_def

definition drained :: "rat \<Rightarrow> rat" where
  "drained cap = (let c = f32_sub cap AVG_DEEPSLEEP_CRNT_uAH in if c < 0 then 0 else c)"

definition capacity_percent :: "rat \<Rightarrow> u8" where
  "capacity_percent cap = word_of_int \<lfloor>f32_mul (f32_div cap FULL_BAT_CAPACITY_uAH) DEFAULT_BATT_PER\<rfloor>"

definition activity_battery_percentage_work_handler :: "env \<Rightarrow> 'a bat_sys_scheme \<Rightarrow> 'a bat_sys_scheme" where
  "activity_battery_percentage_work_handler E s =
     (let s1 = lock M_battery s;
          cap = drained (f32_val (dd_RemainingBatCap (dyn s1)));
          s2 = set_DynamicData ((dyn s1)\<lparr>dd_RemainingBatCap := f32_bits cap\<rparr>) s1;
          s3 = s2\<lparr>bat := (bat s2)\<lparr>gu8_ActBasedBattPercent := capacity_percent cap\<rparr>\<rparr>;
          s4 = (if gu8_ActBasedBattPercent (bat s3) \<noteq> gu8_LastActBasedBattPercent (bat s3) then
                  let s' = s3\<lparr>bat := (bat s3)\<lparr>gu8_LastActBasedBattPercent := gu8_ActBasedBattPercent (bat s3)\<rparr>\<rparr>
                  in snd (write_nvs_data E DYNAMIC_DATA_KEY (dyn_bytes (dyn s')) s')
                else s3);
          s5 = unlock M_battery s4
      in invoke (K (Work_schedule W_battery_activity (CONFIG_APP_BATTERY_PERCENTAGE_CAL_INTERVAL * 60000))) s5)"

definition battery_level_set_init :: "env \<Rightarrow> 'a bat_sys_scheme \<Rightarrow> int \<times> 'a bat_sys_scheme" where
  "battery_level_set_init E s =
     (let (err, s1) = battery_measure E s
      in if err \<noteq> 0 then (err, s1)
         else let (err, s2) = battery_level_set E True s1
              in if err \<noteq> 0 then (err, s2) else (0, s2))"

definition app_battery_init :: "env \<Rightarrow> 'a bat_sys_scheme \<Rightarrow> int \<times> 'a bat_sys_scheme" where
  "app_battery_init E s =
     (let (err, s1) = battery_init E s
      in if err \<noteq> 0 then (err, s1)
         else
           let (err, s2) = battery_level_set_init E s1
           in if err \<noteq> 0 then (err, s2)
              else
                let s3 = invoke (K (Work_init W_battery_activity)) s2;
                    s4 = invoke (K (Work_init W_battery_poll)) s3;
                    s5 = invoke (K (Work_init W_battery_level_set)) s4;
                    s6 = invoke (K (Work_schedule W_battery_activity 0)) s5
                in (0, invoke (K (Work_schedule W_battery_poll 0)) s6))"

section \<open>The percentage in floating point\<close>

lemma drained_nat:
  assumes "n < 2 ^ 24"
  shows "drained (of_nat n) = of_nat (n - 14)"
proof (cases "14 \<le> n")
  case True
  then have "(of_nat n - 14 :: rat) = of_nat (n - 14)" by (simp add: of_nat_diff)
  moreover have "n - 14 < 2 ^ 24" using assms by simp
  ultimately have "f32_sub (of_nat n) AVG_DEEPSLEEP_CRNT_uAH = of_nat (n - 14)"
    by (simp only: f32_sub_def AVG_DEEPSLEEP_CRNT_uAH_def f32_rnd_of_nat)
  then show ?thesis by (simp only: drained_def Let_def) simp
next
  case False
  then have eq: "(of_nat n - 14 :: rat) = - of_nat (14 - n)" by (simp add: of_nat_diff)
  have "14 - n < 2 ^ 24" by simp
  then have "f32_rnd (of_nat n - 14) = - of_nat (14 - n)"
    using False f32_rnd_of_nat [of "14 - n"] unfolding eq by (simp add: f32_rnd_def)
  moreover have "(of_nat (14 - n) :: rat) > 0" using False by simp
  ultimately show ?thesis
    using False by (simp add: drained_def f32_sub_def AVG_DEEPSLEEP_CRNT_uAH_def Let_def)
qed

lemma percent_via:
  fixes x :: rat
  assumes x: "2 powi e \<le> x" "x < 2 powi (e + 1)" "- 126 \<le> e" "\<bar>x / 2 powi (e - 23) - of_int a\<bar> < 1 / 2"
    and y: "2 powi d \<le> of_int a * (2 powi (e - 23) :: rat) * 100" "of_int a * (2 powi (e - 23) :: rat) * 100 < 2 powi (d + 1)"
      "- 126 \<le> d" "\<bar>of_int a * 2 powi (e - 23) * 100 / 2 powi (d - 23) - of_int b\<bar> < (1 / 2 :: rat)"
    and q: "of_int q \<le> of_int b * (2 powi (d - 23) :: rat)" "of_int b * (2 powi (d - 23) :: rat) < of_int q + 1"
  shows "\<lfloor>f32_rnd (f32_rnd x * 100)\<rfloor> = q"
  unfolding f32_rndI [OF x] f32_rndI [OF y] by (rule floor_unique) (rule q)+

text \<open>The multiples of one percent that the capacity reaches in steps of 14.\<close>

lemma percent_93: "\<lfloor>f32_rnd (f32_rnd (93 / 100) * 100)\<rfloor> = 93"
  by (rule percent_via [of "-1" _ 15602811 6 12189696]) (simp_all add: power_int_def power_one_over)

lemma percent_86: "\<lfloor>f32_rnd (f32_rnd (86 / 100) * 100)\<rfloor> = 86"
  by (rule percent_via [of "-1" _ 14428406 6 11272192]) (simp_all add: power_int_def power_one_over)

lemma percent_79: "\<lfloor>f32_rnd (f32_rnd (79 / 100) * 100)\<rfloor> = 79"
  by (rule percent_via [of "-1" _ 13254001 6 10354688]) (simp_all add: power_int_def power_one_over)

lemma percent_72: "\<lfloor>f32_rnd (f32_rnd (72 / 100) * 100)\<rfloor> = 72"
  by (rule percent_via [of "-1" _ 12079596 6 9437184]) (simp_all add: power_int_def power_one_over)

lemma percent_65: "\<lfloor>f32_rnd (f32_rnd (65 / 100) * 100)\<rfloor> = 65"
  by (rule percent_via [of "-1" _ 10905190 6 8519680]) (simp_all add: power_int_def power_one_over)

lemma percent_58: "\<lfloor>f32_rnd (f32_rnd (58 / 100) * 100)\<rfloor> = 58"
  by (rule percent_via [of "-1" _ 9730785 5 15204352]) (simp_all add: power_int_def power_one_over)

lemma percent_51: "\<lfloor>f32_rnd (f32_rnd (51 / 100) * 100)\<rfloor> = 51"
  by (rule percent_via [of "-1" _ 8556380 5 13369344]) (simp_all add: power_int_def power_one_over)

lemma percent_44: "\<lfloor>f32_rnd (f32_rnd (44 / 100) * 100)\<rfloor> = 44"
  by (rule percent_via [of "-2" _ 14763950 5 11534336]) (simp_all add: power_int_def power_one_over)

lemma percent_37: "\<lfloor>f32_rnd (f32_rnd (37 / 100) * 100)\<rfloor> = 37"
  by (rule percent_via [of "-2" _ 12415140 5 9699328]) (simp_all add: power_int_def power_one_over)

lemma percent_30: "\<lfloor>f32_rnd (f32_rnd (30 / 100) * 100)\<rfloor> = 30"
  by (rule percent_via [of "-2" _ 10066330 4 15728641]) (simp_all add: power_int_def power_one_over)

lemma percent_23: "\<lfloor>f32_rnd (f32_rnd (23 / 100) * 100)\<rfloor> = 23"
  by (rule percent_via [of "-3" _ 15435039 4 12058624]) (simp_all add: power_int_def power_one_over)

lemma percent_16: "\<lfloor>f32_rnd (f32_rnd (16 / 100) * 100)\<rfloor> = 16"
  by (rule percent_via [of "-3" _ 10737418 3 16777216]) (simp_all add: power_int_def power_one_over)

lemma percent_9: "\<lfloor>f32_rnd (f32_rnd (9 / 100) * 100)\<rfloor> = 9"
  by (rule percent_via [of "-4" _ 12079596 3 9437184]) (simp_all add: power_int_def power_one_over)

lemma percent_2: "\<lfloor>f32_rnd (f32_rnd (2 / 100) * 100)\<rfloor> = 2"
  by (rule percent_via [of "-6" _ 10737418 0 16777216]) (simp_all add: power_int_def power_one_over)

lemmas percent_multiples = percent_93 percent_86 percent_79 percent_72 percent_65 percent_58 percent_51 percent_44 percent_37 percent_30 percent_23 percent_16 percent_9 percent_2

lemma percent_between:
  assumes "0 < n" "n < 2160000" "n mod 21600 \<noteq> 0"
  shows "\<lfloor>f32_rnd (f32_rnd (of_nat n / 2160000) * 100)\<rfloor> = int (n div 21600)"
proof -
  define q r where "q = n div 21600" and "r = n mod 21600"
  have n: "n = 21600 * q + r" "1 \<le> r" "r \<le> 21599"
    using assms(3) mod_less_divisor [of 21600 n] by (simp_all add: q_def r_def)
  have nr: "(of_nat n :: rat) = 21600 * of_nat q + of_nat r" by (simp add: n(1))
  have rr: "1 \<le> (of_nat r :: rat)" "(of_nat r :: rat) \<le> 21599"
    using n(2,3) by (metis of_nat_1 of_nat_le_iff) (metis n(3) of_nat_le_iff of_nat_numeral)
  define x where "x = (of_nat n / 2160000 :: rat)"
  have x: "0 < x" "x < 2 powi 0"
    using assms(1,2) by (simp_all add: x_def)
  have c1: "\<bar>f32_rnd x - x\<bar> \<le> 1 / 33554432"
    using f32_rnd_close [OF x] by (simp add: power_int_def power_one_over)
  have x0: "1 / 2160000 \<le> x" using assms(1) by (simp add: x_def field_simps)
  define y where "y = f32_rnd x * 100"
  have y: "0 < y" "y < 2 powi 7"
    using c1 x x0 unfolding y_def abs_le_iff by (simp_all add: power_int_def)
  have c2: "\<bar>f32_rnd y - y\<bar> \<le> 1 / 262144"
    using f32_rnd_close [OF y] by (simp add: power_int_def power_one_over)
  have "x * 100 = of_nat q + of_nat r / 21600" by (simp add: x_def nr field_simps)
  then have "of_nat q \<le> f32_rnd y" "f32_rnd y < of_nat q + 1"
    using c1 c2 rr unfolding y_def abs_le_iff by linarith+
  then have "\<lfloor>f32_rnd y\<rfloor> = int q" by (simp add: floor_eq_iff)
  then show ?thesis by (simp add: y_def x_def q_def)
qed

text \<open>The capacities reached from a full battery in steps of 14 give their exact percentage.\<close>

definition reachable_capacity :: "nat \<Rightarrow> bool" where
  "reachable_capacity n \<longleftrightarrow> n = 0 \<or> n < 2160000 \<and> 14 dvd 2160000 - n"

lemma capacity_percent_exact:
  assumes "reachable_capacity n"
  shows "capacity_percent (of_nat n) = of_nat (n div 21600)"
proof -
  have "\<lfloor>f32_rnd (f32_rnd (of_nat n / 2160000) * 100)\<rfloor> = int (n div 21600)"
  proof (cases "n mod 21600 = 0 \<and> n \<noteq> 0")
    case False
    then show ?thesis
      using assms percent_between [of n] by (cases "n = 0") (auto simp: reachable_capacity_def)
  next
    case True
    then obtain q where q: "n = 21600 * q" by (auto elim: dvdE)
    with True assms have "q < 100" "0 < q" "14 dvd 2160000 - 21600 * q" by (auto simp: reachable_capacity_def)
    then obtain d where "2160000 - 21600 * q = 14 * d" by (elim dvdE)
    with \<open>q < 100\<close> have d: "21600 * q + 14 * d = 2160000" by linarith
    define k where "k = 1543 * q + d - 154286"
    have k: "q = 7 * k + 2" using d unfolding k_def by linarith
    with \<open>q < 100\<close> have "k < 14" by linarith
    then have "k \<in> {0, 1, 2, 3, 4, 5, 6, 7, 8, 9, 10, 11, 12, 13}" by simp arith
    then have "q \<in> {2, 9, 16, 23, 30, 37, 44, 51, 58, 65, 72, 79, 86, 93}" by (auto simp: k)
    then have "\<lfloor>f32_rnd (f32_rnd (of_nat q / 100) * 100)\<rfloor> = int q"
      using percent_multiples by (elim insertE emptyE) simp_all
    then show ?thesis by (simp add: q)
  qed
  then show ?thesis by (simp add: capacity_percent_def f32_mul_def f32_div_def bat_consts)
qed

section \<open>The two estimates\<close>

lemma dyn_frame [simp]:
  "gd (s\<lparr>bat := b\<rparr>) = gd s" "bat (set_DynamicData d s) = bat s"
  "gd (lock m s) = gd s" "gd (unlock m s) = gd s"
  by (simp_all add: set_DynamicData_def lock_def unlock_def)

definition is_nvs_write :: "u16 \<Rightarrow> ev \<Rightarrow> bool" where
  "is_nvs_write key e = (case e of DEV (Nvs_write k _) \<Rightarrow> k = key | _ \<Rightarrow> False)"

definition nvs_writes :: "u16 \<Rightarrow> ev list \<Rightarrow> nat" where
  "nvs_writes key es = length (filter (is_nvs_write key) es)"

lemma nvs_writes_append [simp]: "nvs_writes k (es @ fs) = nvs_writes k es + nvs_writes k fs"
  by (simp add: nvs_writes_def)

lemma activity_step:
  fixes E
  assumes cap: "f32_val (dd_RemainingBatCap (dyn s)) = of_nat n" and n: "n < 2 ^ 24" "reachable_capacity (n - 14)"
    and l: "locks (trace s) = Free"
  defines "t \<equiv> activity_battery_percentage_work_handler E s"
  defines "p \<equiv> of_nat ((n - 14) div 21600) :: u8"
  shows "f32_val (dd_RemainingBatCap (dyn t)) = of_nat (n - 14) \<and> locks (trace t) = Free
    \<and> gu8_ActBasedBattPercent (bat t) = p \<and> gu8_LastActBasedBattPercent (bat t) = p
    \<and> nvs_writes DYNAMIC_DATA_KEY (trace t) =
        nvs_writes DYNAMIC_DATA_KEY (trace s) + (if p = gu8_LastActBasedBattPercent (bat s) then 0 else 1)"
proof -
  have d: "drained (f32_val (dd_RemainingBatCap (dyn s))) = of_nat (n - 14)"
    using n(1) by (simp only: cap drained_nat)
  have v: "f32_val (f32_bits (of_nat (n - 14))) = of_nat (n - 14)"
    using n(1) by (intro f32_val_bits) simp
  have p: "capacity_percent (of_nat (n - 14)) = p"
    using n(2) by (simp only: capacity_percent_exact p_def)
  show ?thesis
    unfolding t_def activity_battery_percentage_work_handler_def
    by (simp add: d v p l Let_def write_nvs_data_def nvs_writes_def is_nvs_write_def)
qed

lemma reachable_steps: "0 < j \<Longrightarrow> reachable_capacity (2160000 - 14 * j)"
  by (cases "14 * j \<le> 2160000") (simp_all add: reachable_capacity_def)

lemma percent_step: "(n - 14) div 21600 = n div 21600 \<or> Suc ((n - 14) div 21600) = n div (21600 :: nat)"
proof -
  have "(n - 14) div 21600 \<le> n div 21600" by (rule div_le_mono) simp
  moreover have "n div 21600 \<le> ((n - 14) + 21600) div 21600" by (rule div_le_mono) simp
  moreover have "((n - 14) + 21600) div 21600 = Suc ((n - 14) div 21600)" by simp
  ultimately show ?thesis by linarith
qed

lemma count_step: "(q :: nat) = p \<or> Suc q = p \<Longrightarrow> p < 100 \<Longrightarrow> 100 - p + (if q = p then 0 else 1) = 100 - q"
  by auto

definition bat_init_state :: bat_sys where
  "bat_init_state = dev_sys.extend (ring_sys.extend (set_DynamicData (load_dynamic_runtime_defaults zero_DynamicData) ring_init_state)
     \<lparr>wdt_channel_id = 0\<rparr>) \<lparr>bat = bat_st_init\<rparr>"

lemma bat_init_state_simps [simp]: "trace bat_init_state = []" "bat bat_init_state = bat_st_init"
  "dd_RemainingBatCap (dyn bat_init_state) = FULL_BAT_CAPACITY_bits"
  "gu8_LastActBasedBattPercent bat_st_init = 0"
  by (simp_all add: bat_st_init_def bat_init_state_def dev_sys.extend_def ring_sys.extend_def set_DynamicData_def load_dynamic_runtime_defaults_def)

lemma bat_init_adv [simp]: "adv_inv bat_init_state"
  by (simp add: bat_init_state_def ring_init_state_def svc_init_state_def dfu_init_state_def ui_init_state_def uart_init_state_def
      svc_sys.extend_def dfu_sys.extend_def ui_sys.extend_def uart_sys.extend_def
      dev_sys.extend_def ring_sys.extend_def set_DynamicData_def adv_inv_unfold adv_st_init_def)

lemma full_capacity [simp]: "f32_val FULL_BAT_CAPACITY_bits = 2160000"
  by (simp add: f32_val_def FULL_BAT_CAPACITY_bits_def power_int_def power_one_over)

lemma volt_table_unfold:
  "gu8_Volt2PercentTable v = (if 3390 \<le> v then 75 else if 3355 \<le> v then 70 else if 3320 \<le> v then 65
     else if 3285 \<le> v then 60 else if 3250 \<le> v then 55 else if 3215 \<le> v then 50 else if 3180 \<le> v then 45
     else if 3145 \<le> v then 40 else if 3110 \<le> v then 35 else if 3075 \<le> v then 30 else if 3040 \<le> v then 25
     else if 3005 \<le> v then 20 else if 2970 \<le> v then 15 else if 2935 \<le> v then 10 else if 2900 \<le> v then 5 else 0)"
proof -
  have n: "15 = Suc (Suc (Suc (Suc (Suc (Suc (Suc (Suc (Suc (Suc (Suc (Suc (Suc (Suc (Suc 0))))))))))))))" by simp
  show ?thesis
    unfolding gu8_Volt2PercentTable_def n by (simp only: volt2percent_loop.simps gu16_voltTable_def gu8_pergTable_def nth_Cons_0 nth_Cons_Suc)
qed

text \<open>For every ADC value the loop over the table returns the closed form.\<close>

definition table_percent :: "int \<Rightarrow> u8" where
  "table_percent v = (if v < 2900 then 0 else word_of_int (min 75 (5 * ((v - 2900) div 35 + 1))))"

lemma volt_table_closed: "gu8_Volt2PercentTable v = table_percent v"
proof -
  consider "v < 2900" | "3390 \<le> v" | "2900 \<le> v" "v < 3390" by linarith
  then show ?thesis
  proof cases
    case 1
    then show ?thesis by (simp add: volt_table_unfold table_percent_def)
  next
    case 2
    then have "14 \<le> (v - 2900) div 35" by (simp add: zdiv_mono1 [of 490 "v - 2900" 35, simplified])
    with 2 show ?thesis by (simp add: volt_table_unfold table_percent_def)
  next
    case 3
    define k where "k = nat ((v - 2900) div 35)"
    have k: "(v - 2900) div 35 = int k" using 3 by (simp add: k_def pos_imp_zdiv_nonneg_iff)
    then have v: "2900 + 35 * int k \<le> v" "v < 2935 + 35 * int k"
      using pos_mod_bound [of 35 "v - 2900"] pos_mod_sign [of 35 "v - 2900"] mult_div_mod_eq [of 35 "v - 2900"] by linarith+
    with 3 have "k < 14" by linarith
    then have "k \<in> {0, 1, 2, 3, 4, 5, 6, 7, 8, 9, 10, 11, 12, 13}" by simp arith
    then show ?thesis using v unfolding table_percent_def k
      by (elim insertE emptyE) (simp_all add: volt_table_unfold table_percent_def)
  qed
qed

text \<open>What the two updates of the advertiser do, as far as the battery component relies on it.\<close>

lemma updateAdvBatmV_effect:
  "bat (updateAdvBatmV E v s) = bat s"
  "sp_Bitfield3 (sd_data (active_svc_data (adv (updateAdvBatmV E v s)))) = bat_mV_bitfield v"
  "\<exists>es. trace (updateAdvBatmV E v s) = trace s @ es \<and> (\<forall>c. FP c \<notin> set es)"
  by (auto simp: updateAdvBatmV_def push_payload_def Let_def split: option.splits)

lemma updateAdvBatLevel_effect:
  "bat (updateAdvBatLevel E p s) = bat s"
  "sp_BatPercentage (sd_data (active_svc_data (adv (updateAdvBatLevel E p s)))) = p"
  "sp_Bitfield3 (sd_data (active_svc_data (adv (updateAdvBatLevel E p s)))) = sp_Bitfield3 (sd_data (active_svc_data (adv s)))"
  "\<exists>es. trace (updateAdvBatLevel E p s) = trace s @ es \<and> (\<forall>c. FP c \<notin> set es)"
  by (auto simp: updateAdvBatLevel_def push_payload_def Let_def split: option.splits)

lemma adv_inv_bat [simp]: "adv_inv (s\<lparr>bat := b\<rparr>) = adv_inv s"
  by (simp add: adv_inv_unfold)

lemma adv_inv_event: "adv_inv s \<Longrightarrow> lock_step Free e = Free \<Longrightarrow> \<forall>p. push_step p e = p \<Longrightarrow> adv_inv (invoke e s)"
  by (simp add: adv_inv_unfold)

section \<open>Properties\<close>

text \<open>
  C14: The consumption-based estimate.  Starting from a full cell, the hourly handler has
  after \<open>j\<close> hours the exact remaining capacity in the persistent data (no rounding error
  builds up in the float), its percentage is the exact integer quotient, no mutex stays held,
  and the flash has been written once for each percent lost, so at most 100 times in all.
\<close>

theorem battery_drain_exact:
  fixes E
  assumes "f32_val (dd_RemainingBatCap (dyn s)) = 2160000" and "gu8_LastActBasedBattPercent (bat s) = 0"
    and "locks (trace s) = Free" and "0 < j"
  defines "t \<equiv> (activity_battery_percentage_work_handler E ^^ j) s"
  defines "percent \<equiv> (2160000 - 14 * j) div 21600"
  shows "f32_val (dd_RemainingBatCap (dyn t)) = of_nat (2160000 - 14 * j)
    \<and> unat (gu8_ActBasedBattPercent (bat t)) = percent \<and> locks (trace t) = Free
    \<and> nvs_writes DYNAMIC_DATA_KEY (trace t) = nvs_writes DYNAMIC_DATA_KEY (trace s) + (100 - percent)"
proof -
  have pc: "(2160000 - 14 * j) div 21600 < 100" if "0 < j" for j :: nat using that by auto
  let ?P = "\<lambda>j t. f32_val (dd_RemainingBatCap (dyn t)) = of_nat (2160000 - 14 * j) \<and> locks (trace t) = Free
    \<and> gu8_ActBasedBattPercent (bat t) = of_nat ((2160000 - 14 * j) div 21600)
    \<and> gu8_LastActBasedBattPercent (bat t) = of_nat ((2160000 - 14 * j) div 21600)
    \<and> nvs_writes DYNAMIC_DATA_KEY (trace t) = nvs_writes DYNAMIC_DATA_KEY (trace s) + (100 - (2160000 - 14 * j) div 21600)"
  have "?P j ((activity_battery_percentage_work_handler E ^^ j) s)" using \<open>0 < j\<close>
  proof (induction j rule: nat_induct_non_zero)
    case 1
    show ?case using activity_step [of s 2160000 E] reachable_steps [of 1] assms(1-3) by simp
  next
    case (Suc j)
    let ?n = "2160000 - 14 * j" and ?s = "(activity_battery_percentage_work_handler E ^^ j) s"
    have m: "?n - 14 = 2160000 - 14 * Suc j" by simp
    let ?p = "?n div 21600" and ?q = "(2160000 - 14 * Suc j) div 21600"
    let ?P' = "\<lambda>t. f32_val (dd_RemainingBatCap (dyn t)) = of_nat (2160000 - 14 * Suc j) \<and> locks (trace t) = Free
      \<and> gu8_ActBasedBattPercent (bat t) = of_nat ?q \<and> gu8_LastActBasedBattPercent (bat t) = of_nat ?q
      \<and> nvs_writes DYNAMIC_DATA_KEY (trace t) = nvs_writes DYNAMIC_DATA_KEY (trace ?s)
          + (if (of_nat ?q :: u8) = of_nat ?p then 0 else 1)"
    have lt: "?p < 100" "?q < 100" using pc [OF Suc.hyps] pc [of "Suc j"] by simp_all
    then have eq: "(of_nat ?q :: u8) = of_nat ?p \<longleftrightarrow> ?q = ?p"
      by (simp add: word_of_nat_eq_iff take_bit_nat_eq_self)
    have one: "?q = ?p \<or> Suc ?q = ?p" using percent_step [of ?n] unfolding m .
    have ih: "?P j ?s" by (rule Suc.IH)
    have "reachable_capacity (?n - 14)" unfolding m by (rule reachable_steps) simp
    then have st: "?P' (activity_battery_percentage_work_handler E ?s)"
      using activity_step [of ?s ?n E, unfolded m] ih by simp
    have "100 - ?p + (if (of_nat ?q :: u8) = of_nat ?p then 0 else 1) = 100 - ?q"
      using count_step [OF one lt(1)] unfolding eq .
    then show ?case using st ih by (simp only: funpow.simps o_apply add.assoc simp_thms)
  qed
  moreover have "unat (of_nat percent :: u8) = percent" using pc [OF \<open>0 < j\<close>] by (simp add: percent_def unat_of_nat)
  ultimately show ?thesis by (simp add: t_def percent_def)
qed

theorem battery_drain_exact_witness:
  "let s = bat_init_state; t = (activity_battery_percentage_work_handler (const_env 0) ^^ 100000) s
   in unat (gu8_ActBasedBattPercent (bat t)) = 35 \<and> nvs_writes DYNAMIC_DATA_KEY (trace t) = 65"
  using battery_drain_exact [of bat_init_state 100000 "const_env 0"] by (simp add: Let_def bat_init_state_simps nvs_writes_def)

text \<open>
  C29: One poll and the level report it submits.  When the ADC and the library work, the
  measured charge (below 3.4 V five percent for each 35 mV from 2.9 V on, at most 75 percent,
  above it the consumption-based estimate), the level known to the library, the percentage and the voltage field in
  the advertising payload all describe the same measurement, the stack has that payload, the
  library is called exactly when the level changed, and the next poll is scheduled.
\<close>

theorem battery_poll_publishes:
  fixes E
  assumes inv: "adv_inv s" and ok: "\<forall>es. ret E es = 0"
  defines "t \<equiv> battery_level_set_work_handler E (battery_periodic_poll_handler E s)"
    and "raw \<equiv> to_s16 (out E (trace s @ [K (Busy_wait_us 100), DEV Adc_read]))"
  defines "mV \<equiv> to_s32 (out E (trace s @ [K (Busy_wait_us 100), DEV Adc_read, DEV (Adc_raw_to_millivolts raw)]))"
  defines "p \<equiv> (if 3400 \<le> mV then gu8_ActBasedBattPercent (bat s) else if mV < 2900 then 0
      else word_of_int (min 75 (5 * ((mV - 2900) div 35 + 1))))"
  shows "battery_charge (bat t) = p \<and> battery_level (bat t) = p
    \<and> sp_BatPercentage (sd_data (active_svc_data (adv t))) = p
    \<and> sp_Bitfield3 (sd_data (active_svc_data (adv t))) = bat_mV_bitfield (word_of_int mV)
    \<and> adv_inv t
    \<and> (\<exists>es. trace t = trace s @ es \<and> (FP (Battery_level_set p) \<in> set es \<longleftrightarrow> battery_level (bat s) \<noteq> p)
         \<and> K (Work_schedule W_battery_poll 600000) \<in> set es)"
proof -
  define s0 where "s0 = invoke (K (Busy_wait_us 100)) s"
  define s1 where "s1 = (invoke (DEV Adc_read) s0)\<lparr>bat := (bat s)\<lparr>adc_raw_data := raw\<rparr>\<rparr>"
  define s2 where "s2 = updateAdvBatmV E (word_of_int mV) (invoke (DEV (Adc_raw_to_millivolts raw)) s1)"
  define s3 where "s3 = snd (voltage_to_percent_convert mV s2)"
  define s4 where "s4 = updateAdvBatLevel E p (s3\<lparr>bat := (bat s3)\<lparr>battery_charge := p\<rparr>\<rparr>)"
  have s0: "trace s0 = trace s @ [K (Busy_wait_us 100)]" "bat s0 = bat s" "adv_inv s0"
    using inv by (simp_all add: s0_def adv_inv_event)
  have s1: "trace s1 = trace s @ [K (Busy_wait_us 100), DEV Adc_read]" "bat s1 = (bat s)\<lparr>adc_raw_data := raw\<rparr>" "adv_inv s1"
    using s0 by (simp_all add: s1_def adv_inv_event)
  have vg: "battery_voltage_get E s0 = (0, mV, s2)"
    using ok s0 by (simp add: battery_voltage_get_def Let_def result_def outval_def s2_def s1_def mV_def raw_def)
  have s2: "bat s2 = bat s1" "adv_inv s2" "sp_Bitfield3 (sd_data (active_svc_data (adv s2))) = bat_mV_bitfield (word_of_int mV)"
    using s1 by (simp_all add: s2_def updateAdvBatmV_effect battery_inv adv_inv_event)
  obtain es2 where es2: "trace s2 = trace s @ es2" "\<forall>c. FP c \<notin> set es2"
    using updateAdvBatmV_effect(3) [of E "word_of_int mV" "invoke (DEV (Adc_raw_to_millivolts raw)) s1"] s1(1)
    by (auto simp: s2_def)
  have vc: "voltage_to_percent_convert mV s2 = (p, s3)"
    using s1(2) s2(1) by (simp add: s3_def voltage_to_percent_convert_def p_def Let_def volt_table_closed table_percent_def)
  have s3: "bat s3 = bat s1" "adv s3 = adv s2" "adv_inv s3" "\<exists>es3. trace s3 = trace s @ es3 \<and> (\<forall>c. FP c \<notin> set es3)"
    using s2 es2 by (auto simp: s3_def voltage_to_percent_convert_def Let_def adv_inv_unfold)
  then obtain es3 where es3: "trace s3 = trace s @ es3" "\<forall>c. FP c \<notin> set es3" by blast
  have s4: "battery_charge (bat s4) = p" "battery_level (bat s4) = battery_level (bat s)" "adv_inv s4"
    "sp_BatPercentage (sd_data (active_svc_data (adv s4))) = p"
    "sp_Bitfield3 (sd_data (active_svc_data (adv s4))) = bat_mV_bitfield (word_of_int mV)"
    using s1(2) s2(3) s3(1-3) by (simp_all add: s4_def updateAdvBatLevel_effect battery_inv)
  obtain es4 where es4: "trace s4 = trace s @ es4" "\<forall>c. FP c \<notin> set es4"
    using updateAdvBatLevel_effect(4) [of E p "s3\<lparr>bat := (bat s3)\<lparr>battery_charge := p\<rparr>\<rparr>"] es3 by (auto simp: s4_def)
  have m: "battery_measure E s = (0, s4)"
    using vg vc by (simp add: battery_measure_def s0_def [symmetric] s4_def Let_def)
  show ?thesis
    using ok s4 es4
    by (auto simp: t_def battery_periodic_poll_handler_def battery_level_set_work_handler_def battery_level_set_def
        m Let_def result_def adv_inv_event CONFIG_APP_BATTERY_VOLTAGE_POLL_INTERVAL_def)
qed

text \<open>Polls of a fresh tracker at 3.0 V and at 3.5 V: the full cell is reported as empty.\<close>

theorem battery_poll_publishes_witness:
  "let E = (\<lambda>v. (const_env 0)\<lparr>out := \<lambda>_. v\<rparr>);
       t = (\<lambda>v. battery_level_set_work_handler (E v) (battery_periodic_poll_handler (E v) bat_init_state))
   in FP (Battery_level_set 15) \<in> set (trace (t 3000)) \<and> FP (Battery_level_set 0) \<in> set (trace (t 3500))"
  using battery_poll_publishes [of bat_init_state "(const_env 0)\<lparr>out := \<lambda>_. 3000\<rparr>"]
    battery_poll_publishes [of bat_init_state "(const_env 0)\<lparr>out := \<lambda>_. 3500\<rparr>"]
  by (auto simp: Let_def const_env_def to_s32_def to_s16_def bat_st_init_def)

end
