(* ===== verification/Printf.thy ===== *)
theory Printf
  imports Prelude
begin

text \<open>
  The log lines of the firmware as values: the conversions of \<open>printf\<close> that the modelled log
  lines use, with the lemmas that a printed number can be read back, so that a line
  determines the values in it.  A function that only logs is modelled by the list of lines
  it hands to the logger.
\<close>

datatype log_line = LOG_INF string | LOG_WRN string

section \<open>Digits\<close>

definition digit_char :: "nat \<Rightarrow> char" where
  "digit_char d = ''0123456789ABCDEF'' ! d"

function digits :: "nat \<Rightarrow> nat \<Rightarrow> string" where
  "digits b n = (if n < b \<or> b < 2 then [digit_char n] else digits b (n div b) @ [digit_char (n mod b)])"
  by pat_completeness auto
termination by (relation "measure snd") (auto intro: div_less_dividend)

declare digits.simps [simp del]

definition digit_val :: "char \<Rightarrow> nat" where
  "digit_val c = (if (of_char c :: nat) < 65 then of_char c - 48 else of_char c - 55)"

definition read_number :: "nat \<Rightarrow> string \<Rightarrow> nat" where
  "read_number b = foldl (\<lambda>a c. a * b + digit_val c) 0"

definition is_digit :: "char \<Rightarrow> bool" where
  "is_digit c \<longleftrightarrow> c \<in> set ''0123456789ABCDEF''"

lemma digit_char_cases: "d < 16 \<Longrightarrow> digit_val (digit_char d) = d \<and> is_digit (digit_char d)"
proof -
  assume "d < 16"
  then have "d \<in> {0, 1, 2, 3, 4, 5, 6, 7, 8, 9, 10, 11, 12, 13, 14, 15}" by simp arith
  then show ?thesis
    by (elim insertE emptyE) (simp_all add: digit_char_def digit_val_def is_digit_def)
qed

lemma read_number_snoc: "read_number b (s @ [c]) = read_number b s * b + digit_val c"
  by (simp add: read_number_def)

lemma read_digits: "2 \<le> b \<Longrightarrow> b \<le> 16 \<Longrightarrow> read_number b (digits b n) = n"
proof (induction b n rule: digits.induct)
  case (1 b n)
  show ?case
  proof (cases "n < b")
    case True
    with 1 show ?thesis by (simp add: digits.simps [of b n] read_number_def digit_char_cases)
  next
    case False
    then have "read_number b (digits b n) = read_number b (digits b (n div b)) * b + digit_val (digit_char (n mod b))"
      using 1 by (simp add: digits.simps [of b n] read_number_snoc)
    moreover have "n mod b < 16" using 1(2,3) mod_less_divisor [of b n] by linarith
    ultimately show ?thesis using False 1 by (simp add: digit_char_cases)
  qed
qed

lemma digits_are_digits: "2 \<le> b \<Longrightarrow> b \<le> 16 \<Longrightarrow> c \<in> set (digits b n) \<Longrightarrow> is_digit c"
proof (induction b n rule: digits.induct)
  case (1 b n)
  have "n mod b < 16" using 1(2,3) mod_less_divisor [of b n] by linarith
  with 1 show ?case
    by (cases "n < b") (auto simp: digits.simps [of b n] digit_char_cases)
qed

section \<open>Conversions\<close>

text \<open>Padding with zeros to a width, \<open>%d\<close>, \<open>%+d\<close>, \<open>%02d\<close> of a natural number, \<open>%0wX\<close>, and \<open>%.*s\<close>.\<close>

definition pad :: "nat \<Rightarrow> string \<Rightarrow> string" where
  "pad w s = replicate (w - length s) (CHR ''0'') @ s"

definition fmt_d :: "int \<Rightarrow> string" where
  "fmt_d i = (if i < 0 then CHR ''-'' # digits 10 (nat (- i)) else digits 10 (nat i))"

definition fmt_plus_d :: "int \<Rightarrow> string" where
  "fmt_plus_d i = (if i < 0 then fmt_d i else CHR ''+'' # fmt_d i)"

definition fmt_02d :: "nat \<Rightarrow> string" where
  "fmt_02d n = pad 2 (digits 10 n)"

definition fmt_X :: "nat \<Rightarrow> 'w::len word \<Rightarrow> string" where
  "fmt_X w x = pad w (digits 16 (unat x))"

definition fmt_s :: "nat \<Rightarrow> bytes \<Rightarrow> string" where
  "fmt_s n bs = map (\<lambda>b. char_of (unat b)) (takeWhile (\<lambda>b. b \<noteq> 0) (take n bs))"

lemma read_pad: "read_number b (pad w s) = read_number b s"
proof -
  have "foldl (\<lambda>a c. a * b + digit_val c) 0 (replicate k (CHR ''0'')) = 0" for k
    by (induction k) (simp_all add: digit_val_def)
  then show ?thesis by (simp add: read_number_def pad_def)
qed

lemma pad_inj: "2 \<le> b \<Longrightarrow> b \<le> 16 \<Longrightarrow> pad w (digits b m) = pad w (digits b n) \<longleftrightarrow> m = n"
  using read_digits read_pad by metis

lemma fmt_02d_inj [simp]: "fmt_02d m = fmt_02d n \<longleftrightarrow> m = n"
  by (simp add: fmt_02d_def pad_inj)

lemma fmt_X_inj [simp]: "fmt_X w x = fmt_X w y \<longleftrightarrow> x = y"
  by (simp add: fmt_X_def pad_inj flip: word_unat_eq_iff)

lemma pad_digits: "2 \<le> b \<Longrightarrow> b \<le> 16 \<Longrightarrow> c \<in> set (pad w (digits b n)) \<Longrightarrow> is_digit c"
  by (auto simp: pad_def dest: digits_are_digits split: if_splits) (simp add: is_digit_def)

lemma digits_inj: "digits 10 m = digits 10 n \<longleftrightarrow> m = n"
  using pad_inj [of 10 0 m n] by (simp add: pad_def)

lemma minus_no_digit: "CHR ''-'' # r \<noteq> digits 10 n"
proof
  assume "CHR ''-'' # r = digits 10 n"
  then have "is_digit (CHR ''-'')" using digits_are_digits [of 10 "CHR ''-''" n] by (auto simp flip: \<open>CHR ''-'' # r = digits 10 n\<close>)
  then show False by (simp add: is_digit_def)
qed

lemma fmt_d_inj [simp]: "fmt_d i = fmt_d j \<longleftrightarrow> i = j"
  using minus_no_digit [of _ "nat i"] minus_no_digit [of _ "nat j"]
  by (auto simp: fmt_d_def digits_inj eq_sym_conv [of "digits 10 (nat i)"])

text \<open>No conversion prints a separator of the log lines.\<close>

lemma no_separator:
  assumes "\<not> is_digit c"
  shows "c \<notin> set (fmt_02d n)" "c \<notin> set (fmt_X w x)" "c \<noteq> CHR ''-'' \<Longrightarrow> c \<notin> set (fmt_d i)"
  using assms pad_digits [of 10 c 2 n] pad_digits [of 16 c w "unat x"]
    digits_are_digits [of 10 c "nat i"] digits_are_digits [of 10 c "nat (- i)"]
  by (auto simp: fmt_02d_def fmt_X_def fmt_d_def)

lemma separators [simp]:
  "CHR '' '' \<notin> set (fmt_02d n)" "CHR '' '' \<notin> set (fmt_X w x)" "CHR '' '' \<notin> set (fmt_d i)"
  "CHR '':'' \<notin> set (fmt_02d n)" "CHR '':'' \<notin> set (fmt_X w x)" "CHR '':'' \<notin> set (fmt_d i)"
  "CHR ''%'' \<notin> set (fmt_d i)"
  by (rule no_separator; simp add: is_digit_def)+

lemma up_to_separator:
  "x \<notin> set a \<Longrightarrow> x \<notin> set b \<Longrightarrow> a @ x # r = b @ x # q \<longleftrightarrow> a = b \<and> r = q"
proof (induction a arbitrary: b)
  case Nil
  then show ?case by (cases b) auto
next
  case (Cons y a)
  then show ?case by (cases b) auto
qed

lemma fmt_s_inj: "fmt_s n bs = fmt_s n cs \<longleftrightarrow> takeWhile (\<lambda>b. b \<noteq> 0) (take n bs) = takeWhile (\<lambda>b. b \<noteq> 0) (take n cs)"
proof -
  have "inj (\<lambda>b :: u8. char_of (unat b) :: char)"
  proof (rule injI)
    fix a b :: u8
    assume "(char_of (unat a) :: char) = char_of (unat b)"
    then have "unat a mod 256 = unat b mod 256" by (auto dest: arg_cong [of _ _ of_char])
    moreover have "unat w < 256" for w :: u8 using unsigned_less [of w] by simp
    ultimately show "a = b" by (simp add: word_unat_eq_iff)
  qed
  then show ?thesis by (simp add: fmt_s_def inj_map_eq_map)
qed

end
