(* ===== verification/BatteryLevel.thy ===== *)
theory BatteryLevel
  imports Battery Printf
begin

text \<open>
  src/common.c: the classes of the battery level in the sense of the FMDN and the DULT
  specifications.  The thresholds are options of the libraries, so they are parameters.
  The level is logged with the names of its classes.
\<close>

record level_thresholds =
  FMDN_CRITICAL_THR :: u8
  FMDN_LOW_THR :: u8
  DULT_CRITICAL_THR :: u8
  DULT_LOW_THR :: u8
  DULT_MEDIUM_THR :: u8

datatype app_battery_level_fmdn =
  APP_BATTERY_LEVEL_FMDN_NONE | APP_BATTERY_LEVEL_FMDN_NORMAL | APP_BATTERY_LEVEL_FMDN_LOW | APP_BATTERY_LEVEL_FMDN_CRITICAL

datatype app_battery_level_dult =
  APP_BATTERY_LEVEL_DULT_FULL | APP_BATTERY_LEVEL_DULT_MEDIUM | APP_BATTERY_LEVEL_DULT_LOW | APP_BATTERY_LEVEL_DULT_CRITICAL

text \<open>\<open>BT_FAST_PAIR_FMDN_BATTERY_LEVEL_NONE\<close> is the value of the library that \<open>battery_level\<close> starts with.\<close>

definition BATTERY_LEVEL_NONE :: u8 where "BATTERY_LEVEL_NONE = 0xFF"

definition battery_level_fmdn_get :: "level_thresholds \<Rightarrow> u8 \<Rightarrow> app_battery_level_fmdn" where
  "battery_level_fmdn_get T percentage_level =
     (if percentage_level = BATTERY_LEVEL_NONE then APP_BATTERY_LEVEL_FMDN_NONE
      else if percentage_level \<le> FMDN_CRITICAL_THR T then APP_BATTERY_LEVEL_FMDN_CRITICAL
      else if percentage_level \<le> FMDN_LOW_THR T then APP_BATTERY_LEVEL_FMDN_LOW
      else APP_BATTERY_LEVEL_FMDN_NORMAL)"

definition battery_level_dult_get :: "level_thresholds \<Rightarrow> u8 \<Rightarrow> app_battery_level_dult" where
  "battery_level_dult_get T percentage_level =
     (if percentage_level \<le> DULT_CRITICAL_THR T then APP_BATTERY_LEVEL_DULT_CRITICAL
      else if percentage_level \<le> DULT_LOW_THR T then APP_BATTERY_LEVEL_DULT_LOW
      else if percentage_level \<le> DULT_MEDIUM_THR T then APP_BATTERY_LEVEL_DULT_MEDIUM
      else APP_BATTERY_LEVEL_DULT_FULL)"

fun fmdn_severity :: "app_battery_level_fmdn \<Rightarrow> nat" where
  "fmdn_severity APP_BATTERY_LEVEL_FMDN_NONE = 0"
| "fmdn_severity APP_BATTERY_LEVEL_FMDN_NORMAL = 1"
| "fmdn_severity APP_BATTERY_LEVEL_FMDN_LOW = 2"
| "fmdn_severity APP_BATTERY_LEVEL_FMDN_CRITICAL = 3"

fun dult_severity :: "app_battery_level_dult \<Rightarrow> nat" where
  "dult_severity APP_BATTERY_LEVEL_DULT_FULL = 0"
| "dult_severity APP_BATTERY_LEVEL_DULT_MEDIUM = 1"
| "dult_severity APP_BATTERY_LEVEL_DULT_LOW = 2"
| "dult_severity APP_BATTERY_LEVEL_DULT_CRITICAL = 3"

text \<open>A class is a step function of the level: a lower charge is never less severe.\<close>

locale severity =
  fixes level_class :: "u8 \<Rightarrow> nat" and valid :: "u8 \<Rightarrow> bool"
  assumes antitone: "valid p \<Longrightarrow> valid q \<Longrightarrow> p \<le> q \<Longrightarrow> level_class q \<le> level_class p"
begin

lemma same_class_between:
  assumes "valid p" "valid q" "valid r" "p \<le> q" "q \<le> r" "level_class p = level_class r"
  shows "level_class q = level_class p"
  using antitone [OF assms(1,2,4)] antitone [OF assms(2,3,5)] assms(6) by simp

end

interpretation fmdn_level: severity "\<lambda>p. fmdn_severity (battery_level_fmdn_get T p)" "\<lambda>p. p \<noteq> BATTERY_LEVEL_NONE" for T
proof
  fix p q :: u8
  assume "p \<noteq> BATTERY_LEVEL_NONE" "q \<noteq> BATTERY_LEVEL_NONE" "p \<le> q"
  moreover have "q \<le> t \<Longrightarrow> p \<le> t" for t :: u8 using \<open>p \<le> q\<close> by (rule order_trans)
  ultimately show "fmdn_severity (battery_level_fmdn_get T q) \<le> fmdn_severity (battery_level_fmdn_get T p)"
    by (auto simp: battery_level_fmdn_get_def)
qed

interpretation dult_level: severity "\<lambda>p. dult_severity (battery_level_dult_get T p)" "\<lambda>_. True" for T
proof
  fix p q :: u8
  assume "p \<le> q"
  moreover have "q \<le> t \<Longrightarrow> p \<le> t" for t :: u8 using \<open>p \<le> q\<close> by (rule order_trans)
  ultimately show "dult_severity (battery_level_dult_get T q) \<le> dult_severity (battery_level_dult_get T p)"
    by (auto simp: battery_level_dult_get_def)
qed

section \<open>The log\<close>

text \<open>
  \<open>app_battery_level_log\<close> names the classes; \<open>dult\<close> is the option
  \<open>CONFIG_BT_FAST_PAIR_FMDN_BATTERY_DULT\<close>.  With it the class of an unknown level is computed
  too (against the assertion of \<open>battery_level_dult_get\<close>) but not used.
\<close>

fun battery_level_fmdn_desc :: "app_battery_level_fmdn \<Rightarrow> string" where
  "battery_level_fmdn_desc APP_BATTERY_LEVEL_FMDN_NONE = ''Unsupported''"
| "battery_level_fmdn_desc APP_BATTERY_LEVEL_FMDN_NORMAL = ''Normal''"
| "battery_level_fmdn_desc APP_BATTERY_LEVEL_FMDN_LOW = ''Low''"
| "battery_level_fmdn_desc APP_BATTERY_LEVEL_FMDN_CRITICAL = ''Critically low''"

fun battery_level_dult_desc :: "app_battery_level_dult \<Rightarrow> string" where
  "battery_level_dult_desc APP_BATTERY_LEVEL_DULT_FULL = ''Full''"
| "battery_level_dult_desc APP_BATTERY_LEVEL_DULT_MEDIUM = ''Medium''"
| "battery_level_dult_desc APP_BATTERY_LEVEL_DULT_LOW = ''Low''"
| "battery_level_dult_desc APP_BATTERY_LEVEL_DULT_CRITICAL = ''Critically low''"

definition app_battery_level_log :: "level_thresholds \<Rightarrow> bool \<Rightarrow> u8 \<Rightarrow> log_line list" where
  "app_battery_level_log T dult percentage_level =
     (let battery_level_fmdn = battery_level_fmdn_get T percentage_level;
          battery_level_dult = battery_level_dult_get T percentage_level
      in if percentage_level \<noteq> BATTERY_LEVEL_NONE then
           [LOG_INF (''FMDN: setting battery level to '' @ fmt_d (int (unat percentage_level)) @ '' %''),
            LOG_INF (CHR 0x09 # ''FMDN level: '' @ battery_level_fmdn_desc battery_level_fmdn)]
           @ (if dult then [LOG_INF (CHR 0x09 # ''DULT level: '' @ battery_level_dult_desc battery_level_dult)] else [])
         else [LOG_INF (''FMDN: unknown battery level FMDN level: '' @ battery_level_fmdn_desc battery_level_fmdn)])"

text \<open>The lines determine the level, the unknown one included.\<close>

lemma battery_level_log_inj:
  "app_battery_level_log T dult p = app_battery_level_log T dult q \<Longrightarrow> p = q"
  by (auto simp: app_battery_level_log_def Let_def up_to_separator word_uint_eq_iff split: if_splits)

end
