(* ===== verification/FpAdv.thy ===== *)
theory FpAdv
  imports BatteryLevel
begin

text \<open>
  src/fp_adv.c: the Fast Pair advertising set.  Several triggers of the application request
  it; the mode (off, discoverable, not discoverable) follows from the requests and from the
  presence of an account key, and one connection at a time suspends it.

  The module keeps a pointer to the callback that reports changes of the advertising state;
  only main.c registers one, so the pointer is kept as whether it is set, and
  \<open>fp_adv_state_changed\<close> of main.c is the function behind it.  Where the stack calls back
  from inside a call (forcing a new RPA may call \<open>fp_adv_rpa_expired\<close>), the callback is an
  event of its own, after the call.
\<close>

section \<open>State\<close>

datatype app_fp_adv_mode = APP_FP_ADV_MODE_OFF | APP_FP_ADV_MODE_DISCOVERABLE | APP_FP_ADV_MODE_NOT_DISCOVERABLE

text \<open>The triggers registered by main.c; the linker sorts their section by name.\<close>

datatype app_fp_adv_trigger =
  fp_adv_trigger_clock_sync | fp_adv_trigger_fmdn_provisioning | fp_adv_trigger_ui

record fp_st =
  is_initialized :: bool
  is_enabled :: bool
  fa_fmdn_provisioned :: bool
  fa_account_key_present :: bool
  fp_conn :: "conn option"
  fp_adv_set :: "adv_set option"
  fp_adv_set_active :: bool
  fp_adv_rpa_rotation_suspended :: bool
  fp_adv_mode :: app_fp_adv_mode
  fp_adv_request_bm :: u32
  fp_adv_param :: bt_le_adv_param
  fast_pair_adv_info_cb :: bool
  fp_uptime :: int

record fp_sys = bat_sys +
  fp :: fp_st

definition FP_ADV_RPA_SUSPENSION_TIMEOUT :: nat where "FP_ADV_RPA_SUSPENSION_TIMEOUT = 5"
definition FP_DISC_ADV_INTERVAL :: u16 where "FP_DISC_ADV_INTERVAL = 0x00A0"
definition FP_NDISC_ADV_INTERVAL :: u16 where "FP_NDISC_ADV_INTERVAL = 0x0190"
definition FP_RPA_TIMEOUT :: int where "FP_RPA_TIMEOUT = 13 * 60"
definition FP_RPA_TIMEOUT_OFFSET_MAX :: int where "FP_RPA_TIMEOUT_OFFSET_MAX = 2 * 60"
definition MSEC_PER_SEC :: int where "MSEC_PER_SEC = 1000"
definition CONFIG_BT_MAX_PAIRED :: int where "CONFIG_BT_MAX_PAIRED = 3"

definition fp_st_init :: fp_st where
  "fp_st_init = \<lparr>is_initialized = False, is_enabled = False, fa_fmdn_provisioned = False,
     fa_account_key_present = False, fp_conn = None, fp_adv_set = None, fp_adv_set_active = False,
     fp_adv_rpa_rotation_suspended = False, fp_adv_mode = APP_FP_ADV_MODE_OFF, fp_adv_request_bm = 0,
     fp_adv_param = \<lparr>ap_id = 0, ap_sid = 0, ap_use_identity = False,
       ap_interval_min = FP_DISC_ADV_INTERVAL, ap_interval_max = FP_DISC_ADV_INTERVAL\<rparr>,
     fast_pair_adv_info_cb = False, fp_uptime = 0\<rparr>"

abbreviation upd_fp :: "(fp_st \<Rightarrow> fp_st) \<Rightarrow> 'a fp_sys_scheme \<Rightarrow> 'a fp_sys_scheme" where
  "upd_fp f s \<equiv> s\<lparr>fp := f (fp s)\<rparr>"

text \<open>The set a stack call is given; the code asserts that the pointer is not null.\<close>

definition set_ptr :: "'a fp_sys_scheme \<Rightarrow> adv_set" where
  "set_ptr s = (case fp_adv_set (fp s) of Some h \<Rightarrow> h | None \<Rightarrow> 0)"

section \<open>RPA rotation\<close>

definition fp_adv_rpa_rotation_suspended_set :: "bool \<Rightarrow> 'a fp_sys_scheme \<Rightarrow> 'a fp_sys_scheme" where
  "fp_adv_rpa_rotation_suspended_set suspended = upd_fp (fp_adv_rpa_rotation_suspended_update (\<lambda>_. suspended))"

definition fp_adv_rpa_suspension_work_handle :: "'a fp_sys_scheme \<Rightarrow> 'a fp_sys_scheme" where
  "fp_adv_rpa_suspension_work_handle s = fp_adv_rpa_rotation_suspended_set False s"

definition fp_adv_rpa_suspension_cancel :: "'a fp_sys_scheme \<Rightarrow> 'a fp_sys_scheme" where
  "fp_adv_rpa_suspension_cancel s =
     fp_adv_rpa_rotation_suspended_set False (invoke (K (Work_cancel W_fp_adv_rpa_suspension)) s)"

text \<open>
  The three assignments to the 16-bit \<open>rand_timeout_diff\<close>: each computes in \<open>int\<close> and
  stores 16 bits.
\<close>

definition rand_timeout_diff :: "int \<Rightarrow> int" where
  "rand_timeout_diff rand =
     (let d1 = to_s16 (c_div (FP_RPA_TIMEOUT_OFFSET_MAX * MSEC_PER_SEC) 127);
          d2 = to_s16 (d1 * rand)
      in to_s16 (c_div d2 MSEC_PER_SEC))"

definition fp_adv_rpa_timeout_calculate :: "env \<Rightarrow> 'a io_scheme \<Rightarrow> u16 \<times> 'a io_scheme" where
  "fp_adv_rpa_timeout_calculate E s =
     (let s1 = invoke (K Csrand_get) s;
          rand = sint (word_of_int (outval E s1) :: u8)
      in if result E s1 = 0
         then (word_of_int FP_RPA_TIMEOUT + word_of_int (rand_timeout_diff rand), s1)
         else (word_of_int FP_RPA_TIMEOUT, s1))"

section \<open>Payload\<close>

definition fp_adv_state_changed :: "env \<Rightarrow> bool \<Rightarrow> 'a fp_sys_scheme \<Rightarrow> 'a fp_sys_scheme" where
  "fp_adv_state_changed E enabled s = app_ui_state_change_indicate E APP_UI_STATE_FP_ADV enabled s"

definition fp_adv_state_changed_notify :: "env \<Rightarrow> bool \<Rightarrow> 'a fp_sys_scheme \<Rightarrow> 'a fp_sys_scheme" where
  "fp_adv_state_changed_notify E enabled s =
     (if fast_pair_adv_info_cb (fp s) then fp_adv_state_changed E enabled s else s)"

definition app_fp_adv_is_ready :: "'a fp_sys_scheme \<Rightarrow> bool" where
  "app_fp_adv_is_ready s = is_enabled (fp s)"

text \<open>Whether the pointer passed is not null.\<close>

definition app_fp_adv_info_cb_register :: "bool \<Rightarrow> 'a fp_sys_scheme \<Rightarrow> int \<times> 'a fp_sys_scheme" where
  "app_fp_adv_info_cb_register cb s =
     (if app_fp_adv_is_ready s then (- EACCES, s)
      else if \<not> cb then (- EINVAL, s)
      else if fast_pair_adv_info_cb (fp s) then (- EALREADY, s)
      else (0, upd_fp (fast_pair_adv_info_cb_update (\<lambda>_. True)) s))"

text \<open>\<open>bt_foreach_bond\<close> calls \<open>bond_cnt_cb\<close> once for each bond, which counts them.\<close>

definition bond_cnt :: "env \<Rightarrow> 'a fp_sys_scheme \<Rightarrow> int \<times> 'a fp_sys_scheme" where
  "bond_cnt E s = (let s1 = invoke (BT (Foreach_bond (ap_id (fp_adv_param (fp s))))) s in (outval E s1, s1))"

definition can_pair :: "env \<Rightarrow> 'a fp_sys_scheme \<Rightarrow> bool \<times> 'a fp_sys_scheme" where
  "can_pair E s = (let (cnt, s1) = bond_cnt E s in (cnt < CONFIG_BT_MAX_PAIRED, s1))"

definition fp_adv_is_pairing_mode :: "env \<Rightarrow> app_fp_adv_mode \<Rightarrow> 'a fp_sys_scheme \<Rightarrow> bool \<times> 'a fp_sys_scheme" where
  "fp_adv_is_pairing_mode E mode s =
     (if mode = APP_FP_ADV_MODE_DISCOVERABLE then can_pair E s else (False, s))"

definition fp_adv_prov_configure :: "env \<Rightarrow> app_fp_adv_mode \<Rightarrow> 'a fp_sys_scheme \<Rightarrow> 'a fp_sys_scheme" where
  "fp_adv_prov_configure E mode s =
     (let (p, s1) = can_pair E s;
          s2 = invoke (BT (Prov_fast_pair_enable p)) s1
      in case mode of
           APP_FP_ADV_MODE_DISCOVERABLE \<Rightarrow> s2
         | APP_FP_ADV_MODE_NOT_DISCOVERABLE \<Rightarrow> invoke (BT (Prov_fast_pair_enable True)) s2
         | APP_FP_ADV_MODE_OFF \<Rightarrow> check ''false'' False s2)"

definition fp_adv_payload_set :: "env \<Rightarrow> bool \<Rightarrow> bool \<Rightarrow> 'a fp_sys_scheme \<Rightarrow> int \<times> 'a fp_sys_scheme" where
  "fp_adv_payload_set E rpa_rotated new_session s =
     (let s1 = check ''fp_adv_set'' (fp_adv_set (fp s) \<noteq> None) s;
          s2 = fp_adv_prov_configure E (fp_adv_mode (fp s1)) s1;
          s3 = invoke (BT (Hci_get_adv_handle (set_ptr s2))) s2;
          err = result E s3;
          adv_handle = outval E s3
      in if err \<noteq> 0 then (err, s3)
         else
           let (pairing, s4) = fp_adv_is_pairing_mode E (fp_adv_mode (fp s3)) s3;
               state = \<lparr>as_pairing_mode = pairing, as_rpa_rotated = rpa_rotated,
                 as_new_adv_session = new_session, as_adv_handle = adv_handle\<rparr>;
               s5 = invoke (BT (Prov_get_ad state)) s4;
               err = result E s5; ad = ads E (trace s5)
           in if err \<noteq> 0 then (err, s5)
              else
                let s6 = invoke (BT (Prov_get_sd state)) s5;
                    err = result E s6; sd = ads E (trace s6)
                in if err \<noteq> 0 then (err, s6)
                   else
                     let s7 = invoke (BT (Ext_adv_set_data (set_ptr s6) ad sd)) s6;
                         err = result E s7
                     in if err \<noteq> 0 then (err, s7) else (0, s7))"

section \<open>Starting and stopping\<close>

definition bt_stack_advertising_start :: "env \<Rightarrow> 'a fp_sys_scheme \<Rightarrow> int \<times> 'a fp_sys_scheme" where
  "bt_stack_advertising_start E s =
     (let s1 = check ''fp_adv_set'' (fp_adv_set (fp s) \<noteq> None) s
      in if fp_adv_set_active (fp s1) then (0, s1)
         else
           let s2 = invoke (BT (Ext_adv_start (set_ptr s1))) s1;
               err = result E s2
           in if err \<noteq> 0 then (err, s2)
              else (0, upd_fp (fp_adv_set_active_update (\<lambda>_. True)) s2))"

definition bt_stack_advertising_stop :: "env \<Rightarrow> 'a fp_sys_scheme \<Rightarrow> int \<times> 'a fp_sys_scheme" where
  "bt_stack_advertising_stop E s =
     (let s1 = check ''fp_adv_set'' (fp_adv_set (fp s) \<noteq> None) s
      in if \<not> fp_adv_set_active (fp s1) then (0, s1)
         else
           let s2 = invoke (BT (Ext_adv_stop (set_ptr s1))) s1;
               err = result E s2
           in if err \<noteq> 0 then (err, s2)
              else (0, upd_fp (fp_adv_set_active_update (\<lambda>_. False)) s2))"

definition bt_stack_advertising_update :: "env \<Rightarrow> 'a fp_sys_scheme \<Rightarrow> int \<times> 'a fp_sys_scheme" where
  "bt_stack_advertising_update E s =
     (let s1 = check ''!fp_conn'' (fp_conn (fp s) = None) s
      in if fp_adv_mode (fp s1) = APP_FP_ADV_MODE_OFF then
           (let (err, s2) = bt_stack_advertising_stop E s1
            in if err \<noteq> 0 then (err, s2) else (0, s2))
         else
           let (err, s2) = fp_adv_payload_set E False True s1
           in if err \<noteq> 0 then (err, s2)
              else let (err, s3) = bt_stack_advertising_start E s2
                   in if err \<noteq> 0 then (err, s3) else (0, s3))"

definition fp_advertising_update :: "env \<Rightarrow> 'a fp_sys_scheme \<Rightarrow> 'a fp_sys_scheme" where
  "fp_advertising_update E s =
     (let fp_adv_set_was_active = fp_adv_set_active (fp s);
          s1 = snd (bt_stack_advertising_update E s)
      in if fp_adv_set_was_active \<noteq> fp_adv_set_active (fp s1)
         then fp_adv_state_changed_notify E (fp_adv_set_active (fp s1)) s1 else s1)"

section \<open>Callbacks of the advertising set\<close>

definition fp_adv_connected :: "env \<Rightarrow> conn \<Rightarrow> 'a fp_sys_scheme \<Rightarrow> 'a fp_sys_scheme" where
  "fp_adv_connected E conn s =
     (let s1 = check ''!fp_conn'' (fp_conn (fp s) = None) s;
          s2 = check ''fp_adv_set'' (fp_adv_set (fp s1) \<noteq> None) s1;
          s3 = upd_fp (fp_adv_set_active_update (\<lambda>_. False)) s2;
          s4 = fp_adv_state_changed_notify E (fp_adv_set_active (fp s3)) s3
      in upd_fp (fp_conn_update (\<lambda>_. Some conn)) s4)"

text \<open>
  The RPA expiry.  In the unprovisioned state this set also chooses the next timeout; the
  decision whether to rotate is read from the module's state.  Both branches on the static
  \<open>uptime\<close> read the clock and store it; its use is logging.
\<close>

definition fp_adv_rpa_timeout_set :: "env \<Rightarrow> 'a fp_sys_scheme \<Rightarrow> 'a fp_sys_scheme" where
  "fp_adv_rpa_timeout_set E s =
     (if \<not> fa_fmdn_provisioned (fp s)
      then let (next_rpa_timeout, s1) = fp_adv_rpa_timeout_calculate E s
           in invoke (BT (Set_rpa_timeout next_rpa_timeout)) s1
      else s)"

definition fp_adv_expire_rpa :: "fp_st \<Rightarrow> bool" where
  "fp_adv_expire_rpa f =
     (let e0 = True;
          e1 = (if \<not> fa_fmdn_provisioned f then e0 else if \<not> fp_adv_set_active f then False else e0);
          e2 = (if fp_adv_mode f = APP_FP_ADV_MODE_DISCOVERABLE then False else e1)
      in if fp_adv_rpa_rotation_suspended f then False else e2)"

definition fp_adv_rpa_expired :: "env \<Rightarrow> 'a fp_sys_scheme \<Rightarrow> bool \<times> 'a fp_sys_scheme" where
  "fp_adv_rpa_expired E s =
     (let s1 = check ''fp_adv_set'' (fp_adv_set (fp s) \<noteq> None) s;
          s2 = invoke (K Uptime_get) s1;
          s3 = s2\<lparr>fp := (fp s2)\<lparr>fp_uptime := outval E s2\<rparr>\<rparr>;
          s4 = fp_adv_rpa_timeout_set E s3;
          expire_rpa = fp_adv_expire_rpa (fp s4);
          s5 = (if fp_adv_mode (fp s4) \<noteq> APP_FP_ADV_MODE_OFF
                then snd (fp_adv_payload_set E expire_rpa False s4) else s4)
      in (expire_rpa, s5))"

section \<open>The set\<close>

definition fp_adv_set_rotate :: "env \<Rightarrow> 'a fp_sys_scheme \<Rightarrow> int \<times> 'a fp_sys_scheme" where
  "fp_adv_set_rotate E s =
     (let s1 = check ''fp_adv_set'' (fp_adv_set (fp s) \<noteq> None) s;
          s2 = invoke (BT (Oob_get_local (ap_id (fp_adv_param (fp s1))))) s1;
          err = result E s2
      in if err \<noteq> 0 then (err, s2) else (0, s2))"

definition set_fp_interval :: "u16 \<Rightarrow> fp_st \<Rightarrow> fp_st" where
  "set_fp_interval i f = f\<lparr>fp_adv_param := (fp_adv_param f)\<lparr>ap_interval_min := i, ap_interval_max := i\<rparr>\<rparr>"

definition fp_adv_set_setup :: "env \<Rightarrow> 'a fp_sys_scheme \<Rightarrow> int \<times> 'a fp_sys_scheme" where
  "fp_adv_set_setup E s =
     (let s1 = check ''!fp_adv_set'' (fp_adv_set (fp s) = None) s;
          s2 = upd_fp (set_fp_interval (if fa_account_key_present (fp s1) then FP_NDISC_ADV_INTERVAL
                 else FP_DISC_ADV_INTERVAL)) s1;
          s3 = invoke (BT (Ext_adv_create (fp_adv_param (fp s2)))) s2;
          err = result E s3
      in if err \<noteq> 0 then (err, s3)
         else (0, upd_fp (fp_adv_set_update (\<lambda>_. Some (nat (outval E s3)))) s3))"

definition fp_adv_set_teardown :: "env \<Rightarrow> 'a fp_sys_scheme \<Rightarrow> int \<times> 'a fp_sys_scheme" where
  "fp_adv_set_teardown E s =
     (let s1 = check ''fp_adv_set'' (fp_adv_set (fp s) \<noteq> None) s;
          s2 = invoke (BT (Ext_adv_delete (set_ptr s1))) s1;
          err = result E s2
      in if err \<noteq> 0 then (err, s2)
         else (0, upd_fp (fp_adv_set_update (\<lambda>_. None)) s2))"

definition fp_adv_restart_work_handle :: "env \<Rightarrow> 'a fp_sys_scheme \<Rightarrow> 'a fp_sys_scheme" where
  "fp_adv_restart_work_handle E s = (if app_fp_adv_is_ready s then fp_advertising_update E s else s)"

definition fp_adv_conn_clear :: "'a fp_sys_scheme \<Rightarrow> 'a fp_sys_scheme" where
  "fp_adv_conn_clear s = (case fp_conn (fp s) of None \<Rightarrow> s | Some c \<Rightarrow> invoke (BT (Conn_disconnect c)) s)"

section \<open>Connection, provisioning and account key callbacks\<close>

definition fp_conn_cb_connected :: "conn \<Rightarrow> u8 \<Rightarrow> 'a fp_sys_scheme \<Rightarrow> 'a fp_sys_scheme" where
  "fp_conn_cb_connected conn err s = (if err \<noteq> 0 then invoke (K (Work_submit W_fp_adv_restart)) s else s)"

definition fp_conn_cb_disconnected :: "conn \<Rightarrow> u8 \<Rightarrow> 'a fp_sys_scheme \<Rightarrow> 'a fp_sys_scheme" where
  "fp_conn_cb_disconnected conn reason s =
     (if fp_conn (fp s) = Some conn
      then invoke (K (Work_submit W_fp_adv_restart)) (upd_fp (fp_conn_update (\<lambda>_. None)) s) else s)"

definition fp_adv_provisioning_state_changed :: "env \<Rightarrow> bool \<Rightarrow> 'a fp_sys_scheme \<Rightarrow> 'a fp_sys_scheme" where
  "fp_adv_provisioning_state_changed E provisioned s =
     (let s1 = upd_fp (fa_fmdn_provisioned_update (\<lambda>_. provisioned)) s
      in if \<not> app_fp_adv_is_ready s1 then s1
         else if \<not> provisioned then snd (fp_adv_set_rotate E s1)
         else fp_adv_rpa_suspension_cancel s1)"

definition fp_adv_account_key_written :: "env \<Rightarrow> conn \<Rightarrow> 'a fp_sys_scheme \<Rightarrow> 'a fp_sys_scheme" where
  "fp_adv_account_key_written E conn s =
     (let s1 = (if \<not> fa_fmdn_provisioned (fp s) \<and> \<not> fa_account_key_present (fp s) \<and> app_fp_adv_is_ready s
                then invoke (K (Work_schedule W_fp_adv_rpa_suspension (FP_ADV_RPA_SUSPENSION_TIMEOUT * 60000)))
                       (fp_adv_rpa_rotation_suspended_set True s)
                else s);
          s2 = invoke (FP Fp_has_account_key) s1
      in upd_fp (fa_account_key_present_update (\<lambda>_. result E s2 \<noteq> 0)) s2)"

section \<open>Requests and modes\<close>

definition app_fp_adv_mode_get :: "'a fp_sys_scheme \<Rightarrow> app_fp_adv_mode" where
  "app_fp_adv_mode_get s = fp_adv_mode (fp s)"

fun fp_adv_trigger_idx_get :: "app_fp_adv_trigger \<Rightarrow> nat" where
  "fp_adv_trigger_idx_get fp_adv_trigger_clock_sync = 0"
| "fp_adv_trigger_idx_get fp_adv_trigger_fmdn_provisioning = 1"
| "fp_adv_trigger_idx_get fp_adv_trigger_ui = 2"

definition fp_adv_mode_set :: "env \<Rightarrow> app_fp_adv_mode \<Rightarrow> 'a fp_sys_scheme \<Rightarrow> 'a fp_sys_scheme" where
  "fp_adv_mode_set E adv_mode s =
     (if fp_adv_mode (fp s) = adv_mode then s
      else
        let s1 = upd_fp (fp_adv_mode_update (\<lambda>_. adv_mode)) s
        in if fp_conn (fp s1) = None then fp_advertising_update E s1 else s1)"

text \<open>The mode that the requests and the account key ask for.\<close>

definition requested_mode :: "fp_st \<Rightarrow> app_fp_adv_mode" where
  "requested_mode f =
     (if fp_adv_request_bm f \<noteq> 0 then
        (if fa_account_key_present f then APP_FP_ADV_MODE_NOT_DISCOVERABLE else APP_FP_ADV_MODE_DISCOVERABLE)
      else APP_FP_ADV_MODE_OFF)"

definition fp_adv_mode_refresh :: "env \<Rightarrow> 'a fp_sys_scheme \<Rightarrow> 'a fp_sys_scheme" where
  "fp_adv_mode_refresh E s =
     (if requested_mode (fp s) \<noteq> fp_adv_mode (fp s) then fp_adv_mode_set E (requested_mode (fp s)) s else s)"

definition app_fp_adv_request :: "env \<Rightarrow> app_fp_adv_trigger \<Rightarrow> bool \<Rightarrow> 'a fp_sys_scheme \<Rightarrow> 'a fp_sys_scheme" where
  "app_fp_adv_request E trigger enable s =
     (let idx = fp_adv_trigger_idx_get trigger;
          trigger_enabled = TEST_BIT (fp_adv_request_bm (fp s)) idx
      in if trigger_enabled = enable then s
         else
           let s1 = s\<lparr>fp := (fp s)\<lparr>fp_adv_request_bm := WRITE_BIT (fp_adv_request_bm (fp s)) idx enable\<rparr>\<rparr>
           in if app_fp_adv_is_ready s1 then fp_adv_mode_refresh E s1 else s1)"

definition app_fp_adv_payload_refresh :: "env \<Rightarrow> 'a fp_sys_scheme \<Rightarrow> 'a fp_sys_scheme" where
  "app_fp_adv_payload_refresh E s =
     (if fp_adv_mode (fp s) = APP_FP_ADV_MODE_OFF then s else snd (fp_adv_payload_set E False True s))"

section \<open>Identity, initialisation, enabling\<close>

definition app_fp_adv_id_set :: "u8 \<Rightarrow> 'a fp_sys_scheme \<Rightarrow> int \<times> 'a fp_sys_scheme" where
  "app_fp_adv_id_set bt_id s =
     (if app_fp_adv_is_ready s then (- EACCES, s)
      else (0, upd_fp (fp_adv_param_update (ap_id_update (\<lambda>_. uint bt_id))) s))"

definition app_fp_adv_id_get :: "'a fp_sys_scheme \<Rightarrow> u8" where
  "app_fp_adv_id_get s = word_of_int (ap_id (fp_adv_param (fp s)))"

definition app_fp_adv_init :: "env \<Rightarrow> 'a fp_sys_scheme \<Rightarrow> int \<times> 'a fp_sys_scheme" where
  "app_fp_adv_init E s =
     (let s1 = invoke (FP Fmdn_info_cb_register) s; err = result E s1
      in if err \<noteq> 0 then (err, s1)
         else
           let s2 = invoke (FP Fp_info_cb_register) s1; err = result E s2
           in if err \<noteq> 0 then (err, s2)
              else (0, upd_fp (is_initialized_update (\<lambda>_. True)) s2))"

text \<open>
  Enabling reads the account key and the provisioning state from the library first.  The
  assertion on \<open>bt_fast_pair_is_ready\<close> is compiled out together with the call.
\<close>

definition fp_adv_state_read :: "env \<Rightarrow> 'a fp_sys_scheme \<Rightarrow> 'a fp_sys_scheme" where
  "fp_adv_state_read E s =
     (let s1 = invoke (FP Fp_has_account_key) s;
          s2 = s1\<lparr>fp := (fp s1)\<lparr>fa_account_key_present := result E s1 \<noteq> 0\<rparr>\<rparr>;
          s3 = invoke (FP Fmdn_is_provisioned) s2
      in s3\<lparr>fp := (fp s3)\<lparr>fa_fmdn_provisioned := result E s3 \<noteq> 0\<rparr>\<rparr>)"

definition app_fp_adv_enable :: "env \<Rightarrow> 'a fp_sys_scheme \<Rightarrow> int \<times> 'a fp_sys_scheme" where
  "app_fp_adv_enable E s =
     (let s1 = check ''is_initialized'' (is_initialized (fp s)) s
      in if is_enabled (fp s1) then (0, s1)
         else
           let s2 = fp_adv_state_read E s1;
               (err, s3) = fp_adv_set_setup E s2
           in if err \<noteq> 0 then (err, s3)
              else
                let (err, s4) = (if \<not> fa_fmdn_provisioned (fp s3) then fp_adv_set_rotate E s3 else (0, s3))
                in if err \<noteq> 0 then (err, snd (fp_adv_set_teardown E s4))
                   else (0, upd_fp (is_enabled_update (\<lambda>_. True)) (fp_adv_mode_refresh E s4)))"

definition app_fp_adv_disable :: "env \<Rightarrow> 'a fp_sys_scheme \<Rightarrow> int \<times> 'a fp_sys_scheme" where
  "app_fp_adv_disable E s =
     (let s1 = check ''is_initialized'' (is_initialized (fp s)) s
      in if \<not> is_enabled (fp s1) then (0, s1)
         else
           let s2 = upd_fp (is_enabled_update (\<lambda>_. False)) s1;
               s3 = fp_adv_rpa_suspension_cancel s2;
               s4 = fp_adv_mode_set E APP_FP_ADV_MODE_OFF s3;
               s5 = fp_adv_conn_clear s4;
               (err, s6) = fp_adv_set_teardown E s5
           in if err \<noteq> 0 then (err, s6) else (0, s6))"

section \<open>What the operations touch\<close>

lemma fp_invoke [simp]: "fp (invoke e s) = fp s"
  by (simp add: invoke_def)

lemma fp_check [simp]: "fp (check w b s) = fp s"
  by (simp add: check_def)

lemma fp_indicate [simp]: "fp (app_ui_state_change_indicate E st a s) = fp s"
  by (simp add: app_ui_state_change_indicate_def app_ui_speaker_off_def Let_def)

lemma ui_upd_fp [simp]: "ui (s\<lparr>fp := f\<rparr>) = ui s"
  by simp

text \<open>
  A step that leaves the module's state and the UI alone and violates no assertion; the
  payload of the set is such a step when the set exists and the mode is not off.
\<close>

definition undisturbed :: "'a fp_sys_scheme \<Rightarrow> 'a fp_sys_scheme \<Rightarrow> bool" where
  "undisturbed s t \<longleftrightarrow> fp t = fp s \<and> ui t = ui s \<and> asserts_hold (trace t) = asserts_hold (trace s)"

lemma quiet_refl [simp, intro]: "undisturbed s s"
  by (simp add: undisturbed_def)

lemma quiet_trans: "undisturbed s t \<Longrightarrow> undisturbed t u \<Longrightarrow> undisturbed s u"
  by (simp add: undisturbed_def)

lemma quiet_invoke [simp]: "\<not> is_assert_fail e \<Longrightarrow> undisturbed s (invoke e t) = undisturbed s t"
  by (simp add: undisturbed_def)

lemma quiet_can_pair: "undisturbed s (snd (can_pair E s))"
  by (auto simp: can_pair_def bond_cnt_def Let_def)

lemma quiet_pairing: "undisturbed s (snd (fp_adv_is_pairing_mode E m s))"
  by (simp add: fp_adv_is_pairing_mode_def quiet_can_pair)

lemma quiet_configure: "m \<noteq> APP_FP_ADV_MODE_OFF \<Longrightarrow> undisturbed s (fp_adv_prov_configure E m s)"
  using quiet_can_pair [of s E]
  by (auto simp: fp_adv_prov_configure_def Let_def split: prod.split app_fp_adv_mode.split)

lemma quiet_payload:
  assumes "fp_adv_set (fp s) \<noteq> None" "fp_adv_mode (fp s) \<noteq> APP_FP_ADV_MODE_OFF"
  shows "undisturbed s (snd (fp_adv_payload_set E r n s))"
proof -
  define s2 where "s2 = fp_adv_prov_configure E (fp_adv_mode (fp s)) s"
  define s3 where "s3 = invoke (BT (Hci_get_adv_handle (set_ptr s2))) s2"
  obtain p s4 where p: "fp_adv_is_pairing_mode E (fp_adv_mode (fp s3)) s3 = (p, s4)" by fastforce
  have "undisturbed s s3" using quiet_configure [OF assms(2), of s E] by (simp add: s2_def s3_def)
  moreover have "undisturbed s3 s4" using quiet_pairing [of s3 E "fp_adv_mode (fp s3)"] by (simp add: p)
  ultimately have q: "undisturbed s s3" "undisturbed s s4" by (auto intro: quiet_trans)
  show ?thesis
    using assms(1) q
    by (auto simp: fp_adv_payload_set_def s2_def [symmetric] s3_def [symmetric] p Let_def)
qed

lemma quiet_suspension:
  "fp (fp_adv_rpa_suspension_cancel s) = (fp s)\<lparr>fp_adv_rpa_rotation_suspended := False\<rparr>"
  "ui (fp_adv_rpa_suspension_cancel s) = ui s"
  "asserts_hold (trace (fp_adv_rpa_suspension_cancel s)) = asserts_hold (trace s)"
  by (simp_all add: fp_adv_rpa_suspension_cancel_def fp_adv_rpa_rotation_suspended_set_def)

text \<open>
  What an advertising update may do: it decides whether the set is active and shows that in
  the UI, and changes nothing else.
\<close>

definition shows_state :: "'a fp_sys_scheme \<Rightarrow> bool" where
  "shows_state s \<longleftrightarrow> ui_active s APP_UI_STATE_FP_ADV = fp_adv_set_active (fp s)
     \<and> (fp_adv_set_active (fp s) \<longrightarrow> fast_pair_adv_info_cb (fp s)) \<and> asserts_hold (trace s)"

lemma quiet_shows: "undisturbed s t \<Longrightarrow> shows_state t = shows_state s"
  by (simp add: undisturbed_def shows_state_def)

lemma advertising_update_effect:
  assumes "fp_adv_set (fp s) \<noteq> None" "fp_conn (fp s) = None" "fast_pair_adv_info_cb (fp s)" "shows_state s"
  shows "\<exists>a. fp (fp_advertising_update E s) = (fp s)\<lparr>fp_adv_set_active := a\<rparr> \<and> shows_state (fp_advertising_update E s)"
proof -
  have active: "\<exists>a. fp u = (fp s)\<lparr>fp_adv_set_active := a\<rparr> \<and> ui u = ui s \<and> asserts_hold (trace u)"
    if u: "u = snd (bt_stack_advertising_update E s)" for u
  proof (cases "fp_adv_mode (fp s) = APP_FP_ADV_MODE_OFF")
    case True
    have "\<exists>a. fp s = (fp s)\<lparr>fp_adv_set_active := a\<rparr>"
      by (intro exI [of _ "fp_adv_set_active (fp s)"]) simp
    with True assms show ?thesis
      by (auto simp: u bt_stack_advertising_update_def bt_stack_advertising_stop_def Let_def shows_state_def)
  next
    case False
    obtain e s2 where p: "fp_adv_payload_set E False True s = (e, s2)" by fastforce
    have q: "undisturbed s s2" using quiet_payload [OF assms(1) False, of E False True] by (simp add: p)
    have "\<exists>a. fp s = (fp s)\<lparr>fp_adv_set_active := a\<rparr>"
      by (intro exI [of _ "fp_adv_set_active (fp s)"]) simp
    with False assms q show ?thesis
      by (auto simp: u bt_stack_advertising_update_def bt_stack_advertising_start_def p Let_def shows_state_def undisturbed_def)
  qed
  then obtain a where "fp (snd (bt_stack_advertising_update E s)) = (fp s)\<lparr>fp_adv_set_active := a\<rparr>"
    "ui (snd (bt_stack_advertising_update E s)) = ui s" "asserts_hold (trace (snd (bt_stack_advertising_update E s)))"
    by blast
  with assms show ?thesis
    by (auto simp: fp_advertising_update_def fp_adv_state_changed_notify_def fp_adv_state_changed_def Let_def
        shows_state_def indicate_trace ui_flags.get_put_same)
qed

lemma mode_set_effect:
  assumes "fp_adv_set (fp s) \<noteq> None" "fast_pair_adv_info_cb (fp s)" "shows_state s"
  shows "\<exists>a. fp (fp_adv_mode_set E m s) = (fp s)\<lparr>fp_adv_mode := m, fp_adv_set_active := a\<rparr>
    \<and> (fp_conn (fp s) \<noteq> None \<longrightarrow> a = fp_adv_set_active (fp s)) \<and> shows_state (fp_adv_mode_set E m s)"
proof -
  let ?s1 = "s\<lparr>fp := (fp s)\<lparr>fp_adv_mode := m\<rparr>\<rparr>"
  have s1: "shows_state ?s1" using assms(3) by (simp add: shows_state_def)
  consider "fp_adv_mode (fp s) = m" | "fp_adv_mode (fp s) \<noteq> m" "fp_conn (fp s) = None"
    | "fp_adv_mode (fp s) \<noteq> m" "fp_conn (fp s) \<noteq> None" by blast
  then show ?thesis
  proof cases
    case 2
    then show ?thesis
      using advertising_update_effect [of ?s1 E] assms s1 by (auto simp: fp_adv_mode_set_def)
  qed (use assms s1 in \<open>auto simp: fp_adv_mode_set_def intro!: exI [of _ "fp_adv_set_active (fp s)"]\<close>)
qed

lemma mode_refresh_effect:
  assumes "fp_adv_set (fp s) \<noteq> None" "fast_pair_adv_info_cb (fp s)" "shows_state s"
  shows "\<exists>a. fp (fp_adv_mode_refresh E s) = (fp s)\<lparr>fp_adv_mode := requested_mode (fp s), fp_adv_set_active := a\<rparr>
    \<and> (fp_conn (fp s) \<noteq> None \<longrightarrow> a = fp_adv_set_active (fp s)) \<and> shows_state (fp_adv_mode_refresh E s)"
  using mode_set_effect [OF assms, of E "requested_mode (fp s)"] assms(3)
  by (auto simp: fp_adv_mode_refresh_def intro!: exI [of _ "fp_adv_set_active (fp s)"])

section \<open>The module as a machine\<close>

definition requested :: "fp_st \<Rightarrow> app_fp_adv_trigger \<Rightarrow> bool" where
  "requested f t = TEST_BIT (fp_adv_request_bm f) (fp_adv_trigger_idx_get t)"

text \<open>Only the bits of registered triggers are used.\<close>

definition trigger_bits :: "u32 \<Rightarrow> bool" where
  "trigger_bits bm \<longleftrightarrow> (\<forall>i < 32. TEST_BIT bm i \<longrightarrow> i < 3)"

lemma trigger_idx_less [simp]: "fp_adv_trigger_idx_get t < 3"
  by (cases t) simp_all

lemma trigger_idx_less32 [simp]: "fp_adv_trigger_idx_get t < 32"
  by (cases t) simp_all

lemma trigger_idx_inj [simp]: "fp_adv_trigger_idx_get a = fp_adv_trigger_idx_get b \<longleftrightarrow> a = b"
  by (cases a; cases b) simp_all

lemma trigger_idx_surj: "i < 3 \<Longrightarrow> \<exists>t. i = fp_adv_trigger_idx_get t"
  by (metis fp_adv_trigger_idx_get.simps less_Suc_eq not_less_zero numeral_3_eq_3 numeral_2_eq_2 One_nat_def)

lemma no_request_iff: "trigger_bits (fp_adv_request_bm f) \<Longrightarrow> fp_adv_request_bm f = 0 \<longleftrightarrow> (\<forall>t. \<not> requested f t)"
  unfolding word_zero_iff_no_flag requested_def trigger_bits_def
  by (metis trigger_idx_less32 trigger_idx_surj)

lemma trigger_bits_write: "trigger_bits bm \<Longrightarrow> trigger_bits (WRITE_BIT bm (fp_adv_trigger_idx_get t) b)"
  by (auto simp: trigger_bits_def word_flags.get_put split: if_splits)

definition fp_inv :: "'a fp_sys_scheme \<Rightarrow> bool" where
  "fp_inv s \<longleftrightarrow> shows_state s
     \<and> (fp_adv_mode (fp s) = APP_FP_ADV_MODE_OFF \<longleftrightarrow> \<not> (is_enabled (fp s) \<and> fp_adv_request_bm (fp s) \<noteq> 0))
     \<and> (is_enabled (fp s) \<longrightarrow> fp_adv_set (fp s) \<noteq> None \<and> fast_pair_adv_info_cb (fp s) \<and> is_initialized (fp s))
     \<and> (fp_conn (fp s) \<noteq> None \<longrightarrow> \<not> fp_adv_set_active (fp s))
     \<and> trigger_bits (fp_adv_request_bm (fp s))"

datatype fp_ev = FE_connected conn | FE_rpa_expired | FE_restart | FE_conn_cb conn u8 | FE_disconnected conn u8
  | FE_suspension_timeout | FE_provisioning bool | FE_account_key conn
  | FE_request app_fp_adv_trigger bool | FE_refresh | FE_id_set u8 | FE_register bool
  | FE_init | FE_enable | FE_disable

fun fp_do :: "env \<Rightarrow> fp_ev \<Rightarrow> 'a fp_sys_scheme \<Rightarrow> 'a fp_sys_scheme" where
  "fp_do E (FE_connected c) s = fp_adv_connected E c s"
| "fp_do E FE_rpa_expired s = snd (fp_adv_rpa_expired E s)"
| "fp_do E FE_restart s = fp_adv_restart_work_handle E s"
| "fp_do E (FE_conn_cb c err) s = fp_conn_cb_connected c err s"
| "fp_do E (FE_disconnected c r) s = fp_conn_cb_disconnected c r s"
| "fp_do E FE_suspension_timeout s = fp_adv_rpa_suspension_work_handle s"
| "fp_do E (FE_provisioning p) s = fp_adv_provisioning_state_changed E p s"
| "fp_do E (FE_account_key c) s = fp_adv_account_key_written E c s"
| "fp_do E (FE_request t b) s = app_fp_adv_request E t b s"
| "fp_do E FE_refresh s = app_fp_adv_payload_refresh E s"
| "fp_do E (FE_id_set i) s = snd (app_fp_adv_id_set i s)"
| "fp_do E (FE_register cb) s = snd (app_fp_adv_info_cb_register cb s)"
| "fp_do E FE_init s = snd (app_fp_adv_init E s)"
| "fp_do E FE_enable s = snd (app_fp_adv_enable E s)"
| "fp_do E FE_disable s = snd (app_fp_adv_disable E s)"

text \<open>
  The stack calls back for an existing set, and connects through an active one.  The
  restart work runs without a Fast Pair connection.  The module is enabled after its
  initialisation and the registration of the callback, and not while the set of an earlier
  session still exists.
\<close>

fun fp_ok :: "fp_ev \<Rightarrow> 'a fp_sys_scheme \<Rightarrow> bool" where
  "fp_ok (FE_connected c) s = (fp_adv_set (fp s) \<noteq> None \<and> fp_adv_set_active (fp s))"
| "fp_ok FE_rpa_expired s = (fp_adv_set (fp s) \<noteq> None)"
| "fp_ok FE_restart s = (fp_conn (fp s) = None)"
| "fp_ok FE_enable s = (is_initialized (fp s) \<and> fast_pair_adv_info_cb (fp s)
     \<and> (\<not> is_enabled (fp s) \<longrightarrow> fp_adv_set (fp s) = None))"
| "fp_ok FE_disable s = is_initialized (fp s)"
| "fp_ok _ s = True"

lemma requested_mode_off [simp]: "requested_mode f = APP_FP_ADV_MODE_OFF \<longleftrightarrow> fp_adv_request_bm f = 0"
  by (simp add: requested_mode_def)

lemma fp_inv_undisturbed: "undisturbed s t \<Longrightarrow> fp_inv t = fp_inv s"
  by (simp add: fp_inv_def quiet_shows) (simp add: undisturbed_def)

lemma fp_inv_invoke [simp]: "\<not> is_assert_fail e \<Longrightarrow> fp_inv (invoke e s) = fp_inv s"
  by (rule fp_inv_undisturbed) simp

text \<open>Fields that the invariant does not mention.\<close>

lemma fp_inv_frame [simp]:
  "fp_inv (s\<lparr>fp := (fp s)\<lparr>fp_adv_rpa_rotation_suspended := b\<rparr>\<rparr>) = fp_inv s"
  "fp_inv (s\<lparr>fp := (fp s)\<lparr>fa_fmdn_provisioned := b\<rparr>\<rparr>) = fp_inv s"
  "fp_inv (s\<lparr>fp := (fp s)\<lparr>fa_account_key_present := b\<rparr>\<rparr>) = fp_inv s"
  "fp_inv (s\<lparr>fp := (fp s)\<lparr>fp_uptime := u\<rparr>\<rparr>) = fp_inv s"
  "fp_inv (s\<lparr>fp := fp_adv_param_update g (fp s)\<rparr>) = fp_inv s"
  by (auto simp: fp_inv_def shows_state_def)

lemma fp_inv_conn_none: "fp_inv s \<Longrightarrow> fp_inv (s\<lparr>fp := (fp s)\<lparr>fp_conn := None\<rparr>\<rparr>)"
  by (simp add: fp_inv_def shows_state_def)

lemma fp_inv_connected:
  assumes "fp_inv s" "fp_ok (FE_connected c) s"
  shows "fp_inv (fp_adv_connected E c s)"
proof -
  from assms have "fp_conn (fp s) = None" "fast_pair_adv_info_cb (fp s)" by (auto simp: fp_inv_def shows_state_def)
  with assms show ?thesis
    by (simp add: fp_inv_def shows_state_def fp_adv_connected_def Let_def fp_adv_state_changed_notify_def
        fp_adv_state_changed_def indicate_trace ui_flags.get_put_same)
qed

lemma fp_inv_restart:
  assumes "fp_inv s" "fp_conn (fp s) = None"
  shows "fp_inv (fp_adv_restart_work_handle E s)"
proof (cases "is_enabled (fp s)")
  case True
  with assms have "\<exists>a. fp (fp_advertising_update E s) = (fp s)\<lparr>fp_adv_set_active := a\<rparr> \<and> shows_state (fp_advertising_update E s)"
    by (intro advertising_update_effect) (auto simp: fp_inv_def)
  with assms True show ?thesis
    by (auto simp: fp_adv_restart_work_handle_def app_fp_adv_is_ready_def fp_inv_def)
qed (simp add: assms fp_adv_restart_work_handle_def app_fp_adv_is_ready_def)

lemma fp_inv_request:
  assumes "fp_inv s"
  shows "fp_inv (app_fp_adv_request E t b s)"
proof -
  define s1 where "s1 = s\<lparr>fp := (fp s)\<lparr>fp_adv_request_bm := WRITE_BIT (fp_adv_request_bm (fp s)) (fp_adv_trigger_idx_get t) b\<rparr>\<rparr>"
  have f: "fp s1 = (fp s)\<lparr>fp_adv_request_bm := WRITE_BIT (fp_adv_request_bm (fp s)) (fp_adv_trigger_idx_get t) b\<rparr>"
    by (simp add: s1_def)
  have tb: "trigger_bits (fp_adv_request_bm (fp s1))" using assms by (simp add: f fp_inv_def trigger_bits_write)
  have sh: "shows_state s1" using assms by (simp add: s1_def fp_inv_def shows_state_def)
  show ?thesis
  proof (cases "is_enabled (fp s)")
    case True
    with assms sh have "\<exists>a. fp (fp_adv_mode_refresh E s1) = (fp s1)\<lparr>fp_adv_mode := requested_mode (fp s1), fp_adv_set_active := a\<rparr>
      \<and> (fp_conn (fp s1) \<noteq> None \<longrightarrow> a = fp_adv_set_active (fp s1)) \<and> shows_state (fp_adv_mode_refresh E s1)"
      by (intro mode_refresh_effect) (auto simp: fp_inv_def f)
    then have "fp_inv (fp_adv_mode_refresh E s1)" using assms True tb by (auto simp: fp_inv_def f)
    then show ?thesis
      using assms True by (simp add: app_fp_adv_request_def Let_def s1_def app_fp_adv_is_ready_def)
  next
    case False
    then have "fp_inv s1" using assms sh tb by (simp add: fp_inv_def f)
    then show ?thesis
      using assms False by (simp add: app_fp_adv_request_def Let_def s1_def app_fp_adv_is_ready_def)
  qed
qed

lemma undisturbed_rotate: "fp_adv_set (fp s) \<noteq> None \<Longrightarrow> undisturbed s (snd (fp_adv_set_rotate E s))"
  by (simp add: fp_adv_set_rotate_def Let_def)

lemma undisturbed_timeout: "undisturbed s (fp_adv_rpa_timeout_set E s)"
  by (simp add: fp_adv_rpa_timeout_set_def fp_adv_rpa_timeout_calculate_def Let_def)

lemma fp_inv_rpa_expired:
  assumes "fp_inv s" "fp_adv_set (fp s) \<noteq> None"
  shows "fp_inv (snd (fp_adv_rpa_expired E s))"
proof -
  define s2 where "s2 = invoke (K Uptime_get) s"
  have f2: "fp s2 = fp s" by (simp add: s2_def)
  define s3 where "s3 = s2\<lparr>fp := (fp s)\<lparr>fp_uptime := outval E s2\<rparr>\<rparr>"
  define s4 where "s4 = fp_adv_rpa_timeout_set E s3"
  have "fp_inv s2" using assms(1) by (simp add: s2_def)
  then have s3: "fp_inv s3" using fp_inv_frame(4) [where s = s2] by (simp add: s3_def f2)
  have u: "undisturbed s3 s4" by (simp add: s4_def undisturbed_timeout)
  then have s4: "fp_inv s4" "fp_adv_set (fp s4) \<noteq> None"
    using s3 assms(2) by (simp_all add: fp_inv_undisturbed) (simp add: undisturbed_def s3_def s2_def)
  have "fp_inv (snd (fp_adv_payload_set E r False s4))" if "fp_adv_mode (fp s4) \<noteq> APP_FP_ADV_MODE_OFF" for r
    using s4 that by (simp add: fp_inv_undisturbed [OF quiet_payload])
  then show ?thesis
    using assms(2) s4 by (simp add: fp_adv_rpa_expired_def Let_def f2 flip: s2_def s3_def s4_def)
qed

lemma set_fp_interval_fields [simp]:
  "fp_adv_set (set_fp_interval i f) = fp_adv_set f" "fp_adv_set_active (set_fp_interval i f) = fp_adv_set_active f"
  "fp_adv_mode (set_fp_interval i f) = fp_adv_mode f" "fp_adv_request_bm (set_fp_interval i f) = fp_adv_request_bm f"
  "is_enabled (set_fp_interval i f) = is_enabled f" "is_initialized (set_fp_interval i f) = is_initialized f"
  "fast_pair_adv_info_cb (set_fp_interval i f) = fast_pair_adv_info_cb f" "fp_conn (set_fp_interval i f) = fp_conn f"
  "fa_account_key_present (set_fp_interval i f) = fa_account_key_present f"
  "fa_fmdn_provisioned (set_fp_interval i f) = fa_fmdn_provisioned f"
  by (simp_all add: set_fp_interval_def)

lemma setup_spec:
  assumes "fp_inv s" "fp_adv_set (fp s) = None" "\<not> is_enabled (fp s)" "fp_adv_set_setup E s = (err, t)"
  shows "fp_inv t" "err = 0 \<Longrightarrow> fp_adv_set (fp t) \<noteq> None" "\<not> is_enabled (fp t)"
    "is_initialized (fp t) = is_initialized (fp s)" "fast_pair_adv_info_cb (fp t) = fast_pair_adv_info_cb (fp s)"
  using assms by (auto simp: fp_adv_set_setup_def Let_def fp_inv_def shows_state_def split: if_splits)

lemma teardown_spec:
  assumes "fp_inv s" "fp_adv_set (fp s) \<noteq> None" "\<not> is_enabled (fp s)"
  shows "fp_inv (snd (fp_adv_set_teardown E s))"
  using assms by (auto simp: fp_adv_set_teardown_def Let_def fp_inv_def shows_state_def)

lemma fp_inv_read: "fp_inv s \<Longrightarrow> fp_inv (fp_adv_state_read E s)"
  by (simp only: fp_adv_state_read_def Let_def fp_inv_frame fp_inv_invoke is_assert_fail_simps not_False_eq_True)

lemma fp_inv_enable:
  assumes "fp_inv s" "fp_ok FE_enable s"
  shows "fp_inv (snd (app_fp_adv_enable E s))"
proof (cases "is_enabled (fp s)")
  case True
  with assms show ?thesis by (simp add: app_fp_adv_enable_def Let_def)
next
  case False
  define s5 where "s5 = fp_adv_state_read E s"
  have s5: "fp_inv s5" "fp_adv_set (fp s5) = None" "\<not> is_enabled (fp s5)" "is_initialized (fp s5)" "fast_pair_adv_info_cb (fp s5)"
    using assms False by (simp_all add: s5_def fp_inv_read) (simp_all add: fp_adv_state_read_def Let_def)
  obtain e6 s6 where p6: "fp_adv_set_setup E s5 = (e6, s6)" by fastforce
  note s6 = setup_spec [OF s5(1-3) p6]
  obtain e7 s7 where p7: "(if \<not> fa_fmdn_provisioned (fp s6) then fp_adv_set_rotate E s6 else (0, s6)) = (e7, s7)" by fastforce
  have u: "undisturbed s6 s7" if "e6 = 0"
    using undisturbed_rotate [of s6 E] s6(2) [OF that] p7 by (auto split: if_splits)
  have eq: "snd (app_fp_adv_enable E s) =
    (if e6 \<noteq> 0 then s6 else if e7 \<noteq> 0 then snd (fp_adv_set_teardown E s7)
     else (fp_adv_mode_refresh E s7)\<lparr>fp := (fp (fp_adv_mode_refresh E s7))\<lparr>is_enabled := True\<rparr>\<rparr>)"
    using assms(2) False p7
    by (simp add: app_fp_adv_enable_def Let_def p6 s5_def [symmetric])
  have s7: "fp_inv s7" "fp_adv_set (fp s7) \<noteq> None" "\<not> is_enabled (fp s7)" "fast_pair_adv_info_cb (fp s7)" "is_initialized (fp s7)"
    if "e6 = 0"
    using s6 s5 u [OF that] that by (simp_all add: fp_inv_undisturbed) (simp_all add: undisturbed_def)
  have "fp_inv ((fp_adv_mode_refresh E s7)\<lparr>fp := (fp (fp_adv_mode_refresh E s7))\<lparr>is_enabled := True\<rparr>\<rparr>)" if "e6 = 0"
  proof -
    have "shows_state s7" using s7 [OF that] by (simp add: fp_inv_def)
    from mode_refresh_effect [OF s7(2) [OF that] s7(4) [OF that] this, of E] obtain a
      where a: "fp (fp_adv_mode_refresh E s7) = (fp s7)\<lparr>fp_adv_mode := requested_mode (fp s7), fp_adv_set_active := a\<rparr>"
        "fp_conn (fp s7) \<noteq> None \<longrightarrow> a = fp_adv_set_active (fp s7)" "shows_state (fp_adv_mode_refresh E s7)" by blast
    then show ?thesis using s7 [OF that] by (auto simp: fp_inv_def shows_state_def)
  qed
  then show ?thesis using s6(1) s7 by (simp add: eq teardown_spec)
qed

lemma fp_inv_disable:
  assumes "fp_inv s" "is_initialized (fp s)"
  shows "fp_inv (snd (app_fp_adv_disable E s))"
proof (cases "is_enabled (fp s)")
  case False
  with assms show ?thesis by (simp add: app_fp_adv_disable_def)
next
  case True
  define s3 where "s3 = fp_adv_rpa_suspension_cancel (s\<lparr>fp := (fp s)\<lparr>is_enabled := False\<rparr>\<rparr>)"
  have f3: "fp s3 = (fp s)\<lparr>is_enabled := False, fp_adv_rpa_rotation_suspended := False\<rparr>"
    by (simp add: s3_def quiet_suspension)
  have sh: "shows_state s3" using assms by (simp add: fp_inv_def shows_state_def f3) (simp add: s3_def quiet_suspension)
  have i: "fp_adv_set (fp s3) \<noteq> None" "fast_pair_adv_info_cb (fp s3)" using assms True by (simp_all add: fp_inv_def f3)
  define s4 where "s4 = fp_adv_mode_set E APP_FP_ADV_MODE_OFF s3"
  obtain a where a: "fp s4 = (fp s3)\<lparr>fp_adv_mode := APP_FP_ADV_MODE_OFF, fp_adv_set_active := a\<rparr>"
    "fp_conn (fp s3) \<noteq> None \<longrightarrow> a = fp_adv_set_active (fp s3)" "shows_state s4"
    using mode_set_effect [OF i sh, of E APP_FP_ADV_MODE_OFF] by (auto simp: s4_def)
  have "fp_inv s4" using assms True a by (auto simp: fp_inv_def f3)
  then have "fp_inv (fp_adv_conn_clear s4)" by (simp add: fp_adv_conn_clear_def split: option.split)
  moreover have "fp (fp_adv_conn_clear s4) = fp s4" by (simp add: fp_adv_conn_clear_def split: option.split)
  ultimately have "fp_inv (snd (fp_adv_set_teardown E (fp_adv_conn_clear s4)))"
    using i(1) by (intro teardown_spec) (auto simp: a(1) f3)
  then show ?thesis
    using assms(2) True
    by (cases "fp_adv_set_teardown E (fp_adv_conn_clear s4)")
      (simp add: app_fp_adv_disable_def Let_def s3_def [symmetric] s4_def [symmetric])
qed

lemma fp_do_inv:
  assumes "fp_inv s" "fp_ok e s"
  shows "fp_inv (fp_do E e s)"
proof (cases e)
  case (FE_provisioning p)
  let ?s1 = "s\<lparr>fp := (fp s)\<lparr>fa_fmdn_provisioned := p\<rparr>\<rparr>"
  have i: "fp_inv ?s1" using assms(1) by (simp only: fp_inv_frame)
  have "fp_inv (snd (fp_adv_set_rotate E ?s1))" if "is_enabled (fp s)"
    using i that assms(1) by (subst fp_inv_undisturbed [OF undisturbed_rotate]) (auto simp: fp_inv_def)
  moreover have "fp_inv (fp_adv_rpa_suspension_cancel ?s1)"
    using i by (simp add: fp_inv_def shows_state_def quiet_suspension)
  ultimately show ?thesis
    using i by (cases p) (simp_all add: FE_provisioning fp_adv_provisioning_state_changed_def Let_def app_fp_adv_is_ready_def)
next
  case (FE_account_key c)
  define s1 where "s1 = (if \<not> fa_fmdn_provisioned (fp s) \<and> \<not> fa_account_key_present (fp s) \<and> app_fp_adv_is_ready s
    then invoke (K (Work_schedule W_fp_adv_rpa_suspension (FP_ADV_RPA_SUSPENSION_TIMEOUT * 60000)))
      (fp_adv_rpa_rotation_suspended_set True s) else s)"
  have "fp_inv s1" using assms(1) by (simp add: s1_def fp_adv_rpa_rotation_suspended_set_def)
  then have "fp_inv (invoke (FP Fp_has_account_key) s1)" by simp
  then show ?thesis
    by (simp only: FE_account_key fp_do.simps fp_adv_account_key_written_def Let_def s1_def [symmetric] fp_inv_frame)
next
  case FE_refresh
  have "fp_inv (snd (fp_adv_payload_set E False True s))" if "fp_adv_mode (fp s) \<noteq> APP_FP_ADV_MODE_OFF"
    using assms(1) that by (subst fp_inv_undisturbed [OF quiet_payload]) (auto simp: fp_inv_def)
  then show ?thesis using assms FE_refresh by (simp add: app_fp_adv_payload_refresh_def)
next
  case (FE_disconnected c r)
  then show ?thesis using assms fp_inv_conn_none [of s] by (simp add: fp_conn_cb_disconnected_def)
next
  case (FE_register cb)
  then show ?thesis
    using assms by (auto simp: app_fp_adv_info_cb_register_def app_fp_adv_is_ready_def fp_inv_def shows_state_def)
next
  case FE_init
  then show ?thesis using assms by (auto simp: app_fp_adv_init_def Let_def fp_inv_def shows_state_def)
qed (use assms in \<open>simp_all add: fp_inv_connected fp_inv_rpa_expired fp_inv_restart fp_inv_request fp_inv_enable fp_inv_disable
    fp_conn_cb_connected_def fp_adv_rpa_suspension_work_handle_def fp_adv_rpa_rotation_suspended_set_def
    app_fp_adv_id_set_def app_fp_adv_info_cb_register_def app_fp_adv_init_def Let_def app_fp_adv_is_ready_def\<close>)

interpretation fpm: invariant_machine "fp_do E" fp_ok fp_inv for E
  by unfold_locales (rule fp_do_inv)

section \<open>Requests and the suspension of the rotation\<close>

definition keeps :: "'a fp_sys_scheme \<Rightarrow> 'a fp_sys_scheme \<Rightarrow> bool" where
  "keeps s t \<longleftrightarrow> fp_adv_request_bm (fp t) = fp_adv_request_bm (fp s)
     \<and> fp_adv_rpa_rotation_suspended (fp t) = fp_adv_rpa_rotation_suspended (fp s)"

lemma keeps_refl [simp]: "keeps s s"
  by (simp add: keeps_def)

lemma keeps_trans: "keeps s t \<Longrightarrow> keeps t u \<Longrightarrow> keeps s u"
  by (simp add: keeps_def)

lemma keeps_io [simp]: "keeps s (invoke e t) = keeps s t" "keeps s (check w b t) = keeps s t"
  by (simp_all add: keeps_def)

lemma keeps_fields [simp]:
  "keeps s (t\<lparr>fp := (fp u)\<lparr>fp_adv_set_active := b\<rparr>\<rparr>) = keeps s u"
  "keeps s (t\<lparr>fp := (fp u)\<lparr>fp_adv_set := h\<rparr>\<rparr>) = keeps s u"
  "keeps s (t\<lparr>fp := (fp u)\<lparr>fp_adv_mode := m\<rparr>\<rparr>) = keeps s u"
  "keeps s (t\<lparr>fp := (fp u)\<lparr>fp_conn := c\<rparr>\<rparr>) = keeps s u"
  "keeps s (t\<lparr>fp := (fp u)\<lparr>is_enabled := b\<rparr>\<rparr>) = keeps s u"
  "keeps s (t\<lparr>fp := (fp u)\<lparr>fa_fmdn_provisioned := b\<rparr>\<rparr>) = keeps s u"
  "keeps s (t\<lparr>fp := (fp u)\<lparr>fa_account_key_present := b\<rparr>\<rparr>) = keeps s u"
  "keeps s (t\<lparr>fp := (fp u)\<lparr>fp_uptime := n\<rparr>\<rparr>) = keeps s u"
  "keeps s (t\<lparr>fp := set_fp_interval i (fp u)\<rparr>) = keeps s u"
  by (simp_all add: keeps_def set_fp_interval_def)

lemma keeps_params:
  "keeps s (t\<lparr>fp := fp_adv_param_update g (fp u)\<rparr>) = keeps s u"
  "keeps s (t\<lparr>fp := (fp u)\<lparr>fast_pair_adv_info_cb := b\<rparr>\<rparr>) = keeps s u"
  "keeps s (t\<lparr>fp := (fp u)\<lparr>is_initialized := b\<rparr>\<rparr>) = keeps s u"
  by (simp_all add: keeps_def)

lemma keeps_indicate [simp]: "keeps s (app_ui_state_change_indicate E st a t) = keeps s t"
  by (simp add: keeps_def)

lemma keeps_notify [simp]: "keeps s (fp_adv_state_changed_notify E b t) = keeps s t"
  by (simp add: fp_adv_state_changed_notify_def fp_adv_state_changed_def)

lemma keeps_can_pair [simp]: "keeps s (snd (can_pair E t)) = keeps s t"
  by (simp add: can_pair_def bond_cnt_def Let_def)

lemma keeps_pairing [simp]: "keeps s (snd (fp_adv_is_pairing_mode E m t)) = keeps s t"
  by (simp add: fp_adv_is_pairing_mode_def)

lemma keeps_configure [simp]: "keeps s (fp_adv_prov_configure E m t) = keeps s t"
  using keeps_can_pair [of s E t]
  by (cases "can_pair E t"; cases m) (simp_all add: fp_adv_prov_configure_def Let_def)

lemma keeps_payload: "keeps s (snd (fp_adv_payload_set E r n s))"
proof -
  define s2 where "s2 = fp_adv_prov_configure E (fp_adv_mode (fp s)) (check ''fp_adv_set'' (fp_adv_set (fp s) \<noteq> None) s)"
  define s3 where "s3 = invoke (BT (Hci_get_adv_handle (set_ptr s2))) s2"
  obtain p s4 where p: "fp_adv_is_pairing_mode E (fp_adv_mode (fp s3)) s3 = (p, s4)" by fastforce
  have "keeps s s3" by (simp add: s3_def s2_def)
  moreover from this have "keeps s s4" using keeps_pairing [of s E "fp_adv_mode (fp s3)" s3] by (simp add: p)
  ultimately show ?thesis
    by (simp add: fp_adv_payload_set_def s2_def [symmetric, simplified] s3_def [symmetric] p Let_def)
qed

lemma keeps_update: "keeps s (fp_advertising_update E s)"
proof -
  obtain e s2 where p: "fp_adv_payload_set E False True (check ''!fp_conn'' (fp_conn (fp s) = None) s) = (e, s2)" by fastforce
  have "keeps s s2" using keeps_payload [of "check ''!fp_conn'' (fp_conn (fp s) = None) s" E False True]
    by (simp add: p keeps_def)
  then have "keeps s (snd (bt_stack_advertising_update E s))"
    by (simp add: bt_stack_advertising_update_def bt_stack_advertising_start_def bt_stack_advertising_stop_def p Let_def)
  then show ?thesis by (simp add: fp_advertising_update_def Let_def)
qed

lemma keeps_mode_set: "keeps s (fp_adv_mode_set E m s)"
  using keeps_update [of "s\<lparr>fp := (fp s)\<lparr>fp_adv_mode := m\<rparr>\<rparr>" E]
  by (auto simp: fp_adv_mode_set_def Let_def keeps_def)

lemma keeps_mode_refresh: "keeps s (fp_adv_mode_refresh E s)"
  by (simp add: fp_adv_mode_refresh_def keeps_mode_set)

lemma keeps_set_ops [simp]:
  "keeps s (snd (fp_adv_set_rotate E t)) = keeps s t"
  "keeps s (snd (fp_adv_set_setup E t)) = keeps s t"
  "keeps s (snd (fp_adv_set_teardown E t)) = keeps s t"
  "keeps s (fp_adv_conn_clear t) = keeps s t"
  "keeps s (fp_adv_rpa_timeout_set E t) = keeps s t"
  by (auto simp: fp_adv_set_rotate_def fp_adv_set_setup_def fp_adv_set_teardown_def fp_adv_conn_clear_def
      fp_adv_rpa_timeout_set_def fp_adv_rpa_timeout_calculate_def Let_def keeps_def set_fp_interval_def split: option.split)

text \<open>Abstractly a request machine: the set of triggers that ask for advertising.\<close>

fun fp_abs_step :: "fp_ev \<Rightarrow> (app_fp_adv_trigger \<Rightarrow> bool) \<Rightarrow> app_fp_adv_trigger \<Rightarrow> bool" where
  "fp_abs_step (FE_request t b) r = r(t := b)"
| "fp_abs_step e r = r"

lemma keeps_requested: "keeps s t \<Longrightarrow> requested (fp t) = requested (fp s)"
  by (auto simp: keeps_def requested_def)

lemma keeps_expired: "keeps s (snd (fp_adv_rpa_expired E s))"
proof -
  define s1 where "s1 = invoke (K Uptime_get) (check ''fp_adv_set'' (fp_adv_set (fp s) \<noteq> None) s)"
  define s4 where "s4 = fp_adv_rpa_timeout_set E (s1\<lparr>fp := (fp s1)\<lparr>fp_uptime := outval E s1\<rparr>\<rparr>)"
  have eq: "snd (fp_adv_rpa_expired E s) = (if fp_adv_mode (fp s4) \<noteq> APP_FP_ADV_MODE_OFF
      then snd (fp_adv_payload_set E (fp_adv_expire_rpa (fp s4)) False s4) else s4)"
    by (simp only: fp_adv_rpa_expired_def Let_def s4_def s1_def snd_conv)
  have "keeps s s4" by (simp add: s4_def s1_def)
  then have "keeps s (snd (fp_adv_payload_set E r False s4))" for r
    using keeps_payload [of s4 E r False] by (rule keeps_trans)
  with \<open>keeps s s4\<close> show ?thesis by (simp add: eq)
qed

lemma keeps_enable: "keeps s (snd (app_fp_adv_enable E s))"
proof -
  define s2 where "s2 = fp_adv_state_read E (check ''is_initialized'' (is_initialized (fp s)) s)"
  obtain e3 s3 where p3: "fp_adv_set_setup E s2 = (e3, s3)" by fastforce
  obtain e4 s4 where p4: "(if \<not> fa_fmdn_provisioned (fp s3) then fp_adv_set_rotate E s3 else (0, s3)) = (e4, s4)" by fastforce
  have "keeps s s2" by (simp add: s2_def fp_adv_state_read_def Let_def keeps_def)
  then have s3: "keeps s s3" using keeps_set_ops(2) [of s E s2] by (simp add: p3)
  have "keeps s (snd (fp_adv_set_rotate E s3))" using s3 by simp
  then have s4: "keeps s s4" using s3 p4 by (auto simp del: keeps_set_ops split: if_splits)
  then have "keeps s (fp_adv_mode_refresh E s4)" using keeps_mode_refresh [of s4 E] by (rule keeps_trans)
  with s3 s4 p4 show ?thesis
    by (simp add: app_fp_adv_enable_def Let_def s2_def [symmetric] p3)
qed

lemma disable_requests: "fp_adv_request_bm (fp (snd (app_fp_adv_disable E s))) = fp_adv_request_bm (fp s)"
proof -
  define s1 where "s1 = check ''is_initialized'' (is_initialized (fp s)) s"
  define s3 where "s3 = fp_adv_rpa_suspension_cancel (s1\<lparr>fp := (fp s1)\<lparr>is_enabled := False\<rparr>\<rparr>)"
  obtain e t where p: "fp_adv_set_teardown E (fp_adv_conn_clear (fp_adv_mode_set E APP_FP_ADV_MODE_OFF s3)) = (e, t)" by fastforce
  have "keeps s3 (snd (fp_adv_set_teardown E (fp_adv_conn_clear (fp_adv_mode_set E APP_FP_ADV_MODE_OFF s3))))"
    by (simp add: keeps_mode_set)
  then have t: "fp_adv_request_bm (fp t) = fp_adv_request_bm (fp s)"
    by (simp add: p keeps_def) (simp add: s3_def quiet_suspension s1_def)
  have "snd (app_fp_adv_disable E s) = (if \<not> is_enabled (fp s1) then s1 else t)"
    by (simp only: app_fp_adv_disable_def Let_def s1_def [symmetric] s3_def [symmetric] p prod.case snd_conv split: if_split)
      simp
  then show ?thesis using t by (simp add: s1_def)
qed

lemma request_effect:
  "requested (fp (app_fp_adv_request E t b s)) = (requested (fp s))(t := b)"
  "fp_adv_rpa_rotation_suspended (fp (app_fp_adv_request E t b s)) = fp_adv_rpa_rotation_suspended (fp s)"
proof -
  let ?s1 = "s\<lparr>fp := (fp s)\<lparr>fp_adv_request_bm := WRITE_BIT (fp_adv_request_bm (fp s)) (fp_adv_trigger_idx_get t) b\<rparr>\<rparr>"
  have r1: "requested (fp ?s1) = (requested (fp s))(t := b)"
    by (auto simp: fun_eq_iff requested_def word_flags.get_put)
  have k: "keeps ?s1 (fp_adv_mode_refresh E ?s1)" by (rule keeps_mode_refresh)
  show "requested (fp (app_fp_adv_request E t b s)) = (requested (fp s))(t := b)"
    using r1 keeps_requested [OF k]
    by (auto simp: app_fp_adv_request_def Let_def fun_eq_iff requested_def)
  show "fp_adv_rpa_rotation_suspended (fp (app_fp_adv_request E t b s)) = fp_adv_rpa_rotation_suspended (fp s)"
    using k by (simp add: app_fp_adv_request_def Let_def keeps_def)
qed

fun fp_keeping :: "fp_ev \<Rightarrow> bool" where
  "fp_keeping (FE_request t b) = False"
| "fp_keeping (FE_account_key c) = False"
| "fp_keeping (FE_provisioning p) = False"
| "fp_keeping FE_suspension_timeout = False"
| "fp_keeping FE_disable = False"
| "fp_keeping e = True"

lemma keeps_do: "fp_keeping e \<Longrightarrow> keeps s (fp_do E e s)"
  by (cases e) (simp_all add: fp_adv_connected_def keeps_expired keeps_enable fp_adv_restart_work_handle_def keeps_update
      fp_conn_cb_connected_def fp_conn_cb_disconnected_def app_fp_adv_payload_refresh_def keeps_payload
      app_fp_adv_id_set_def app_fp_adv_info_cb_register_def app_fp_adv_init_def Let_def keeps_params)

lemma fp_do_requests: "requested (fp (fp_do E e s)) = fp_abs_step e (requested (fp s))"
proof (cases e)
  case FE_disable
  then show ?thesis by (simp add: requested_def [abs_def] disable_requests)
next
  case (FE_account_key c)
  then show ?thesis
    by (simp add: fp_adv_account_key_written_def Let_def requested_def [abs_def] fp_adv_rpa_rotation_suspended_set_def)
next
  case (FE_provisioning p)
  have "keeps (s\<lparr>fp := (fp s)\<lparr>fa_fmdn_provisioned := p\<rparr>\<rparr>) (snd (fp_adv_set_rotate E (s\<lparr>fp := (fp s)\<lparr>fa_fmdn_provisioned := p\<rparr>\<rparr>)))"
    by simp
  then show ?thesis
    by (auto simp: FE_provisioning fp_adv_provisioning_state_changed_def Let_def requested_def [abs_def] keeps_def
        quiet_suspension)
next
  case FE_suspension_timeout
  then show ?thesis
    by (simp add: fp_adv_rpa_suspension_work_handle_def fp_adv_rpa_rotation_suspended_set_def requested_def [abs_def])
next
  case (FE_request t b)
  then show ?thesis by (simp add: request_effect)
qed (use keeps_requested [OF keeps_do [where e = e and s = s and E = E]] in simp_all)

interpretation fps: simulation "fp_do E" fp_ok fp_inv "\<lambda>s. requested (fp s)" fp_abs_step for E
  by unfold_locales (simp add: fp_do_requests)

lemma suspension_kept:
  assumes "fp_adv_rpa_rotation_suspended (fp s)"
    and "e \<notin> {FE_suspension_timeout, FE_provisioning True, FE_disable}"
  shows "fp_adv_rpa_rotation_suspended (fp (fp_do E e s))"
proof (cases e)
  case (FE_provisioning p)
  then have "\<not> p" using assms(2) by simp
  moreover have "keeps (s\<lparr>fp := (fp s)\<lparr>fa_fmdn_provisioned := p\<rparr>\<rparr>) (snd (fp_adv_set_rotate E (s\<lparr>fp := (fp s)\<lparr>fa_fmdn_provisioned := p\<rparr>\<rparr>)))"
    by simp
  ultimately show ?thesis
    using assms(1) by (simp add: FE_provisioning fp_adv_provisioning_state_changed_def Let_def keeps_def)
next
  case (FE_account_key c)
  then show ?thesis
    using assms(1) by (simp add: fp_adv_account_key_written_def Let_def fp_adv_rpa_rotation_suspended_set_def)
next
  case (FE_request t b)
  then show ?thesis using assms(1) by (simp add: request_effect)
qed (use assms keeps_do [where e = e and s = s and E = E] in \<open>simp_all add: keeps_def\<close>)

lemma suspension_kept_run:
  assumes "fp_adv_rpa_rotation_suspended (fp s)"
    and "set es \<inter> {FE_suspension_timeout, FE_provisioning True, FE_disable} = {}"
  shows "fp_adv_rpa_rotation_suspended (fp (run (fp_do E) es s))"
  using assms
proof (induction es arbitrary: s)
  case (Cons e es)
  then have "fp_adv_rpa_rotation_suspended (fp (fp_do E e s))" by (intro suspension_kept) auto
  moreover have "set es \<inter> {FE_suspension_timeout, FE_provisioning True, FE_disable} = {}" using Cons.prems(2) by auto
  ultimately show ?case using Cons.IH by simp
qed simp

lemma expired_unless_suspended:
  "fst (fp_adv_rpa_expired E s) \<Longrightarrow> \<not> fp_adv_rpa_rotation_suspended (fp s)"
proof -
  have f: "fp_adv_rpa_rotation_suspended (fp (fp_adv_rpa_timeout_set E t)) = fp_adv_rpa_rotation_suspended (fp t)" for t :: "'a fp_sys_scheme"
    using keeps_set_ops(5) [of t E t] by (simp add: keeps_def)
  show "fst (fp_adv_rpa_expired E s) \<Longrightarrow> \<not> fp_adv_rpa_rotation_suspended (fp s)"
    by (simp add: fp_adv_rpa_expired_def Let_def fp_adv_expire_rpa_def f split: if_splits)
qed

lemma payload_succeeds: "\<forall>es. ret F es = 0 \<Longrightarrow> fst (fp_adv_payload_set F r n s) = 0"
  by (simp add: fp_adv_payload_set_def Let_def result_def split: prod.split)

lemma update_succeeds:
  assumes "\<forall>es. ret F es = 0" "fp_adv_set (fp s) \<noteq> None" "fp_conn (fp s) = None"
  shows "fp_adv_set_active (fp (fp_advertising_update F s)) = (fp_adv_mode (fp s) \<noteq> APP_FP_ADV_MODE_OFF)"
proof -
  have n: "fp (fp_adv_state_changed_notify F b t) = fp t" for b t
    by (simp add: fp_adv_state_changed_notify_def fp_adv_state_changed_def)
  have "fp_adv_set_active (fp (snd (bt_stack_advertising_update F s))) = (fp_adv_mode (fp s) \<noteq> APP_FP_ADV_MODE_OFF)"
  proof (cases "fp_adv_mode (fp s) = APP_FP_ADV_MODE_OFF")
    case True
    then show ?thesis
      using assms by (simp add: bt_stack_advertising_update_def bt_stack_advertising_stop_def Let_def result_def)
  next
    case False
    then have "fp (snd (fp_adv_payload_set F False True s)) = fp s"
      using quiet_payload [OF assms(2) False] by (simp add: undisturbed_def)
    then show ?thesis
      using False assms payload_succeeds [OF assms(1), of False True s]
      by (cases "fp_adv_payload_set F False True s")
        (auto simp: bt_stack_advertising_update_def bt_stack_advertising_start_def Let_def result_def)
  qed
  then show ?thesis by (simp add: fp_advertising_update_def Let_def n)
qed

lemma to_s16_id: "- 32768 \<le> x \<Longrightarrow> x < 32768 \<Longrightarrow> to_s16 x = x"
  by (simp add: to_s16_def sint_sbintrunc' signed_take_bit_int_eq_self)

lemma rand_timeout_diff_range: "\<bar>rand_timeout_diff r\<bar> \<le> 32"
proof -
  define d2 where "d2 = to_s16 (to_s16 (c_div (FP_RPA_TIMEOUT_OFFSET_MAX * MSEC_PER_SEC) 127) * r)"
  have d2: "- 32768 \<le> d2" "d2 < 32768" by (simp_all add: d2_def to_s16_range)
  have "\<bar>c_div d2 MSEC_PER_SEC\<bar> \<le> 32"
  proof (cases "0 \<le> d2")
    case True
    then have "c_div d2 MSEC_PER_SEC = d2 div 1000" by (simp add: c_div_nonneg MSEC_PER_SEC_def)
    with True d2 show ?thesis by linarith
  next
    case False
    then have "c_div d2 MSEC_PER_SEC = - ((- d2) div 1000)" by (simp add: c_div_neg MSEC_PER_SEC_def)
    with False d2 show ?thesis by linarith
  qed
  moreover from this have "rand_timeout_diff r = c_div d2 MSEC_PER_SEC"
    by (simp add: rand_timeout_diff_def Let_def d2_def [symmetric] to_s16_id)
  ultimately show ?thesis by simp
qed

lemma unat_780_plus: "\<bar>d\<bar> \<le> 32 \<Longrightarrow> int (unat (780 + word_of_int d :: u16)) = 780 + d"
proof -
  assume d: "\<bar>d\<bar> \<le> 32"
  have "(780 + word_of_int d :: u16) = word_of_int (780 + d)" by simp
  then have "int (unat (780 + word_of_int d :: u16)) = take_bit 16 (780 + d)"
    by (simp only: int_nat_eq uint_word_of_int_eq flip: uint_nat) simp
  also have "\<dots> = 780 + d" using d by (intro take_bit_int_eq_self) auto
  finally show ?thesis .
qed

section \<open>An interface: what the module cannot disturb\<close>

text \<open>
  The module makes a limited set of calls, changes its own record and the UI state
  \<open>APP_UI_STATE_FP_ADV\<close>.  Any relation between states that these primitive effects respect
  is respected by all its operations.
\<close>

fun fp_adv_event :: "ev \<Rightarrow> bool" where
  "fp_adv_event (FP c) = (c \<in> {Fp_has_account_key, Fmdn_is_provisioned, Fp_info_cb_register, Fmdn_info_cb_register})"
| "fp_adv_event (DEV d) = False"
| "fp_adv_event (K (Work_cancel w)) = (w = W_fp_adv_rpa_suspension)"
| "fp_adv_event (K k) = (k = Csrand_get)"
| "fp_adv_event (BT (Conn_ref c)) = False"
| "fp_adv_event (BT (Conn_unref c)) = False"
| "fp_adv_event e = True"

locale fp_frame =
  fixes R :: "'a fp_sys_scheme \<Rightarrow> 'a fp_sys_scheme \<Rightarrow> bool"
  assumes R_refl: "R s s"
    and R_trans: "R s t \<Longrightarrow> R t u \<Longrightarrow> R s u"
    and R_event: "fp_adv_event e \<Longrightarrow> R s (invoke e s)"
    and R_record: "R s (s\<lparr>fp := f\<rparr>)"
    and R_indicate: "R s (app_ui_state_change_indicate E APP_UI_STATE_FP_ADV b s)"
begin

lemma R_invoke [simp]: "R s t \<Longrightarrow> fp_adv_event e \<Longrightarrow> R s (invoke e t)"
  using R_trans R_event by blast

lemma R_fp [simp]: "R s t \<Longrightarrow> R s (t\<lparr>fp := f\<rparr>)"
  using R_trans R_record by blast

lemma R_check [simp]: "R s t \<Longrightarrow> R s (check w b t)"
  by (simp add: check_def)

lemma R_notify [simp]: "R s t \<Longrightarrow> R s (fp_adv_state_changed_notify E b t)"
  using R_trans R_indicate by (auto simp: fp_adv_state_changed_notify_def fp_adv_state_changed_def)

lemma R_can_pair [simp]: "R s t \<Longrightarrow> R s (snd (can_pair E t))"
  by (simp add: can_pair_def bond_cnt_def Let_def)

lemma R_pairing [simp]: "R s t \<Longrightarrow> R s (snd (fp_adv_is_pairing_mode E m t))"
  by (simp add: fp_adv_is_pairing_mode_def)

lemma R_configure [simp]: "R s t \<Longrightarrow> R s (fp_adv_prov_configure E m t)"
  using R_can_pair [of s t E]
  by (cases "can_pair E t"; cases m) (simp_all add: fp_adv_prov_configure_def Let_def)

lemma R_payload [simp]:
  assumes "R s t"
  shows "R s (snd (fp_adv_payload_set E r n t))"
proof -
  define s2 where "s2 = fp_adv_prov_configure E (fp_adv_mode (fp t)) (check ''fp_adv_set'' (fp_adv_set (fp t) \<noteq> None) t)"
  define s3 where "s3 = invoke (BT (Hci_get_adv_handle (set_ptr s2))) s2"
  obtain p s4 where p: "fp_adv_is_pairing_mode E (fp_adv_mode (fp s3)) s3 = (p, s4)" by fastforce
  have "R s s3" using assms by (simp add: s3_def s2_def)
  moreover from this have "R s s4" using R_pairing [of s s3 E "fp_adv_mode (fp s3)"] by (simp add: p)
  ultimately show ?thesis
    by (simp add: fp_adv_payload_set_def s2_def [symmetric, simplified] s3_def [symmetric] p Let_def)
qed

lemma R_update [simp]:
  assumes "R s t"
  shows "R s (fp_advertising_update E t)"
proof -
  let ?s1 = "check ''!fp_conn'' (fp_conn (fp t) = None) t"
  obtain e s2 where p: "fp_adv_payload_set E False True ?s1 = (e, s2)" by fastforce
  have s1: "R s ?s1" using assms by simp
  then have "R s s2" using R_payload [of s ?s1 E False True] by (simp add: p)
  with s1 have "R s (snd (bt_stack_advertising_update E t))"
    by (simp add: bt_stack_advertising_update_def bt_stack_advertising_start_def bt_stack_advertising_stop_def p Let_def)
  then show ?thesis by (simp add: fp_advertising_update_def Let_def)
qed

lemma R_mode_set [simp]: "R s t \<Longrightarrow> R s (fp_adv_mode_set E m t)"
  by (simp add: fp_adv_mode_set_def Let_def)

lemma R_mode_refresh [simp]: "R s t \<Longrightarrow> R s (fp_adv_mode_refresh E t)"
  by (simp add: fp_adv_mode_refresh_def)

lemma R_request [simp]: "R s t \<Longrightarrow> R s (app_fp_adv_request E tr b t)"
  by (simp add: app_fp_adv_request_def Let_def)

lemma R_set_ops [simp]:
  "R s t \<Longrightarrow> R s (snd (fp_adv_set_rotate E t))"
  "R s t \<Longrightarrow> R s (snd (fp_adv_set_setup E t))"
  "R s t \<Longrightarrow> R s (snd (fp_adv_set_teardown E t))"
  "R s t \<Longrightarrow> R s (fp_adv_conn_clear t)"
  "R s t \<Longrightarrow> R s (fp_adv_state_read E t)"
  "R s t \<Longrightarrow> R s (fp_adv_rpa_suspension_cancel t)"
  by (simp_all add: fp_adv_set_rotate_def fp_adv_set_setup_def fp_adv_set_teardown_def fp_adv_conn_clear_def
      fp_adv_state_read_def fp_adv_rpa_suspension_cancel_def fp_adv_rpa_rotation_suspended_set_def Let_def split: option.split)

lemma R_enable [simp]:
  assumes "R s t"
  shows "R s (snd (app_fp_adv_enable E t))"
proof -
  define s2 where "s2 = fp_adv_state_read E (check ''is_initialized'' (is_initialized (fp t)) t)"
  obtain e3 s3 where p3: "fp_adv_set_setup E s2 = (e3, s3)" by fastforce
  obtain e4 s4 where p4: "(if \<not> fa_fmdn_provisioned (fp s3) then fp_adv_set_rotate E s3 else (0, s3)) = (e4, s4)" by fastforce
  have "R s s2" using assms by (simp add: s2_def)
  then have s3: "R s s3" using R_set_ops(2) [of s s2 E] by (simp add: p3)
  have "R s (snd (fp_adv_set_rotate E s3))" using s3 by simp
  then have "R s s4" using s3 p4 by (auto simp del: R_set_ops split: if_splits)
  with s3 p4 assms show ?thesis
    by (simp add: app_fp_adv_enable_def Let_def s2_def [symmetric] p3)
qed

lemma R_disable [simp]:
  assumes "R s t"
  shows "R s (snd (app_fp_adv_disable E t))"
proof -
  define s1 where "s1 = check ''is_initialized'' (is_initialized (fp t)) t"
  define s3 where "s3 = fp_adv_rpa_suspension_cancel (s1\<lparr>fp := (fp s1)\<lparr>is_enabled := False\<rparr>\<rparr>)"
  obtain e u where p: "fp_adv_set_teardown E (fp_adv_conn_clear (fp_adv_mode_set E APP_FP_ADV_MODE_OFF s3)) = (e, u)" by fastforce
  have "R s s3" using assms by (simp add: s3_def s1_def)
  then have "R s u" using R_set_ops(3) [of s "fp_adv_conn_clear (fp_adv_mode_set E APP_FP_ADV_MODE_OFF s3)" E]
    by (simp add: p)
  moreover have "snd (app_fp_adv_disable E t) = (if \<not> is_enabled (fp s1) then s1 else u)"
    by (simp only: app_fp_adv_disable_def Let_def s1_def [symmetric] s3_def [symmetric] p prod.case snd_conv split: if_split)
      simp
  ultimately show ?thesis using assms by (simp add: s1_def)
qed

end

section \<open>A session\<close>

definition fp_init_state :: fp_sys where
  "fp_init_state = bat_sys.extend bat_init_state \<lparr>fp = fp_st_init\<rparr>"

lemma fp_init_simps [simp]: "fp fp_init_state = fp_st_init" "trace fp_init_state = []" "ui fp_init_state = ui_st_init"
  by (simp_all add: fp_init_state_def bat_sys.extend_def bat_init_state_def dev_sys.extend_def ring_sys.extend_def
      set_DynamicData_def)

lemma fp_init_inv [simp]: "fp_inv fp_init_state"
  by (simp add: fp_inv_def shows_state_def fp_st_init_def ui_st_init_def trigger_bits_def atomic_test_bit_def TEST_BIT_def)

text \<open>With a stack that accepts every call: enabled, requested by the user, connected.\<close>

definition fp_session :: "fp_ev list" where
  "fp_session = [FE_init, FE_register True, FE_enable, FE_request fp_adv_trigger_ui True, FE_connected 1]"

lemma const_env_simps [simp]: "result (const_env r) s = r" "outval (const_env r) s = 0" "ret (const_env r) es = r"
  by (simp_all add: result_def outval_def const_env_def)

lemma mode_refresh_exact:
  assumes "\<forall>es. ret F es = 0" "fp_adv_set (fp s) \<noteq> None" "fast_pair_adv_info_cb (fp s)" "shows_state s"
    "fp_conn (fp s) = None" "fp_adv_mode (fp s) \<noteq> requested_mode (fp s)"
  shows "fp (fp_adv_mode_refresh F s) = (fp s)\<lparr>fp_adv_mode := requested_mode (fp s),
    fp_adv_set_active := (requested_mode (fp s) \<noteq> APP_FP_ADV_MODE_OFF)\<rparr>"
proof -
  let ?s1 = "s\<lparr>fp := (fp s)\<lparr>fp_adv_mode := requested_mode (fp s)\<rparr>\<rparr>"
  have "shows_state ?s1" using assms(4) by (simp add: shows_state_def)
  then have "\<exists>a. fp (fp_advertising_update F ?s1) = (fp ?s1)\<lparr>fp_adv_set_active := a\<rparr> \<and> shows_state (fp_advertising_update F ?s1)"
    using assms by (intro advertising_update_effect) auto
  moreover have "fp_adv_set_active (fp (fp_advertising_update F ?s1)) = (requested_mode (fp s) \<noteq> APP_FP_ADV_MODE_OFF)"
    using assms by (subst update_succeeds) auto
  ultimately show ?thesis using assms by (auto simp: fp_adv_mode_refresh_def fp_adv_mode_set_def)
qed

lemma fp_session_state:
  defines "E \<equiv> const_env 0"
  defines "s \<equiv> run (fp_do E) fp_session fp_init_state"
  shows "fp s = fp_st_init\<lparr>is_initialized := True, is_enabled := True,
     fp_adv_set := Some 0, fp_adv_mode := APP_FP_ADV_MODE_DISCOVERABLE, fp_adv_request_bm := 4,
     fast_pair_adv_info_cb := True, fp_conn := Some 1\<rparr>"
    and "run_ok fp_ok (fp_do E) fp_session fp_init_state"
proof -
  define s2 where "s2 = fp_do E (FE_register True) (fp_do E FE_init fp_init_state)"
  define s3 where "s3 = fp_do E FE_enable s2"
  define s4 where "s4 = fp_do E (FE_request fp_adv_trigger_ui True) s3"
  have f2: "fp s2 = fp_st_init\<lparr>is_initialized := True, fast_pair_adv_info_cb := True\<rparr>"
    by (simp add: s2_def app_fp_adv_init_def app_fp_adv_info_cb_register_def app_fp_adv_is_ready_def Let_def fp_st_init_def E_def)
  have i2: "fp_inv s2" by (simp add: s2_def fp_do_inv del: fp_do.simps)
  have f3: "fp s3 = (fp s2)\<lparr>is_enabled := True, fp_adv_set := Some 0\<rparr>"
    by (simp add: s3_def app_fp_adv_enable_def fp_adv_state_read_def fp_adv_set_setup_def fp_adv_set_rotate_def
        fp_adv_mode_refresh_def requested_mode_def Let_def f2 fp_st_init_def set_fp_interval_def E_def)
  have o3: "fp_ok FE_enable s2" by (simp add: f2 fp_st_init_def)
  have i3: "fp_inv s3" unfolding s3_def using i2 o3 by (rule fp_do_inv)
  let ?s = "s3\<lparr>fp := (fp s3)\<lparr>fp_adv_request_bm := 4\<rparr>\<rparr>"
  have "fp (fp_adv_mode_refresh E ?s) = (fp ?s)\<lparr>fp_adv_mode := requested_mode (fp ?s),
      fp_adv_set_active := (requested_mode (fp ?s) \<noteq> APP_FP_ADV_MODE_OFF)\<rparr>"
    using i3 by (intro mode_refresh_exact) (simp_all add: f3 f2 fp_st_init_def fp_inv_def shows_state_def requested_mode_def E_def)
  then have f4: "fp s4 = (fp s3)\<lparr>fp_adv_request_bm := 4, fp_adv_mode := APP_FP_ADV_MODE_DISCOVERABLE, fp_adv_set_active := True\<rparr>"
    by (simp add: s4_def app_fp_adv_request_def Let_def f3 f2 fp_st_init_def TEST_BIT_def WRITE_BIT_def BIT_def
        app_fp_adv_is_ready_def requested_mode_def)
  have "s = fp_do E (FE_connected 1) s4"
    by (simp only: s_def fp_session_def run.simps s2_def s3_def s4_def)
  then have "fp s = (fp s4)\<lparr>fp_adv_set_active := False, fp_conn := Some 1\<rparr>"
    by (simp add: fp_adv_connected_def Let_def fp_adv_state_changed_notify_def fp_adv_state_changed_def)
  then show "fp s = fp_st_init\<lparr>is_initialized := True, is_enabled := True,
     fp_adv_set := Some 0, fp_adv_mode := APP_FP_ADV_MODE_DISCOVERABLE, fp_adv_request_bm := 4,
     fast_pair_adv_info_cb := True, fp_conn := Some 1\<rparr>"
    by (simp add: f4 f3 f2 fp_st_init_def)
  have "fp_ok (FE_connected 1) s4" by (simp add: f4 f3 f2 fp_st_init_def)
  then show "run_ok fp_ok (fp_do E) fp_session fp_init_state"
    using o3 by (simp add: fp_session_def del: fp_do.simps flip: s2_def s3_def s4_def)
qed

lemma update_despite_connection:
  fixes s :: "'a fp_sys_scheme"
  assumes "\<forall>es. ret F es = 0" "fp_adv_set (fp s) \<noteq> None" "fp_conn (fp s) \<noteq> None" "fp_adv_mode (fp s) \<noteq> APP_FP_ADV_MODE_OFF"
  shows "fp (fp_advertising_update F s) = (fp s)\<lparr>fp_adv_set_active := True\<rparr>
    \<and> \<not> asserts_hold (trace (fp_advertising_update F s))"
proof -
  define s1 where "s1 = check ''!fp_conn'' (fp_conn (fp s) = None) s"
  have f: "fp s1 = fp s" by (simp add: s1_def)
  obtain e s2 where p: "fp_adv_payload_set F False True s1 = (e, s2)" by fastforce
  have u: "undisturbed s1 s2" using quiet_payload [of s1 F False True] assms by (simp add: p f)
  have "e = 0" using payload_succeeds [OF assms(1), of False True s1] by (simp add: p)
  moreover have "\<not> asserts_hold (trace s1)" using assms(3) by (auto simp: s1_def check_def)
  ultimately have "fp (snd (bt_stack_advertising_update F s)) = (fp s)\<lparr>fp_adv_set_active := True\<rparr>
      \<and> \<not> asserts_hold (trace (snd (bt_stack_advertising_update F s)))"
    using assms u p
    by (simp add: bt_stack_advertising_update_def Let_def s1_def [symmetric] f bt_stack_advertising_start_def result_def undisturbed_def)
  moreover have "fp (fp_adv_state_changed_notify F b t) = fp t" "trace (fp_adv_state_changed_notify F b t) = trace t" for b and t :: "'a fp_sys_scheme"
    by (simp_all add: fp_adv_state_changed_notify_def fp_adv_state_changed_def indicate_trace)
  ultimately show ?thesis by (simp add: fp_advertising_update_def Let_def)
qed

section \<open>Properties\<close>



text \<open>
  C36: Convergence.  From any reachable state of an enabled module without a connection, one
  run of the restart work with a stack that accepts the calls leaves the set active exactly
  when a trigger asks for advertising.
\<close>

theorem fp_adv_restart_converges:
  fixes E F
  assumes "run_ok fp_ok (fp_do E) es fp_init_state" and "\<forall>es. ret F es = 0"
    and "app_fp_adv_is_ready (run (fp_do E) es fp_init_state)" and "fp_conn (fp (run (fp_do E) es fp_init_state)) = None"
  shows "fp_adv_set_active (fp (fp_adv_restart_work_handle F (run (fp_do E) es fp_init_state)))
    \<longleftrightarrow> (\<exists>t. run fp_abs_step es (\<lambda>_. False) t)"
proof -
  define s where "s = run (fp_do E) es fp_init_state"
  have inv: "fp_inv s" unfolding s_def by (rule fpm.run_inv [OF fp_init_inv assms(1)])
  have r: "requested (fp s) = run fp_abs_step es (\<lambda>_. False)"
    using fps.run_abs [OF fp_init_inv assms(1)]
    by (simp add: s_def requested_def [abs_def] fp_st_init_def TEST_BIT_def)
  have "fp_adv_set_active (fp (fp_advertising_update F s)) = (fp_adv_mode (fp s) \<noteq> APP_FP_ADV_MODE_OFF)"
    using inv assms(2-4) by (simp add: update_succeeds fp_inv_def app_fp_adv_is_ready_def flip: s_def)
  then show ?thesis
    using inv assms(3) r by (simp add: fp_adv_restart_work_handle_def fp_inv_def no_request_iff app_fp_adv_is_ready_def flip: s_def)
qed

theorem fp_adv_restart_converges_witness:
  "fp_adv_set_active (fp (fp_adv_restart_work_handle (const_env 0)
     (run (fp_do (const_env 0)) (fp_session @ [FE_disconnected 1 19]) fp_init_state)))"
proof -
  let ?s = "run (fp_do (const_env 0)) (fp_session @ [FE_disconnected 1 19]) fp_init_state"
  have "fp_conn (fp ?s) = None" "app_fp_adv_is_ready ?s"
    by (simp_all add: run_append fp_conn_cb_disconnected_def fp_session_state app_fp_adv_is_ready_def)
  moreover have "run fp_abs_step (fp_session @ [FE_disconnected 1 19]) (\<lambda>_. False) fp_adv_trigger_ui"
    by (simp add: fp_session_def)
  ultimately show ?thesis
    using fp_adv_restart_converges [of "const_env 0" "fp_session @ [FE_disconnected 1 19]" "const_env 0"]
    by (auto simp: run_ok_append fp_session_state)
qed

text \<open>
  C37: The address is kept while a new owner is provisioned.  Once an account key has been
  written to an enabled, unprovisioned module without a key, no RPA rotation is granted
  until the five-minute work runs, the device is provisioned or the module is disabled.
\<close>

theorem fp_rpa_kept_during_provisioning:
  fixes E
  assumes "app_fp_adv_is_ready s" and "\<not> fa_fmdn_provisioned (fp s)" and "\<not> fa_account_key_present (fp s)"
    and "set es \<inter> {FE_suspension_timeout, FE_provisioning True, FE_disable} = {}"
  shows "\<not> fst (fp_adv_rpa_expired E (run (fp_do E) es (fp_adv_account_key_written E c s)))
    \<and> K (Work_schedule W_fp_adv_rpa_suspension 300000) \<in> set (trace (fp_adv_account_key_written E c s))"
proof -
  have "fp_adv_rpa_rotation_suspended (fp (fp_adv_account_key_written E c s))"
    using assms(1-3) by (simp add: fp_adv_account_key_written_def Let_def fp_adv_rpa_rotation_suspended_set_def)
  then have "fp_adv_rpa_rotation_suspended (fp (run (fp_do E) es (fp_adv_account_key_written E c s)))"
    using assms(4) by (rule suspension_kept_run)
  then have "\<not> fst (fp_adv_rpa_expired E (run (fp_do E) es (fp_adv_account_key_written E c s)))"
    using expired_unless_suspended by blast
  moreover have "K (Work_schedule W_fp_adv_rpa_suspension 300000) \<in> set (trace (fp_adv_account_key_written E c s))"
    using assms(1-3) by (simp add: fp_adv_account_key_written_def Let_def FP_ADV_RPA_SUSPENSION_TIMEOUT_def)
  ultimately show ?thesis ..
qed

theorem fp_rpa_kept_during_provisioning_witness:
  "\<exists>s. s = run (fp_do (const_env 0)) [FE_conn_cb 1 0] (fp_adv_account_key_written (const_env 0) 1
         (run (fp_do (const_env 0)) fp_session fp_init_state))
     \<and> \<not> fst (fp_adv_rpa_expired (const_env 0) s)"
  using fp_rpa_kept_during_provisioning [of "run (fp_do (const_env 0)) fp_session fp_init_state" "[FE_conn_cb 1 0]" "const_env 0" 1]
  by (simp add: fp_session_state app_fp_adv_is_ready_def fp_st_init_def)

text \<open>
  C38: The RPA timeout.  Whatever the random generator gives, the timeout that is set lies
  within 32 seconds of 13 minutes, because the random offset is kept in a 16-bit variable:
  at the ends of the random range the intended offset is two minutes.
\<close>

theorem fp_rpa_timeout_range:
  "748 \<le> unat (fst (fp_adv_rpa_timeout_calculate E s)) \<and> unat (fst (fp_adv_rpa_timeout_calculate E s)) \<le> 812
    \<and> rand_timeout_diff 127 = -11 \<and> c_div (c_div (FP_RPA_TIMEOUT_OFFSET_MAX * MSEC_PER_SEC) 127 * 127) MSEC_PER_SEC = 119"
proof -
  have "\<exists>d. \<bar>d\<bar> \<le> 32 \<and> fst (fp_adv_rpa_timeout_calculate E s) = 780 + word_of_int d"
  proof (cases "result E (invoke (K Csrand_get) s) = 0")
    case True
    then show ?thesis
      by (intro exI [of _ "rand_timeout_diff (sint (word_of_int (outval E (invoke (K Csrand_get) s)) :: u8))"] conjI
          rand_timeout_diff_range) (simp add: fp_adv_rpa_timeout_calculate_def Let_def FP_RPA_TIMEOUT_def)
  next
    case False
    then show ?thesis
      by (intro exI [of _ 0]) (simp add: fp_adv_rpa_timeout_calculate_def Let_def FP_RPA_TIMEOUT_def)
  qed
  then obtain d where d: "\<bar>d\<bar> \<le> 32" "fst (fp_adv_rpa_timeout_calculate E s) = 780 + word_of_int d" by blast
  have "int (unat (fst (fp_adv_rpa_timeout_calculate E s))) = 780 + d" using unat_780_plus [OF d(1)] by (simp add: d(2))
  then have "748 \<le> unat (fst (fp_adv_rpa_timeout_calculate E s)) \<and> unat (fst (fp_adv_rpa_timeout_calculate E s)) \<le> 812"
    using d(1) by linarith
  moreover have "rand_timeout_diff 127 = -11"
    by (simp add: rand_timeout_diff_def c_div_def to_s16_def FP_RPA_TIMEOUT_OFFSET_MAX_def MSEC_PER_SEC_def
        sint_sbintrunc')
  moreover have "c_div (c_div (FP_RPA_TIMEOUT_OFFSET_MAX * MSEC_PER_SEC) 127 * 127) MSEC_PER_SEC = 119"
    by (simp add: c_div_def FP_RPA_TIMEOUT_OFFSET_MAX_def MSEC_PER_SEC_def)
  ultimately show ?thesis by blast
qed



end
