(* ===== verification/FactoryReset.thy ===== *)
theory FactoryReset
  imports FpAdv "HOL-Library.Sublist"
begin

text \<open>
  src/factory_reset.c: the delayed reset to factory settings.  The modules that take part
  register callbacks in a linker section, so their list is a parameter \<open>C\<close> of the
  operations that walk it.  The hook that the Fast Pair library calls from inside
  \<open>bt_fast_pair_factory_reset\<close> is an operation of its own.
\<close>

section \<open>State\<close>

datatype app_factory_reset_state =
  APP_FACTORY_RESET_STATE_IDLE | APP_FACTORY_RESET_STATE_PENDING | APP_FACTORY_RESET_STATE_IN_PROGRESS

record fr_st =
  factory_reset_state :: app_factory_reset_state
  factory_reset_ui_requested :: bool

record fr_sys = fp_sys +
  fr :: fr_st

record 's app_factory_reset_callbacks =
  cb_prepare :: "('s \<Rightarrow> 's) option"
  cb_executed :: "('s \<Rightarrow> 's) option"

definition fr_st_init :: fr_st where
  "fr_st_init = \<lparr>factory_reset_state = APP_FACTORY_RESET_STATE_IDLE, factory_reset_ui_requested = False\<rparr>"

abbreviation upd_fr :: "(fr_st \<Rightarrow> fr_st) \<Rightarrow> 'a fr_sys_scheme \<Rightarrow> 'a fr_sys_scheme" where
  "upd_fr f s \<equiv> s\<lparr>fr := f (fr s)\<rparr>"

section \<open>Operations\<close>

definition bt_fast_pair_factory_reset_user_action_perform :: "env \<Rightarrow> 'a fp_sys_scheme \<Rightarrow> int \<times> 'a fp_sys_scheme" where
  "bt_fast_pair_factory_reset_user_action_perform E s =
     (let bt_id = app_fp_adv_id_get s;
          s1 = invoke (BT Id_get) s;
          id_count = outval E s1
      in if uint bt_id < id_count then
           let s2 = invoke (BT (Id_reset (unat bt_id))) s1;
               id = result E s2
           in if id \<noteq> uint bt_id then (id, s2) else (0, s2)
         else (0, s1))"

definition factory_reset_prepare :: "'s app_factory_reset_callbacks list \<Rightarrow> 's \<Rightarrow> 's" where
  "factory_reset_prepare C s = fold (\<lambda>cbs s. case cb_prepare cbs of None \<Rightarrow> s | Some f \<Rightarrow> f s) C s"

definition factory_reset_executed :: "'s app_factory_reset_callbacks list \<Rightarrow> 's \<Rightarrow> 's" where
  "factory_reset_executed C s = fold (\<lambda>cbs s. case cb_executed cbs of None \<Rightarrow> s | Some f \<Rightarrow> f s) C s"

text \<open>
  The body of the reset: each step runs unless an earlier one failed (\<open>goto finish\<close>).
\<close>

definition and_then :: "int \<times> 's \<Rightarrow> ('s \<Rightarrow> int \<times> 's) \<Rightarrow> int \<times> 's" where
  "and_then r f = (let (err, s) = r in if err \<noteq> 0 then (err, s) else f s)"

definition call :: "env \<Rightarrow> ev \<Rightarrow> 'a io_scheme \<Rightarrow> int \<times> 'a io_scheme" where
  "call E e s = (let s1 = invoke e s in (result E s1, s1))"

definition factory_reset_steps :: "env \<Rightarrow> bool \<Rightarrow> bool \<Rightarrow> 'a fr_sys_scheme \<Rightarrow> int \<times> 'a fr_sys_scheme" where
  "factory_reset_steps E fast_pair_is_ready fp_adv_is_ready s =
     and_then (and_then (and_then (and_then
       (if fp_adv_is_ready then app_fp_adv_disable E s else (0, s))
       (\<lambda>s. if fast_pair_is_ready then call E (FP Fp_disable) s else (0, s)))
       (\<lambda>s. call E (FP Fp_factory_reset) s))
       (\<lambda>s. if fast_pair_is_ready then call E (FP Fp_enable) s else (0, s)))
       (\<lambda>s. if fp_adv_is_ready then app_fp_adv_enable E s else (0, s))"

definition factory_reset_perform ::
  "env \<Rightarrow> 'a fr_sys_scheme app_factory_reset_callbacks list \<Rightarrow> 'a fr_sys_scheme \<Rightarrow> 'a fr_sys_scheme" where
  "factory_reset_perform E C s =
     (let s1 = invoke (FP Fp_is_ready) s;
          fast_pair_is_ready = (result E s1 \<noteq> 0);
          fp_adv_is_ready = app_fp_adv_is_ready s1
      in if factory_reset_state (fr s1) = APP_FACTORY_RESET_STATE_IN_PROGRESS then check ''false'' False s1
         else
           let s2 = upd_fr (factory_reset_state_update (\<lambda>_. APP_FACTORY_RESET_STATE_IN_PROGRESS)) s1;
               s3 = factory_reset_prepare C s2;
               (err, s4) = factory_reset_steps E fast_pair_is_ready fp_adv_is_ready s3
           in if err \<noteq> 0 then k_panic (check ''false'' False s4)
              else
                let s5 = factory_reset_executed C s4;
                    s6 = upd_fr (factory_reset_state_update (\<lambda>_. APP_FACTORY_RESET_STATE_IDLE)) s5
                in sys_reboot s6)"

definition factory_reset_work_handle ::
  "env \<Rightarrow> 'a fr_sys_scheme app_factory_reset_callbacks list \<Rightarrow> 'a fr_sys_scheme \<Rightarrow> 'a fr_sys_scheme" where
  "factory_reset_work_handle E C s = factory_reset_perform E C s"

definition factory_reset_request_handle :: "app_ui_request \<Rightarrow> 'a fr_sys_scheme \<Rightarrow> 'a fr_sys_scheme" where
  "factory_reset_request_handle request s =
     (if request = APP_UI_REQUEST_FACTORY_RESET
      then upd_fr (factory_reset_ui_requested_update (\<lambda>_. True)) s else s)"

text \<open>The delay is in milliseconds.\<close>

definition app_factory_reset_schedule :: "nat \<Rightarrow> 'a fr_sys_scheme \<Rightarrow> 'a fr_sys_scheme" where
  "app_factory_reset_schedule delay s =
     (if factory_reset_state (fr s) \<noteq> APP_FACTORY_RESET_STATE_IDLE then s
      else
        let s1 = invoke (K (Work_schedule W_factory_reset delay)) s
        in upd_fr (factory_reset_state_update (\<lambda>_. APP_FACTORY_RESET_STATE_PENDING)) s1)"

definition app_factory_reset_cancel :: "'a fr_sys_scheme \<Rightarrow> 'a fr_sys_scheme" where
  "app_factory_reset_cancel s =
     (if factory_reset_state (fr s) = APP_FACTORY_RESET_STATE_IN_PROGRESS then s
      else
        let s1 = invoke (K (Work_cancel W_factory_reset)) s
        in upd_fr (factory_reset_state_update (\<lambda>_. APP_FACTORY_RESET_STATE_IDLE)) s1)"

definition app_factory_reset_init ::
  "env \<Rightarrow> 'a fr_sys_scheme app_factory_reset_callbacks list \<Rightarrow> 'a fr_sys_scheme \<Rightarrow> int \<times> 'a fr_sys_scheme" where
  "app_factory_reset_init E C s =
     (let s1 = check ''IDLE'' (factory_reset_state (fr s) = APP_FACTORY_RESET_STATE_IDLE) s
      in if factory_reset_ui_requested (fr s1)
         then (0, factory_reset_perform E C (upd_fr (factory_reset_ui_requested_update (\<lambda>_. False)) s1))
         else (0, s1))"

section \<open>Frame\<close>

lemma fr_invoke [simp]: "fr (invoke e s) = fr s"
  by (simp add: invoke_def)

lemma fr_check [simp]: "fr (check w b s) = fr s"
  by (simp add: check_def)

lemma fr_indicate [simp]: "fr (app_ui_state_change_indicate E st a s) = fr s"
  by (simp add: app_ui_state_change_indicate_def app_ui_speaker_off_def Let_def)

lemma halt_fr [simp]: "fr (k_panic s) = fr s" "fr (sys_reboot s) = fr s" "halted (k_panic s) = Some Panicked"
  "halted (sys_reboot s) = Some Rebooted" "trace (k_panic s) = trace s @ [K Panic]" "trace (sys_reboot s) = trace s @ [K Sys_reboot]"
  by (simp_all add: k_panic_def sys_reboot_def)

section \<open>The pending reset\<close>

text \<open>The kernel's delayed work: pending from its scheduling to its cancellation or start.\<close>

fun fr_timer_step :: "nat option \<Rightarrow> ev \<Rightarrow> nat option" where
  "fr_timer_step t (K (Work_schedule w ms)) = (if w = W_factory_reset \<and> t = None then Some ms else t)"
| "fr_timer_step t (K (Work_cancel w)) = (if w = W_factory_reset then None else t)"
| "fr_timer_step t e = t"

datatype fr_ev = FR_schedule nat | FR_cancel | FR_request app_ui_request

fun fr_do :: "fr_ev \<Rightarrow> 'a fr_sys_scheme \<Rightarrow> 'a fr_sys_scheme" where
  "fr_do (FR_schedule d) s = app_factory_reset_schedule d s"
| "fr_do FR_cancel s = app_factory_reset_cancel s"
| "fr_do (FR_request r) s = factory_reset_request_handle r s"

definition fr_timed_do :: "fr_ev \<Rightarrow> 'a fr_sys_scheme \<times> nat option \<Rightarrow> 'a fr_sys_scheme \<times> nat option" where
  "fr_timed_do e = (\<lambda>(s, timer).
     let s' = fr_do e s in (s', foldl fr_timer_step timer (drop (length (trace s)) (trace s'))))"

definition fr_inv :: "'a fr_sys_scheme \<times> nat option \<Rightarrow> bool" where
  "fr_inv = (\<lambda>(s, timer).
     factory_reset_state (fr s) = (if timer = None then APP_FACTORY_RESET_STATE_IDLE else APP_FACTORY_RESET_STATE_PENDING))"

text \<open>Abstractly: the delay of the first request since the last cancellation.\<close>

fun fr_abs_step :: "fr_ev \<Rightarrow> nat option \<Rightarrow> nat option" where
  "fr_abs_step (FR_schedule d) t = (case t of None \<Rightarrow> Some d | Some d' \<Rightarrow> Some d')"
| "fr_abs_step FR_cancel t = None"
| "fr_abs_step (FR_request r) t = t"

interpretation frm: simulation fr_timed_do "\<lambda>_ _. True" fr_inv snd fr_abs_step
proof
  fix x :: "'a fr_sys_scheme \<times> nat option" and e
  assume "fr_inv x"
  then show "fr_inv (fr_timed_do e x)" "snd (fr_timed_do e x) = fr_abs_step e (snd x)"
    by (cases x; cases e; auto simp: fr_inv_def fr_timed_do_def Let_def app_factory_reset_schedule_def
        app_factory_reset_cancel_def factory_reset_request_handle_def split: if_splits option.splits)+
qed

lemma ui_inv_fr [simp]: "ui_inv (s\<lparr>fr := r\<rparr>) = ui_inv s"
  by (simp add: ui_inv_def)

interpretation fr_listener: ui_listener factory_reset_request_handle
  by unfold_locales (simp add: factory_reset_request_handle_def)

section \<open>The reset itself\<close>

text \<open>The calls of the library that take it down, erase its data and bring it up.\<close>

fun is_reset_call :: "ev \<Rightarrow> bool" where
  "is_reset_call (FP Fp_disable) = True"
| "is_reset_call (FP Fp_factory_reset) = True"
| "is_reset_call (FP Fp_enable) = True"
| "is_reset_call _ = False"

definition reset_calls :: "ev list \<Rightarrow> ev list" where
  "reset_calls = filter is_reset_call"

lemma reset_calls_append [simp]: "reset_calls (es @ fs) = reset_calls es @ reset_calls fs"
  by (simp add: reset_calls_def)

lemma reset_calls_Cons [simp]: "reset_calls [] = []"
  "reset_calls (e # es) = (if is_reset_call e then e # reset_calls es else reset_calls es)"
  by (simp_all add: reset_calls_def)

definition no_reset :: "'a fr_sys_scheme \<Rightarrow> 'a fr_sys_scheme \<Rightarrow> bool" where
  "no_reset s t \<longleftrightarrow> reset_calls (trace t) = reset_calls (trace s) \<and> halted t = halted s \<and> fr t = fr s"

lemma no_reset_refl [simp]: "no_reset s s"
  by (simp add: no_reset_def)

lemma no_reset_trans: "no_reset s t \<Longrightarrow> no_reset t u \<Longrightarrow> no_reset s u"
  by (simp add: no_reset_def)

lemma no_reset_io [simp]:
  "\<not> is_reset_call e \<Longrightarrow> no_reset s (invoke e t) = no_reset s t"
  "no_reset s (check w b t) = no_reset s t"
  "no_reset s (t\<lparr>fp := f\<rparr>) = no_reset s t"
  by (simp_all add: no_reset_def check_def)

lemma no_reset_indicate [simp]: "no_reset s (app_ui_state_change_indicate E st a t) = no_reset s t"
  by (simp add: no_reset_def app_ui_state_change_indicate_def app_ui_speaker_off_def Let_def)

lemma fp_adv_event_no_reset: "fp_adv_event e \<Longrightarrow> \<not> is_reset_call e"
  by (cases e rule: is_reset_call.cases) auto

interpretation nr: fp_frame no_reset
  by unfold_locales (auto intro: no_reset_trans simp: fp_adv_event_no_reset)

text \<open>A module's reset callbacks leave the reset in progress alone.\<close>

locale reset_participant =
  fixes cbs :: "'a fr_sys_scheme app_factory_reset_callbacks"
  assumes prepare_quiet: "cb_prepare cbs = Some f \<Longrightarrow> no_reset s (f s)"
    and executed_quiet: "cb_executed cbs = Some f \<Longrightarrow> no_reset s (f s)"
begin

lemma callbacks_quiet:
  "no_reset s (case cb_prepare cbs of None \<Rightarrow> s | Some f \<Rightarrow> f s)"
  "no_reset s (case cb_executed cbs of None \<Rightarrow> s | Some f \<Rightarrow> f s)"
  by (simp_all add: prepare_quiet executed_quiet split: option.split)

end

lemma participants_quiet:
  assumes "list_all reset_participant C"
  shows "no_reset s (factory_reset_prepare C s)" "no_reset s (factory_reset_executed C s)"
  using assms
  by (induction C arbitrary: s)
    (auto simp: factory_reset_prepare_def factory_reset_executed_def intro: no_reset_trans reset_participant.callbacks_quiet)

definition expected_reset_calls :: "bool \<Rightarrow> ev list" where
  "expected_reset_calls ready = (if ready then [FP Fp_disable, FP Fp_factory_reset, FP Fp_enable] else [FP Fp_factory_reset])"

text \<open>What a sequence of steps has done: all the expected calls, or a proper part and an error.\<close>

definition did :: "'a fr_sys_scheme \<Rightarrow> ev list \<Rightarrow> int \<times> 'a fr_sys_scheme \<Rightarrow> bool" where
  "did s cs r \<longleftrightarrow> halted (snd r) = halted s \<and> fr (snd r) = fr s
     \<and> (\<exists>ds. prefix ds cs \<and> reset_calls (trace (snd r)) = reset_calls (trace s) @ ds \<and> (fst r = 0 \<longrightarrow> ds = cs))"

lemma did_quiet: "no_reset s (snd r) \<Longrightarrow> did s [] r"
  by (simp add: did_def no_reset_def)

lemma did_call: "is_reset_call e \<Longrightarrow> did s [e] (call E e s)"
  by (simp add: did_def call_def Let_def)

lemma did_and_then:
  assumes "did s cs r" "\<And>t. did t ds (f t)"
  shows "did s (cs @ ds) (and_then r f)"
proof (cases r)
  case (Pair err t)
  show ?thesis
  proof (cases "err = 0")
    case True
    have d: "did t ds (f t)" by (rule assms(2))
    have "reset_calls (trace t) = reset_calls (trace s) @ cs" "halted t = halted s" "fr t = fr s"
      using assms(1) True by (auto simp: did_def Pair)
    with d True show ?thesis by (auto simp: did_def and_then_def Pair)
  next
    case False
    with assms(1) show ?thesis by (auto simp: did_def and_then_def Pair intro: prefix_prefix)
  qed
qed

lemma did_steps: "did s (expected_reset_calls ready) (factory_reset_steps E ready adv_ready s)"
proof -
  have a: "did s [] (if adv_ready then app_fp_adv_disable E s else (0, s))"
    by (simp add: did_quiet nr.R_disable)
  have b: "did t (if ready then [FP Fp_disable] else []) (if ready then call E (FP Fp_disable) t else (0, t))" for t :: "'a fr_sys_scheme"
    by (simp add: did_call did_quiet)
  have c: "did t [FP Fp_factory_reset] (call E (FP Fp_factory_reset) t)" for t :: "'a fr_sys_scheme"
    by (simp add: did_call)
  have d: "did t (if ready then [FP Fp_enable] else []) (if ready then call E (FP Fp_enable) t else (0, t))" for t :: "'a fr_sys_scheme"
    by (simp add: did_call did_quiet)
  have e: "did t [] (if adv_ready then app_fp_adv_enable E t else (0, t))" for t :: "'a fr_sys_scheme"
    by (simp add: did_quiet nr.R_enable)
  show ?thesis
    using did_and_then [OF did_and_then [OF did_and_then [OF did_and_then [OF a b] c] d] e]
    by (simp add: factory_reset_steps_def expected_reset_calls_def split: if_splits)
qed

lemma perform_spec:
  fixes E
  assumes "list_all reset_participant C" and "factory_reset_state (fr s) \<noteq> APP_FACTORY_RESET_STATE_IN_PROGRESS"
    and "halted s = None"
  defines "t \<equiv> factory_reset_perform E C s"
    and "ready \<equiv> result E (invoke (FP Fp_is_ready) s) \<noteq> 0"
  shows "(halted t = Some Rebooted \<and> factory_reset_state (fr t) = APP_FACTORY_RESET_STATE_IDLE
      \<and> reset_calls (trace t) = reset_calls (trace s) @ expected_reset_calls ready)
    \<or> (halted t = Some Panicked
      \<and> (\<exists>ds. prefix ds (expected_reset_calls ready) \<and> reset_calls (trace t) = reset_calls (trace s) @ ds))"
proof -
  define s1 where "s1 = invoke (FP Fp_is_ready) s"
  define s2 where "s2 = s1\<lparr>fr := (fr s1)\<lparr>factory_reset_state := APP_FACTORY_RESET_STATE_IN_PROGRESS\<rparr>\<rparr>"
  define s3 where "s3 = factory_reset_prepare C s2"
  obtain err s4 where p: "factory_reset_steps E ready (app_fp_adv_is_ready s1) s3 = (err, s4)" by fastforce
  define s5 where "s5 = factory_reset_executed C s4"
  have q3: "no_reset s2 s3" unfolding s3_def by (rule participants_quiet [OF assms(1)])
  have q5: "no_reset s4 s5" unfolding s5_def by (rule participants_quiet [OF assms(1)])
  have d: "did s3 (expected_reset_calls ready) (err, s4)" using did_steps [of s3 ready E] by (metis p)
  have c2: "reset_calls (trace s2) = reset_calls (trace s)" "halted s2 = None" using assms(3) by (simp_all add: s2_def s1_def)
  have t: "t = (if err \<noteq> 0 then k_panic (check ''false'' False s4)
      else sys_reboot (s5\<lparr>fr := (fr s5)\<lparr>factory_reset_state := APP_FACTORY_RESET_STATE_IDLE\<rparr>\<rparr>))"
    using assms(2) p
    by (simp add: t_def factory_reset_perform_def Let_def ready_def s1_def [symmetric] s2_def [symmetric, simplified]
        s3_def [symmetric] s5_def) (simp add: s1_def)
  show ?thesis
    using d q3 q5 c2 by (auto simp: t did_def no_reset_def check_def)
qed

section \<open>Properties\<close>

definition fr_init_state :: fr_sys where
  "fr_init_state = fp_sys.extend fp_init_state \<lparr>fr = fr_st_init\<rparr>"

text \<open>
  C39: The pending reset.  After any sequence of schedule and cancel calls and UI requests,
  the module is pending exactly when the kernel's timer runs, and that timer runs with the
  delay of the first schedule call since the last cancellation; a UI request alone never
  starts it.
\<close>

theorem factory_reset_pending:
  "let x = run fr_timed_do es (fr_init_state, None); d = run fr_abs_step es None
   in snd x = d \<and> factory_reset_state (fr (fst x)) =
        (if d = None then APP_FACTORY_RESET_STATE_IDLE else APP_FACTORY_RESET_STATE_PENDING)"
proof -
  have i: "fr_inv (fr_init_state, None)"
    by (simp add: fr_inv_def fr_init_state_def fp_sys.extend_def fr_st_init_def)
  have ok: "run_ok (\<lambda>_ _. True) fr_timed_do es (fr_init_state, None)" by (rule run_ok_True)
  show ?thesis
    using frm.run_inv [OF i ok] frm.run_abs [OF i ok]
    by (cases "run fr_timed_do es (fr_init_state, None)") (simp add: fr_inv_def Let_def)
qed

text \<open>
  C16: The reset.  Performed from a state in which none is in progress, with participants
  that keep to their contract, the factory reset never returns to normal operation: it ends
  in a reboot or a panic.  Before the reboot the library has been taken down when it was
  ready, its data erased, and brought up again, in this order, and the module is idle;
  before a panic it has made only an initial part of these calls.
\<close>

theorem factory_reset_halts:
  fixes E
  assumes "list_all reset_participant C" and "factory_reset_state (fr s) \<noteq> APP_FACTORY_RESET_STATE_IN_PROGRESS"
    and "halted s = None"
  defines "t \<equiv> factory_reset_perform E C s"
    and "ready \<equiv> result E (invoke (FP Fp_is_ready) s) \<noteq> 0"
  shows "(halted t = Some Rebooted \<and> factory_reset_state (fr t) = APP_FACTORY_RESET_STATE_IDLE
      \<and> reset_calls (trace t) = reset_calls (trace s) @ expected_reset_calls ready)
    \<or> (halted t = Some Panicked
      \<and> (\<exists>ds. prefix ds (expected_reset_calls ready) \<and> reset_calls (trace t) = reset_calls (trace s) @ ds))"
  unfolding t_def ready_def by (rule perform_spec [OF assms(1-3)])

theorem factory_reset_halts_witness:
  "halted (factory_reset_perform (const_env 0) [] fr_init_state) \<noteq> None"
  using factory_reset_halts [of "[]" fr_init_state "const_env 0"]
  by (auto simp: fr_init_state_def fp_sys.extend_def fr_st_init_def fp_init_state_def bat_sys.extend_def bat_init_state_def
      dev_sys.extend_def ring_sys.extend_def set_DynamicData_def)

end
