(* ===== verification/App.thy ===== *)
theory App
  imports FactoryReset
begin

text \<open>
  src/main.c: the application.  Its state, the policy for GATT accesses, the callbacks of the
  Fast Pair and FMDN libraries, the requests of the user interface, and the boot sequence.
\<close>

section \<open>State\<close>

datatype factory_reset_trigger =
  FACTORY_RESET_TRIGGER_NONE | FACTORY_RESET_TRIGGER_KEY_STATE_MISMATCH | FACTORY_RESET_TRIGGER_PROVISIONING_TIMEOUT

record app_st =
  fmdn_provisioned :: bool
  fmdn_recovery_mode :: bool
  fmdn_id_mode :: bool
  fp_account_key_present :: bool
  fp_adv_ui_request :: bool
  fmdn_enable_flag :: bool
  fp_adv_clock_sync_done :: bool
  fp_adv_clock_sync_enabled :: bool
  fmdn_conn_auth_bm :: u32
  reset_trigger :: factory_reset_trigger

record app_sys = fr_sys +
  app :: app_st

definition app_st_init :: app_st where
  "app_st_init = \<lparr>fmdn_provisioned = False, fmdn_recovery_mode = False, fmdn_id_mode = False,
     fp_account_key_present = False, fp_adv_ui_request = False, fmdn_enable_flag = False,
     fp_adv_clock_sync_done = False, fp_adv_clock_sync_enabled = False, fmdn_conn_auth_bm = 0,
     reset_trigger = FACTORY_RESET_TRIGGER_NONE\<rparr>"

abbreviation upd_app :: "(app_st \<Rightarrow> app_st) \<Rightarrow> 'a app_sys_scheme \<Rightarrow> 'a app_sys_scheme" where
  "upd_app f s \<equiv> s\<lparr>app := f (app s)\<rparr>"

definition INIT_SEM_TIMEOUT :: nat where "INIT_SEM_TIMEOUT = 60"
definition FACTORY_RESET_DELAY :: nat where "FACTORY_RESET_DELAY = 3"
definition FMDN_PROVISIONING_TIMEOUT :: nat where "FMDN_PROVISIONING_TIMEOUT = 5"
definition DISC_ADV_TIMEOUT :: nat where "DISC_ADV_TIMEOUT = 2"
definition FMDN_ADV_INTERVAL :: nat where "FMDN_ADV_INTERVAL = 0x0C80"
definition APP_BT_ID :: nat where "APP_BT_ID = 1"

section \<open>Advertising time-out, provisioning state, factory reset\<close>

definition stop_discoverable_adv :: "env \<Rightarrow> 'a app_sys_scheme \<Rightarrow> 'a app_sys_scheme" where
  "stop_discoverable_adv E s =
     app_fp_adv_request E fp_adv_trigger_ui False (upd_app (fp_adv_ui_request_update (\<lambda>_. False)) s)"

text \<open>The two assertions at its start are compiled out together with the calls they make.\<close>

definition fmdn_provisioning_state_set :: "env \<Rightarrow> bool \<Rightarrow> 'a app_sys_scheme \<Rightarrow> 'a app_sys_scheme" where
  "fmdn_provisioning_state_set E provisioned s =
     (if fmdn_provisioned (app s) = provisioned then s
      else
        let s1 = app_ui_state_change_indicate E APP_UI_STATE_PROVISIONED provisioned s;
            s2 = s1\<lparr>app := (app s1)\<lparr>fmdn_provisioned := provisioned, fmdn_enable_flag := provisioned\<rparr>\<rparr>
        in invoke (K (Work_cancel W_stop_discoverable)) s2)"

definition fmdn_factory_reset_prepare :: "env \<Rightarrow> 'a app_sys_scheme \<Rightarrow> 'a app_sys_scheme" where
  "fmdn_factory_reset_prepare E s =
     (let s1 = app_fp_adv_request E fp_adv_trigger_fmdn_provisioning False s;
          s2 = app_fp_adv_request E fp_adv_trigger_clock_sync False s1;
          s3 = s2\<lparr>app := (app s2)\<lparr>fp_adv_clock_sync_enabled := False, fp_adv_ui_request := False\<rparr>\<rparr>
      in app_fp_adv_request E fp_adv_trigger_ui False s3)"

definition fmdn_factory_reset_executed :: "env \<Rightarrow> 'a app_sys_scheme \<Rightarrow> 'a app_sys_scheme" where
  "fmdn_factory_reset_executed E s =
     (let s1 = s\<lparr>app := (app s)\<lparr>reset_trigger := FACTORY_RESET_TRIGGER_NONE\<rparr>\<rparr>;
          s2 = invoke (FP Fp_is_ready) s1;
          s3 = (if result E s2 \<noteq> 0
                then let s' = invoke (FP Fp_has_account_key) s2
                     in s'\<lparr>app := (app s')\<lparr>fp_account_key_present := result E s' \<noteq> 0\<rparr>\<rparr>
                else s2);
          s4 = check ''!fp_account_key_present'' (\<not> fp_account_key_present (app s3)) s3
      in check ''!fmdn_provisioned'' (\<not> fmdn_provisioned (app s4)) s4)"

text \<open>
  The registered callbacks: main.c and dfu.c use the same name, so the link order
  (CMakeLists.txt) decides.
\<close>

definition factory_reset_cbs :: "env \<Rightarrow> 'a app_sys_scheme app_factory_reset_callbacks list" where
  "factory_reset_cbs E =
     [\<lparr>cb_prepare = Some (fmdn_factory_reset_prepare E), cb_executed = Some (fmdn_factory_reset_executed E)\<rparr>,
      \<lparr>cb_prepare = Some (dfu_factory_reset_prepare E), cb_executed = None\<rparr>]"

definition fmdn_factory_reset_schedule :: "factory_reset_trigger \<Rightarrow> nat \<Rightarrow> 'a app_sys_scheme \<Rightarrow> 'a app_sys_scheme" where
  "fmdn_factory_reset_schedule trigger delay s =
     (let s1 = app_factory_reset_schedule delay s
      in s1\<lparr>app := (app s1)\<lparr>reset_trigger := trigger\<rparr>\<rparr>)"

definition fmdn_factory_reset_cancel :: "'a app_sys_scheme \<Rightarrow> 'a app_sys_scheme" where
  "fmdn_factory_reset_cancel s =
     (let s1 = app_factory_reset_cancel s
      in s1\<lparr>app := (app s1)\<lparr>reset_trigger := FACTORY_RESET_TRIGGER_NONE\<rparr>\<rparr>)"

section \<open>GATT access\<close>

datatype bt_security_err = BT_SECURITY_ERR_SUCCESS | BT_SECURITY_ERR_PAIR_NOT_ALLOWED | BT_SECURITY_ERR_OTHER nat

definition pairing_accept :: "conn \<Rightarrow> bt_security_err" where
  "pairing_accept conn = BT_SECURITY_ERR_PAIR_NOT_ALLOWED"

definition conn_index :: "env \<Rightarrow> conn \<Rightarrow> 'a app_sys_scheme \<Rightarrow> nat \<times> 'a app_sys_scheme" where
  "conn_index E conn s =
     (let s1 = invoke (BT (Conn_index conn)) s;
          index = unat (word_of_int (result E s1) :: u8)
      in (index, check ''index'' (index < 32) s1))"

definition fmdn_conn_auth_bm_conn_status_set :: "env \<Rightarrow> conn \<Rightarrow> bool \<Rightarrow> 'a app_sys_scheme \<Rightarrow> 'a app_sys_scheme" where
  "fmdn_conn_auth_bm_conn_status_set E conn auth_flag s =
     (let (index, s1) = conn_index E conn s
      in s1\<lparr>app := (app s1)\<lparr>fmdn_conn_auth_bm := WRITE_BIT (fmdn_conn_auth_bm (app s1)) index auth_flag\<rparr>\<rparr>)"

definition fmdn_conn_auth_bm_conn_status_get :: "env \<Rightarrow> conn \<Rightarrow> 'a app_sys_scheme \<Rightarrow> bool \<times> 'a app_sys_scheme" where
  "fmdn_conn_auth_bm_conn_status_get E conn s =
     (let (index, s1) = conn_index E conn s
      in (TEST_BIT (fmdn_conn_auth_bm (app s1)) index, s1))"

definition uuid_block_list :: "bt_uuid list" where
  "uuid_block_list = [BT_UUID_DIS_FIRMWARE_REVISION, BT_UUID_GAP_DEVICE_NAME]"

definition identifying_info_allow :: "env \<Rightarrow> conn \<Rightarrow> bt_uuid \<Rightarrow> 'a app_sys_scheme \<Rightarrow> bool \<times> 'a app_sys_scheme" where
  "identifying_info_allow E conn uuid s =
     (if \<not> fmdn_provisioned (app s) then (True, s)
      else
        let (auth, s1) = fmdn_conn_auth_bm_conn_status_get E conn s
        in if auth then (True, s1)
           else if fmdn_id_mode (app s1) then (True, s1)
           else
             let uuid_match = list_ex (\<lambda>u. uuid = u) uuid_block_list
             in if \<not> uuid_match then (True, s1) else (False, s1))"

definition gatt_authorize :: "env \<Rightarrow> conn \<Rightarrow> bt_uuid \<Rightarrow> 'a app_sys_scheme \<Rightarrow> bool \<times> 'a app_sys_scheme" where
  "gatt_authorize E conn uuid s =
     (let (authorized, s1) = app_dfu_bt_gatt_operation_allow uuid s
      in if authorized then identifying_info_allow E conn uuid s1 else (False, s1))"

definition security_changed :: "env \<Rightarrow> conn \<Rightarrow> bt_security \<Rightarrow> bt_security_err \<Rightarrow> 'a app_sys_scheme \<Rightarrow> 'a app_sys_scheme" where
  "security_changed E conn level err s =
     (if err \<noteq> BT_SECURITY_ERR_SUCCESS \<or> level < BT_SECURITY_L2 then s
      else fmdn_conn_auth_bm_conn_status_set E conn True s)"

definition app_disconnected :: "env \<Rightarrow> conn \<Rightarrow> u8 \<Rightarrow> 'a app_sys_scheme \<Rightarrow> 'a app_sys_scheme" where
  "app_disconnected E conn reason s = fmdn_conn_auth_bm_conn_status_set E conn False s"

definition fmdn_conn_authenticated :: "env \<Rightarrow> conn \<Rightarrow> 'a app_sys_scheme \<Rightarrow> 'a app_sys_scheme" where
  "fmdn_conn_authenticated E conn s = fmdn_conn_auth_bm_conn_status_set E conn True s"

section \<open>Account key, clock and provisioning callbacks\<close>

definition fp_account_key_written :: "env \<Rightarrow> conn \<Rightarrow> 'a app_sys_scheme \<Rightarrow> 'a app_sys_scheme" where
  "fp_account_key_written E conn s =
     (let s1 = (if \<not> fp_account_key_present (app s)
                then fmdn_factory_reset_schedule FACTORY_RESET_TRIGGER_PROVISIONING_TIMEOUT
                       (FMDN_PROVISIONING_TIMEOUT * 60000)
                       (app_fp_adv_request E fp_adv_trigger_fmdn_provisioning True s)
                else s);
          s2 = invoke (FP Fp_has_account_key) s1
      in s2\<lparr>app := (app s2)\<lparr>fp_account_key_present := result E s2 \<noteq> 0\<rparr>\<rparr>)"

definition fmdn_clock_synced :: "env \<Rightarrow> 'a app_sys_scheme \<Rightarrow> 'a app_sys_scheme" where
  "fmdn_clock_synced E s =
     (if fmdn_provisioned (app s) then
        let s1 = app_fp_adv_request E fp_adv_trigger_clock_sync False s
        in s1\<lparr>app := (app s1)\<lparr>fp_adv_clock_sync_enabled := False, fp_adv_clock_sync_done := True\<rparr>\<rparr>
      else s)"

definition fmdn_provisioning_state_changed :: "env \<Rightarrow> bool \<Rightarrow> 'a app_sys_scheme \<Rightarrow> 'a app_sys_scheme" where
  "fmdn_provisioning_state_changed E provisioned s =
     (let s1 = fmdn_provisioning_state_set E provisioned s
      in if provisioned then
           let s2 = (if reset_trigger (app s1) = FACTORY_RESET_TRIGGER_PROVISIONING_TIMEOUT
                     then fmdn_factory_reset_cancel s1 else s1);
               s3 = app_fp_adv_request E fp_adv_trigger_fmdn_provisioning False s2;
               s4 = s3\<lparr>app := (app s3)\<lparr>fp_adv_ui_request := False\<rparr>\<rparr>;
               s5 = app_fp_adv_request E fp_adv_trigger_ui False s4
           in snd (ble_adv_custom_start E s5)
         else
           let s2 = fmdn_factory_reset_schedule FACTORY_RESET_TRIGGER_KEY_STATE_MISMATCH (FACTORY_RESET_DELAY * 1000) s1
           in app_fp_adv_request E fp_adv_trigger_clock_sync False s2)"

definition fmdn_provisioning_state_init :: "env \<Rightarrow> 'a app_sys_scheme \<Rightarrow> 'a app_sys_scheme" where
  "fmdn_provisioning_state_init E s =
     (let s1 = invoke (FP Fmdn_is_provisioned) s;
          provisioned = (result E s1 \<noteq> 0);
          s2 = fmdn_provisioning_state_set E provisioned s1;
          s3 = invoke (FP Fp_has_account_key) s2;
          s4 = s3\<lparr>app := (app s3)\<lparr>fp_account_key_present := result E s3 \<noteq> 0\<rparr>\<rparr>
      in if fp_account_key_present (app s4) \<noteq> provisioned
         then fmdn_factory_reset_schedule FACTORY_RESET_TRIGGER_KEY_STATE_MISMATCH 0 s4
         else if provisioned then snd (ble_adv_custom_start E s4) else s4)"

section \<open>Modes\<close>

definition fmdn_recovery_mode_exited :: "env \<Rightarrow> 'a app_sys_scheme \<Rightarrow> 'a app_sys_scheme" where
  "fmdn_recovery_mode_exited E s =
     app_ui_state_change_indicate E APP_UI_STATE_RECOVERY_MODE False (upd_app (fmdn_recovery_mode_update (\<lambda>_. False)) s)"

definition fmdn_id_mode_exited :: "env \<Rightarrow> 'a app_sys_scheme \<Rightarrow> 'a app_sys_scheme" where
  "fmdn_id_mode_exited E s =
     app_ui_state_change_indicate E APP_UI_STATE_ID_MODE False (upd_app (fmdn_id_mode_update (\<lambda>_. False)) s)"

fun fmdn_read_mode_exited :: "env \<Rightarrow> fmdn_read_mode \<Rightarrow> 'a app_sys_scheme \<Rightarrow> 'a app_sys_scheme" where
  "fmdn_read_mode_exited E READ_MODE_FMDN_RECOVERY s = fmdn_recovery_mode_exited E s"
| "fmdn_read_mode_exited E READ_MODE_DULT_ID s = fmdn_id_mode_exited E s"

definition fmdn_recovery_mode_action_handle :: "env \<Rightarrow> 'a app_sys_scheme \<Rightarrow> 'a app_sys_scheme" where
  "fmdn_recovery_mode_action_handle E s =
     (if \<not> fmdn_provisioned (app s) then s
      else
        let s1 = invoke (FP (Fmdn_read_mode_enter READ_MODE_FMDN_RECOVERY)) s
        in if result E s1 \<noteq> 0 then s1
           else app_ui_state_change_indicate E APP_UI_STATE_RECOVERY_MODE True
                  (upd_app (fmdn_recovery_mode_update (\<lambda>_. True)) s1))"

definition fmdn_id_mode_action_handle :: "env \<Rightarrow> 'a app_sys_scheme \<Rightarrow> 'a app_sys_scheme" where
  "fmdn_id_mode_action_handle E s =
     (if \<not> fmdn_provisioned (app s) then s
      else
        let s1 = invoke (FP (Fmdn_read_mode_enter READ_MODE_DULT_ID)) s
        in if result E s1 \<noteq> 0 then s1
           else app_ui_state_change_indicate E APP_UI_STATE_ID_MODE True
                  (upd_app (fmdn_id_mode_update (\<lambda>_. True)) s1))"

text \<open>
  The local variable \<open>err\<close> is not initialised; its value when no call assigns it is the
  parameter \<open>junk\<close>.
\<close>

definition fmdn_advt_mode_change_handle :: "env \<Rightarrow> int \<Rightarrow> 'a app_sys_scheme \<Rightarrow> 'a app_sys_scheme" where
  "fmdn_advt_mode_change_handle E junk s =
     (if \<not> fmdn_provisioned (app s) then s
      else
        let s1 = invoke (FP Fp_is_ready) s;
            fast_pair_is_ready = (result E s1 \<noteq> 0);
            s2 = s1\<lparr>app := (app s1)\<lparr>fmdn_enable_flag := \<not> fmdn_enable_flag (app s1)\<rparr>\<rparr>;
            finish = (\<lambda>err s. if err \<noteq> 0 then k_panic (check ''false'' False s) else s)
        in if \<not> fmdn_enable_flag (app s2) then
             (let (err, s3) = (if fast_pair_is_ready then call E (FP Fp_disable) s2 else (junk, s2))
              in if fast_pair_is_ready \<and> err \<noteq> 0 then finish err s3
                 else finish err (app_fp_adv_request E fp_adv_trigger_clock_sync False s3))
           else
             (let (err, s3) = (if \<not> fast_pair_is_ready then call E (FP Fp_enable) s2 else (junk, s2))
              in finish err s3))"

definition fmdn_mode_request_handle :: "env \<Rightarrow> int \<Rightarrow> app_ui_request \<Rightarrow> 'a app_sys_scheme \<Rightarrow> 'a app_sys_scheme" where
  "fmdn_mode_request_handle E junk request s =
     (if request = APP_UI_REQUEST_RECOVERY_MODE_ENTER then fmdn_recovery_mode_action_handle E s
      else if request = APP_UI_REQUEST_ID_MODE_ENTER then fmdn_id_mode_action_handle E s
      else if request = APP_UI_REQUEST_FMDN_ADV_MODE_CHANGE then fmdn_advt_mode_change_handle E junk s
      else if request = APP_UI_REQUEST_FP_ADV_MODE_CHANGE then
        (if \<not> fmdn_provisioned (app s) then
           let s1 = s\<lparr>app := (app s)\<lparr>fp_adv_ui_request := \<not> fp_adv_ui_request (app s)\<rparr>\<rparr>;
               s2 = app_fp_adv_request E fp_adv_trigger_ui (fp_adv_ui_request (app s1)) s1
           in if fp_adv_ui_request (app s2)
              then invoke (K (Work_schedule W_stop_discoverable (DISC_ADV_TIMEOUT * 60000))) s2
              else invoke (K (Work_cancel W_stop_discoverable)) s2
         else s)
      else s)"

text \<open>The request listeners, in the order of their names in the linker section.\<close>

definition request_listeners :: "env \<Rightarrow> int \<Rightarrow> (app_ui_request \<Rightarrow> 'a app_sys_scheme \<Rightarrow> 'a app_sys_scheme) list" where
  "request_listeners E junk = [dfu_mode_request_handle E, factory_reset_request_handle,
     fmdn_mode_request_handle E junk, ring_request_handle E]"

section \<open>Boot\<close>

definition fast_pair_prepare :: "env \<Rightarrow> 'a app_sys_scheme \<Rightarrow> int \<times> 'a app_sys_scheme" where
  "fast_pair_prepare E s =
     and_then (and_then (app_fp_adv_init E s)
       (app_fp_adv_id_set (of_nat APP_BT_ID)))
       (app_fp_adv_info_cb_register True)"

text \<open>\<open>CONFIG_BT_FAST_PAIR_FMDN_DULT_MOTION_DETECTOR\<close> is not set.\<close>

definition CONFIG_BT_FAST_PAIR_FMDN_DULT_MOTION_DETECTOR :: bool where
  "CONFIG_BT_FAST_PAIR_FMDN_DULT_MOTION_DETECTOR = False"

definition fmdn_prepare :: "env \<Rightarrow> 'a app_sys_scheme \<Rightarrow> int \<times> 'a app_sys_scheme" where
  "fmdn_prepare E s =
     and_then (and_then (and_then (and_then (and_then
       (call E (FP (Fmdn_id_set APP_BT_ID)) s)
       (call E (FP (Fmdn_adv_param_set FMDN_ADV_INTERVAL FMDN_ADV_INTERVAL))))
       (call E (FP Fmdn_info_cb_register)))
       (call E (FP Fmdn_read_mode_cb_register)))
       (\<lambda>s. if CONFIG_BT_FAST_PAIR_FMDN_DULT_MOTION_DETECTOR then app_motion_detector_init E s else (0, s)))
       (call E (FP Fp_info_cb_register))"

definition vision_frame_prepare :: "env \<Rightarrow> 'a app_sys_scheme \<Rightarrow> int \<times> 'a app_sys_scheme" where
  "vision_frame_prepare E s = and_then (ble_adv_custom_init E s) ble_custom_service_init"

text \<open>The loop creates identities until it gets the application's, or an error; it may not end.\<close>

partial_function (option) app_id_create_loop :: "env \<Rightarrow> 'a io_scheme \<Rightarrow> (int \<times> 'a io_scheme) option" where
  "app_id_create_loop E s =
     (let s1 = invoke (BT Id_create) s; r = result E s1
      in if r < 0 then Some (r, s1)
         else if r \<noteq> int APP_BT_ID then app_id_create_loop E s1
         else Some (0, s1))"

definition app_id_create :: "env \<Rightarrow> 'a io_scheme \<Rightarrow> (int \<times> 'a io_scheme) option" where
  "app_id_create E s =
     (let s1 = invoke (BT Id_get) s; count = outval E s1
      in if int APP_BT_ID < count then Some (0, s1) else app_id_create_loop E s1)"

text \<open>
  Steps that run one after the other, until one returns an error, does not return, or
  halts the processor.
\<close>

fun run_steps :: "('a io_scheme \<Rightarrow> (int \<times> 'a io_scheme) option) list \<Rightarrow> 'a io_scheme \<Rightarrow> (int \<times> 'a io_scheme) option" where
  "run_steps [] s = Some (0, s)"
| "run_steps (f # fs) s = (case f s of None \<Rightarrow> None
     | Some (err, s1) \<Rightarrow> if err \<noteq> 0 \<or> halted s1 \<noteq> None then Some (err, s1) else run_steps fs s1)"

text \<open>The steps of \<open>init_work_handle\<close> whose error ends it, in two parts.\<close>

definition init_steps_platform :: "env \<Rightarrow> ('a app_sys_scheme \<Rightarrow> (int \<times> 'a app_sys_scheme) option) list" where
  "init_steps_platform E =
     [\<lambda>s. Some (app_ui_init E s),
      \<lambda>s. Some (call E (BT Conn_auth_cb_register) s),
      \<lambda>s. Some (call E (BT Gatt_authorization_cb_register) s),
      \<lambda>s. Some (call E (BT Bt_enable) s),
      \<lambda>s. Some (call E (BT Settings_load) s),
      app_id_create E,
      \<lambda>s. Some (app_battery_init E s),
      \<lambda>s. Some (app_ring_init E s),
      \<lambda>s. Some (app_nvs_handler_init E s),
      \<lambda>s. Some (app_storage_verify_and_load E s)]"

definition init_steps_app :: "env \<Rightarrow> ('a app_sys_scheme \<Rightarrow> (int \<times> 'a app_sys_scheme) option) list" where
  "init_steps_app E =
     [\<lambda>s. Some (fast_pair_prepare E s),
      \<lambda>s. Some (fmdn_prepare E s),
      \<lambda>s. Some (vision_frame_prepare E s),
      \<lambda>s. Some (app_factory_reset_init E (factory_reset_cbs E) s),
      \<lambda>s. Some (call E (FP Fp_enable) s),
      \<lambda>s. Some (app_fp_adv_enable E s)]"

text \<open>What follows when all steps succeeded (the accelerometer is compiled out).\<close>

definition init_finish :: "env \<Rightarrow> 'a app_sys_scheme \<Rightarrow> 'a app_sys_scheme" where
  "init_finish E s =
     (let s1 = fmdn_provisioning_state_init E s;
          s2 = app_time_activities_init E s1;
          s3 = app_uart_boot_sequence_start E s2;
          (err, s4) = app_watchdog_init E s3;
          s5 = (if err = 0 then app_watchdog_start_feeding s4 else s4)
      in invoke (K Sem_give) s5)"

definition init_work_handle :: "env \<Rightarrow> 'a app_sys_scheme \<Rightarrow> 'a app_sys_scheme option" where
  "init_work_handle E s =
     (case run_steps (init_steps_platform E @ init_steps_app E) s of None \<Rightarrow> None
      | Some (err, s1) \<Rightarrow> Some (if err \<noteq> 0 \<or> halted s1 \<noteq> None then s1 else init_finish E s1))"

text \<open>\<open>main\<close>; \<open>w\<close> is what the work queue does while it waits for the semaphore.\<close>

definition main :: "env \<Rightarrow> ('a app_sys_scheme \<Rightarrow> 'a app_sys_scheme) \<Rightarrow> 'a app_sys_scheme \<Rightarrow> int \<times> 'a app_sys_scheme" where
  "main E w s =
     (let s1 = invoke (K (Work_submit W_init)) s;
          s2 = invoke (K (Sem_take (INIT_SEM_TIMEOUT * 1000))) (w s1);
          err = result E s2
      in if err \<noteq> 0 then (0, k_panic s2)
         else (0, app_ui_state_change_indicate E APP_UI_STATE_APP_RUNNING True s2))"

end
