(* ===== verification/Firmware.thy ===== *)
theory Firmware
  imports App
begin

text \<open>
  The application and the modules it drives as one machine: button events broadcast to the
  request listeners, callbacks of the Bluetooth host and of the Fast Pair / FMDN library, and
  work handlers, in any order.  The invariant ties the UI states and the advertising requests
  to the application's flags; the GATT policy, the provisioning deadline and the boot
  sequence are stated over this machine.
\<close>

section \<open>Frame\<close>

lemma app_invoke [simp]: "app (invoke e s) = app s"
  by (simp add: invoke_def)

lemma app_lock [simp]: "app (lock m s) = app s" "app (unlock m s) = app s" "fp (lock m s) = fp s" "fp (unlock m s) = fp s"
  "fr (lock m s) = fr s" "fr (unlock m s) = fr s" "ring (lock m s) = ring s" "ring (unlock m s) = ring s"
  by (simp_all add: lock_def unlock_def)

lemma app_check [simp]: "app (check w b s) = app s"
  by (simp add: check_def)

lemma app_indicate [simp]: "app (app_ui_state_change_indicate E st a s) = app s"
  by (simp add: app_ui_state_change_indicate_def app_ui_speaker_off_def Let_def)

lemma check_frame [simp]: "adv (check w b s) = adv s" "dfu (check w b s) = dfu s"
  by (simp_all add: check_def)

text \<open>The timers of the application: the pending factory reset and the end of the advertising.\<close>

fun is_app_timer :: "ev \<Rightarrow> bool" where
  "is_app_timer (K (Work_schedule w ms)) = (w \<in> {W_factory_reset, W_stop_discoverable})"
| "is_app_timer (K (Work_cancel w)) = (w \<in> {W_factory_reset, W_stop_discoverable})"
| "is_app_timer _ = False"

definition app_timers :: "ev list \<Rightarrow> ev list" where
  "app_timers = filter is_app_timer"

lemma app_timers_simps [simp]: "app_timers [] = []" "app_timers (es @ fs) = app_timers es @ app_timers fs"
  "app_timers (e # es) = (if is_app_timer e then e # app_timers es else app_timers es)"
  by (simp_all add: app_timers_def)

text \<open>What the Fast Pair advertising module and the Vision advertiser leave alone.\<close>

definition confined :: "'a app_sys_scheme \<Rightarrow> 'a app_sys_scheme \<Rightarrow> bool" where
  "confined s t \<longleftrightarrow> app t = app s \<and> fr t = fr s \<and> adv t = adv s \<and> dfu t = dfu s \<and> ring t = ring s
     \<and> halted t = halted s \<and> (\<forall>st. st \<noteq> APP_UI_STATE_FP_ADV \<longrightarrow> ui_active t st = ui_active s st)
     \<and> (ui_inv s \<longrightarrow> ui_inv t) \<and> app_timers (trace t) = app_timers (trace s)"

lemma confined_refl [simp]: "confined s s"
  by (simp add: confined_def)

lemma confined_trans: "confined s t \<Longrightarrow> confined t u \<Longrightarrow> confined s u"
  by (simp add: confined_def)

lemma confined_invoke: "confined s t \<Longrightarrow> \<not> buzz_event e \<Longrightarrow> \<not> is_app_timer e \<Longrightarrow> confined s (invoke e t)"
  by (auto simp: confined_def ui_inv_invoke)

lemma ui_inv_fp [simp]: "ui_inv (s\<lparr>fp := f\<rparr>) = ui_inv s"
  by (simp add: ui_inv_def)

lemma fp_event_harmless: "fp_adv_event e \<Longrightarrow> \<not> buzz_event e \<and> \<not> is_app_timer e"
  by (cases e rule: fp_adv_event.cases) auto

interpretation cf: fp_frame confined
proof
  fix s t u :: "'a app_sys_scheme" and e f E b
  show "fp_adv_event e \<Longrightarrow> confined s (invoke e s)" by (simp add: confined_invoke fp_event_harmless)
  show "confined s (s\<lparr>fp := f\<rparr>)" by (simp add: confined_def)
  show "confined s (app_ui_state_change_indicate E APP_UI_STATE_FP_ADV b s)"
    by (simp add: confined_def ui_inv_indicate ui_flags.get_put_other indicate_trace)
qed (auto intro: confined_trans)

lemma confined_expired: "confined s (snd (fp_adv_rpa_expired E s))"
proof -
  define s1 where "s1 = invoke (K Uptime_get) (check ''fp_adv_set'' (fp_adv_set (fp s) \<noteq> None) s)"
  define s4 where "s4 = fp_adv_rpa_timeout_set E (s1\<lparr>fp := (fp s1)\<lparr>fp_uptime := outval E s1\<rparr>\<rparr>)"
  have eq: "snd (fp_adv_rpa_expired E s) = (if fp_adv_mode (fp s4) \<noteq> APP_FP_ADV_MODE_OFF
      then snd (fp_adv_payload_set E (fp_adv_expire_rpa (fp s4)) False s4) else s4)"
    by (simp only: fp_adv_rpa_expired_def Let_def s4_def s1_def snd_conv)
  have "confined s s1" by (simp add: s1_def confined_invoke)
  then have "confined s s4"
    by (simp add: s4_def fp_adv_rpa_timeout_set_def fp_adv_rpa_timeout_calculate_def Let_def)
  then show ?thesis by (simp add: eq)
qed

lemma confined_do: "confined s (fp_do E e s)"
proof (cases e)
  case FE_rpa_expired
  then show ?thesis by (simp add: confined_expired)
next
  case (FE_provisioning p)
  have "confined s (snd (fp_adv_set_rotate E (s\<lparr>fp := (fp s)\<lparr>fa_fmdn_provisioned := p\<rparr>\<rparr>)))" by simp
  then show ?thesis
    by (auto simp: FE_provisioning fp_adv_provisioning_state_changed_def Let_def)
qed (auto simp: fp_adv_connected_def fp_adv_restart_work_handle_def fp_conn_cb_connected_def fp_conn_cb_disconnected_def
    fp_adv_rpa_suspension_work_handle_def fp_adv_rpa_rotation_suspended_set_def fp_adv_account_key_written_def
    app_fp_adv_payload_refresh_def app_fp_adv_id_set_def app_fp_adv_info_cb_register_def app_fp_adv_init_def Let_def
    confined_invoke)

lemmas confined_request = cf.R_request [OF confined_refl]

lemma request_frame [simp]:
  "app (app_fp_adv_request E t b s) = app s" "fr (app_fp_adv_request E t b s) = fr s"
  "adv (app_fp_adv_request E t b s) = adv s" "dfu (app_fp_adv_request E t b s) = dfu s"
  "ring (app_fp_adv_request E t b s) = ring s" "halted (app_fp_adv_request E t b s) = halted s"
  "app_timers (trace (app_fp_adv_request E t b s)) = app_timers (trace s)"
  for s :: "'a app_sys_scheme"
  using confined_request [of s E t b] by (simp_all add: confined_def)

section \<open>The invariant\<close>

text \<open>The UI shows the modes, and the advertising module is consistent unless the processor halted.\<close>

definition core_inv :: "'a app_sys_scheme \<Rightarrow> bool" where
  "core_inv s \<longleftrightarrow> ring_inv s
     \<and> ui_active s APP_UI_STATE_DFU_MODE = dfu_mode (dfu s)
     \<and> ui_active s APP_UI_STATE_PROVISIONED = fmdn_provisioned (app s)
     \<and> ui_active s APP_UI_STATE_RECOVERY_MODE = fmdn_recovery_mode (app s)
     \<and> ui_active s APP_UI_STATE_ID_MODE = fmdn_id_mode (app s)
     \<and> (halted s = None \<longrightarrow> fp_inv s)"

text \<open>The requests of the application for Fast Pair advertising.\<close>

definition req_inv :: "'a app_sys_scheme \<Rightarrow> bool" where
  "req_inv s \<longleftrightarrow> requested (fp s) fp_adv_trigger_ui = fp_adv_ui_request (app s)
     \<and> \<not> requested (fp s) fp_adv_trigger_clock_sync
     \<and> (fmdn_provisioned (app s) \<longrightarrow> \<not> fp_adv_ui_request (app s))"

lemma core_inv_confined:
  assumes "core_inv s" "confined s t" "fp_inv s \<Longrightarrow> fp_inv t"
  shows "core_inv t"
  using assms by (auto simp: core_inv_def confined_def ring_inv_def)

lemma core_inv_request [simp]: "core_inv s \<Longrightarrow> core_inv (app_fp_adv_request E t b s)"
  by (rule core_inv_confined [OF _ confined_request]) (simp_all add: fp_inv_request)

lemma core_inv_fp_do: "core_inv s \<Longrightarrow> fp_ok e s \<Longrightarrow> core_inv (fp_do E e s)"
  by (rule core_inv_confined [OF _ confined_do]) (simp_all add: fp_do_inv)

lemma core_inv_invoke [simp]:
  "core_inv s \<Longrightarrow> \<not> buzz_event e \<Longrightarrow> \<not> is_assert_fail e \<Longrightarrow> core_inv (invoke e s)"
  by (simp add: core_inv_def ring_inv_invoke)

lemma core_inv_lock [simp]: "core_inv s \<Longrightarrow> core_inv (lock m s)" "core_inv s \<Longrightarrow> core_inv (unlock m s)"
  by (simp_all add: lock_def unlock_def)

lemma ring_inv_frame [simp]:
  "ring_inv (s\<lparr>app := a\<rparr>) = ring_inv s" "ring_inv (s\<lparr>fr := f\<rparr>) = ring_inv s" "ring_inv (s\<lparr>adv := v\<rparr>) = ring_inv s"
  "ring_inv (s\<lparr>dfu := d\<rparr>) = ring_inv s"
  by (simp_all add: ring_inv_def ui_inv_def)

lemma fp_inv_other [simp]:
  "fp_inv (s\<lparr>app := a\<rparr>) = fp_inv s" "fp_inv (s\<lparr>fr := f\<rparr>) = fp_inv s" "fp_inv (s\<lparr>adv := v\<rparr>) = fp_inv s"
  "fp_inv (s\<lparr>dfu := d\<rparr>) = fp_inv s" "fp_inv (s\<lparr>ring := r\<rparr>) = fp_inv s"
  by (simp_all add: fp_inv_def shows_state_def)

lemma core_inv_frame [simp]:
  "core_inv (s\<lparr>fr := f\<rparr>) = core_inv s" "core_inv (s\<lparr>adv := v\<rparr>) = core_inv s"
  by (simp_all add: core_inv_def)

lemma core_inv_app [simp]:
  "fmdn_provisioned a = fmdn_provisioned (app s) \<Longrightarrow> fmdn_recovery_mode a = fmdn_recovery_mode (app s) \<Longrightarrow>
   fmdn_id_mode a = fmdn_id_mode (app s) \<Longrightarrow> core_inv (s\<lparr>app := a\<rparr>) = core_inv s"
  by (simp add: core_inv_def)

lemma core_inv_panic: "core_inv s \<Longrightarrow> core_inv (k_panic (check w b s))"
  by (simp add: core_inv_def k_panic_def check_def ring_inv_def ui_inv_def)

text \<open>An indication of a state that the other components do not use.\<close>

lemma fp_inv_indicate [simp]:
  "st \<noteq> APP_UI_STATE_FP_ADV \<Longrightarrow> fp_inv (app_ui_state_change_indicate E st b s) = fp_inv s"
  by (auto simp: fp_inv_def shows_state_def ui_flags.get_put_other app_ui_state_change_indicate_def
      app_ui_speaker_off_def Let_def)

lemma ring_inv_indicate:
  "ring_inv s \<Longrightarrow> st \<notin> {APP_UI_STATE_RINGING, APP_UI_STATE_MOTION_DETECTOR_ACTIVE} \<Longrightarrow>
   ring_inv (app_ui_state_change_indicate E st b s)"
  by (auto simp: ring_inv_def ui_inv_indicate ui_flags.get_put_other)

lemma core_inv_indicate:
  assumes "core_inv s"
  shows "fmdn_recovery_mode a = b \<Longrightarrow> fmdn_provisioned a = fmdn_provisioned (app s) \<Longrightarrow> fmdn_id_mode a = fmdn_id_mode (app s) \<Longrightarrow>
      core_inv (app_ui_state_change_indicate E APP_UI_STATE_RECOVERY_MODE b (s\<lparr>app := a\<rparr>))"
    "fmdn_id_mode a = b \<Longrightarrow> fmdn_provisioned a = fmdn_provisioned (app s) \<Longrightarrow> fmdn_recovery_mode a = fmdn_recovery_mode (app s) \<Longrightarrow>
      core_inv (app_ui_state_change_indicate E APP_UI_STATE_ID_MODE b (s\<lparr>app := a\<rparr>))"
    "fmdn_provisioned a = b \<Longrightarrow> fmdn_id_mode a = fmdn_id_mode (app s) \<Longrightarrow> fmdn_recovery_mode a = fmdn_recovery_mode (app s) \<Longrightarrow>
      core_inv ((app_ui_state_change_indicate E APP_UI_STATE_PROVISIONED b s)\<lparr>app := a\<rparr>)"
    "dfu_mode d = b \<Longrightarrow> core_inv (app_ui_state_change_indicate E APP_UI_STATE_DFU_MODE b (s\<lparr>dfu := d\<rparr>))"
  using assms by (auto simp: core_inv_def ring_inv_indicate ui_flags.get_put_same ui_flags.get_put_other)

section \<open>The operations and the invariant\<close>

lemma vision_start_frame [simp]:
  "app (snd (ble_adv_custom_start E s)) = app s" "fp (snd (ble_adv_custom_start E s)) = fp s"
  "fr (snd (ble_adv_custom_start E s)) = fr s" "halted (snd (ble_adv_custom_start E s)) = halted s"
  "app_timers (trace (snd (ble_adv_custom_start E s))) = app_timers (trace s)"
  for s :: "'a app_sys_scheme"
  by (simp_all add: ble_adv_custom_start_def Let_def split: option.split)

lemma core_inv_start [simp]: "core_inv s \<Longrightarrow> core_inv (snd (ble_adv_custom_start E s))"
  by (simp add: ble_adv_custom_start_def Let_def split: option.split)

lemma schedule_frame [simp]:
  "app (app_factory_reset_schedule d s) = app s" "fp (app_factory_reset_schedule d s) = fp s"
  "halted (app_factory_reset_schedule d s) = halted s"
  "app (app_factory_reset_cancel s) = app s" "fp (app_factory_reset_cancel s) = fp s"
  "halted (app_factory_reset_cancel s) = halted s"
  for s :: "'a app_sys_scheme"
  by (simp_all add: app_factory_reset_schedule_def app_factory_reset_cancel_def Let_def)

lemma core_inv_schedule [simp]:
  "core_inv s \<Longrightarrow> core_inv (app_factory_reset_schedule d s)"
  "core_inv s \<Longrightarrow> core_inv (app_factory_reset_cancel s)"
  by (simp_all add: app_factory_reset_schedule_def app_factory_reset_cancel_def Let_def)

definition app_inv :: "'a app_sys_scheme \<Rightarrow> bool" where
  "app_inv s \<longleftrightarrow> core_inv s \<and> req_inv s"

lemmas schedule_defs = fmdn_factory_reset_schedule_def fmdn_factory_reset_cancel_def

lemma state_set_effect:
  "core_inv s \<Longrightarrow> core_inv (fmdn_provisioning_state_set E p s)"
  "fp (fmdn_provisioning_state_set E p s) = fp s"
  "app (fmdn_provisioning_state_set E p s) = (if fmdn_provisioned (app s) = p then app s
     else (app s)\<lparr>fmdn_provisioned := p, fmdn_enable_flag := p\<rparr>)"
  by (auto simp: fmdn_provisioning_state_set_def Let_def core_inv_indicate)

lemma app_inv_stop_discoverable: "app_inv s \<Longrightarrow> app_inv (stop_discoverable_adv E s)"
  by (simp add: app_inv_def stop_discoverable_adv_def req_inv_def request_effect)

lemma app_inv_provisioning: "app_inv s \<Longrightarrow> app_inv (fmdn_provisioning_state_changed E p s)"
  by (simp add: app_inv_def fmdn_provisioning_state_changed_def schedule_defs Let_def req_inv_def request_effect
      state_set_effect split: if_splits)

lemma app_inv_init: "app_inv s \<Longrightarrow> \<not> fp_adv_ui_request (app s) \<Longrightarrow> app_inv (fmdn_provisioning_state_init E s)"
  by (simp add: app_inv_def fmdn_provisioning_state_init_def schedule_defs Let_def req_inv_def request_effect state_set_effect)

lemma app_inv_exited: "app_inv s \<Longrightarrow> app_inv (fmdn_read_mode_exited E m s)"
  by (cases m) (simp_all add: app_inv_def fmdn_recovery_mode_exited_def fmdn_id_mode_exited_def req_inv_def
      core_inv_indicate)

lemma app_inv_account_key: "app_inv s \<Longrightarrow> app_inv (fp_account_key_written E c s)"
  by (simp add: app_inv_def fp_account_key_written_def schedule_defs Let_def req_inv_def request_effect)

lemma app_inv_clock_synced: "app_inv s \<Longrightarrow> app_inv (fmdn_clock_synced E s)"
  by (simp add: app_inv_def fmdn_clock_synced_def Let_def req_inv_def request_effect)

lemma app_inv_modes:
  "app_inv s \<Longrightarrow> app_inv (fmdn_recovery_mode_action_handle E s)"
  "app_inv s \<Longrightarrow> app_inv (fmdn_id_mode_action_handle E s)"
  by (simp_all add: app_inv_def fmdn_recovery_mode_action_handle_def fmdn_id_mode_action_handle_def Let_def req_inv_def
      core_inv_indicate)

lemma panic_frame [simp]: "app (k_panic s) = app s" "fp (k_panic s) = fp s"
  by (simp_all add: k_panic_def invoke_def)

lemma app_inv_advt_mode: "app_inv s \<Longrightarrow> app_inv (fmdn_advt_mode_change_handle E junk s)"
  by (simp add: app_inv_def fmdn_advt_mode_change_handle_def call_def Let_def req_inv_def request_effect core_inv_panic)

lemma app_inv_mode_request: "app_inv s \<Longrightarrow> app_inv (fmdn_mode_request_handle E junk r s)"
  by (simp add: fmdn_mode_request_handle_def app_inv_modes app_inv_advt_mode)
    (simp add: app_inv_def Let_def req_inv_def request_effect)

text \<open>The other listeners, the ringing and the DFU mode leave the application and the advertising alone.\<close>

lemma ring_update_frame [simp]:
  "app (ring_state_update E p s) = app s" "fp (ring_state_update E p s) = fp s"
  for s :: "'a app_sys_scheme"
  by (simp_all add: ring_state_update_def Let_def)

lemma core_inv_ring_update: "core_inv s \<Longrightarrow> core_inv (ring_state_update E p s)"
  using ring_inv_update [of s E p]
  by (auto simp: core_inv_def ring_state_update_def Let_def ui_flags.get_put_other)

lemma fp_other [simp]: "fp (s\<lparr>ring := r\<rparr>) = fp s" "fp (s\<lparr>dfu := d\<rparr>) = fp s" "fp (s\<lparr>ui := u\<rparr>) = fp s"
  by simp_all

lemma core_inv_ring_src: "core_inv (s\<lparr>ring := (ring s)\<lparr>fmdn_ring_src := src\<rparr>\<rparr>) = core_inv s"
  by (simp add: core_inv_def)

lemma dfu_frame [simp]:
  "app (dfu_mode_change E m s) = app s" "fp (dfu_mode_change E m s) = fp s" "fr (dfu_mode_change E m s) = fr s"
  for s :: "'a app_sys_scheme"
  by (simp_all add: dfu_mode_change_def Let_def)

lemma core_inv_dfu_change: "core_inv s \<Longrightarrow> core_inv (dfu_mode_change E m s)"
  by (simp add: dfu_mode_change_def Let_def core_inv_indicate)

lemma listeners_frame [simp]:
  "app (ring_request_handle E r s) = app s" "fp (ring_request_handle E r s) = fp s"
  "app (dfu_mode_request_handle E r s) = app s" "fp (dfu_mode_request_handle E r s) = fp s"
  "app (factory_reset_request_handle r s) = app s" "fp (factory_reset_request_handle r s) = fp s"
  for s :: "'a app_sys_scheme"
  by (simp_all add: ring_request_handle_def dfu_mode_request_handle_def dfu_mode_action_handle_def
      factory_reset_request_handle_def)

lemma app_inv_same: "core_inv s \<Longrightarrow> core_inv t \<Longrightarrow> app t = app s \<Longrightarrow> fp t = fp s \<Longrightarrow> app_inv t = app_inv s"
  by (simp add: app_inv_def req_inv_def)

lemma app_inv_listeners:
  assumes "app_inv s"
  shows "app_inv (dfu_mode_request_handle E r s)" "app_inv (factory_reset_request_handle r s)"
    "app_inv (ring_request_handle E r s)"
  using assms
  by (simp_all add: app_inv_def req_inv_def)
    (simp_all add: dfu_mode_request_handle_def dfu_mode_action_handle_def core_inv_dfu_change
      factory_reset_request_handle_def ring_request_handle_def core_inv_ring_update)

text \<open>A request listener that keeps the invariant of the whole firmware.\<close>

locale app_listener =
  fixes handler :: "app_ui_request \<Rightarrow> 'a app_sys_scheme \<Rightarrow> 'a app_sys_scheme"
  assumes handler_app: "app_inv s \<Longrightarrow> app_inv (handler request s)"
begin

lemma handler_shows:
  "app_inv s \<Longrightarrow> ui_active (handler r s) APP_UI_STATE_PROVISIONED = fmdn_provisioned (app (handler r s))"
  using handler_app by (auto simp: app_inv_def core_inv_def)

end

interpretation dfu_al: app_listener "dfu_mode_request_handle E" for E
  by unfold_locales (rule app_inv_listeners)

interpretation fr_al: app_listener factory_reset_request_handle
  by unfold_locales (rule app_inv_listeners)

interpretation ring_al: app_listener "ring_request_handle E" for E
  by unfold_locales (rule app_inv_listeners)

interpretation main_al: app_listener "fmdn_mode_request_handle E junk" for E junk
  by unfold_locales (rule app_inv_mode_request)

lemma request_listeners_ok: "list_all app_listener (request_listeners E junk)"
  by (simp add: request_listeners_def dfu_al.app_listener_axioms fr_al.app_listener_axioms
      ring_al.app_listener_axioms main_al.app_listener_axioms)

lemma broadcast_app_inv: "list_all app_listener L \<Longrightarrow> app_inv s \<Longrightarrow> app_inv (app_ui_request_broadcast L r s)"
  by (induction L arbitrary: s) (simp_all add: app_ui_request_broadcast_def app_listener_def)

lemma beeps_frame [simp]:
  "app (speaker_beep_play E n on off s) = app s" "fp (speaker_beep_play E n on off s) = fp s"
  "dfu (speaker_beep_play E n on off s) = dfu s" "ring (speaker_beep_play E n on off s) = ring s"
  "halted (speaker_beep_play E n on off s) = halted s"
  "asserts_hold (trace (speaker_beep_play E n on off s)) = asserts_hold (trace s)"
  for s :: "'a app_sys_scheme"
  by (induction n arbitrary: s) (simp_all add: app_ui_speaker_on_def app_ui_speaker_off_def Let_def)

lemma core_inv_beeps: "core_inv s \<Longrightarrow> core_inv (speaker_beep_play E n on off s)"
  by (auto simp: core_inv_def ring_inv_def ui_inv_beeps fp_inv_def shows_state_def)

lemma core_inv_uptime [simp]:
  "core_inv (s\<lparr>ui := (ui s)\<lparr>prev_uptime := t\<rparr>\<rparr>) = core_inv s"
  "core_inv s \<Longrightarrow> core_inv (s\<lparr>ui := (ui s)\<lparr>btn_idx := -1\<rparr>\<rparr>)"
  by (simp_all add: core_inv_def ring_inv_def ui_inv_def fp_inv_def shows_state_def)

lemma app_inv_ui:
  "app_inv (s\<lparr>ui := (ui s)\<lparr>prev_uptime := t\<rparr>\<rparr>) = app_inv s"
  "app_inv s \<Longrightarrow> app_inv (s\<lparr>ui := (ui s)\<lparr>btn_idx := -1\<rparr>\<rparr>)"
  "app_inv s \<Longrightarrow> app_inv (invoke (K Uptime_get) s)"
  "app_inv s \<Longrightarrow> app_inv (speaker_beep_play E n on off s)"
  by (simp_all add: app_inv_def req_inv_def core_inv_beeps)

lemma app_inv_button:
  assumes "list_all app_listener L" "app_inv s"
  shows "app_inv (btn_handle E L bs ch s)"
proof -
  define u where "u = invoke (K Uptime_get) s"
  have u: "app_inv u" using assms(2) by (simp add: u_def app_inv_ui)
  define w where "w = u\<lparr>ui := (ui u)\<lparr>prev_uptime := outval E u\<rparr>\<rparr>"
  define v where "v = (case release_action (outval E u - prev_uptime (ui u)) of
      Some (req, beeps) \<Rightarrow> app_ui_request_broadcast L req (speaker_beep_play E beeps 100 500 u) | None \<Rightarrow> u)"
  define x where "x = (if prev_uptime (ui s) \<noteq> 0 then v\<lparr>ui := (ui v)\<lparr>prev_uptime := 0\<rparr>\<rparr> else s)"
  have "app_inv w" using u by (simp add: w_def app_inv_ui)
  moreover have "app_inv v" using u assms(1)
    by (auto simp: v_def app_inv_ui intro!: broadcast_app_inv split: option.split)
  moreover have "app_inv x" using \<open>app_inv v\<close> assms(2) by (simp add: x_def app_inv_ui)
  moreover have "btn_handle E L bs ch s = (if ch AND BTN_MULTI_ACTION = 0 then s
      else if bs AND BTN_MULTI_ACTION \<noteq> 0 then
        if ui_active w APP_UI_STATE_RINGING then app_ui_request_broadcast L APP_UI_REQUEST_RINGING_STOP w else w
      else x\<lparr>ui := (ui x)\<lparr>btn_idx := -1\<rparr>\<rparr>)"
    by (simp only: btn_handle_def Let_def u_def w_def v_def x_def split: if_split)
  ultimately show ?thesis using assms by (simp add: broadcast_app_inv app_inv_ui)
qed

section \<open>Authenticated connections\<close>

text \<open>
  Zephyr's \<open>bt_conn_index\<close> gives the index of a connection object, smaller than
  \<open>CONFIG_BT_MAX_CONN\<close> (3).
\<close>

definition conn_indices :: "env \<Rightarrow> (conn \<Rightarrow> nat) \<Rightarrow> bool" where
  "conn_indices E idx \<longleftrightarrow> (\<forall>es c. ret E (es @ [BT (Conn_index c)]) = int (idx c) \<and> idx c < 3)"

definition authenticated :: "'a app_sys_scheme \<Rightarrow> nat set" where
  "authenticated s = {i. i < 32 \<and> TEST_BIT (fmdn_conn_auth_bm (app s)) i}"

lemma conn_index_eq:
  assumes "conn_indices E idx"
  shows "conn_index E c s = (idx c, invoke (BT (Conn_index c)) s)" "idx c < 32"
proof -
  have i: "idx c < 3" and r: "result E (invoke (BT (Conn_index c)) s) = int (idx c)"
    using assms by (simp_all add: conn_indices_def result_def)
  show "idx c < 32" using i by simp
  have "unat (word_of_int (int (idx c)) :: u8) = idx c"
    using i by (simp add: unat_of_nat)
  with i r show "conn_index E c s = (idx c, invoke (BT (Conn_index c)) s)"
    by (simp add: conn_index_def Let_def)
qed

lemma status_set_effect:
  assumes "conn_indices E idx"
  shows "authenticated (fmdn_conn_auth_bm_conn_status_set E c b s) =
      (if b then insert (idx c) (authenticated s) else authenticated s - {idx c})"
    "app_inv s \<Longrightarrow> app_inv (fmdn_conn_auth_bm_conn_status_set E c b s)"
  using conn_index_eq(1) [OF assms, of c s] conn_index_eq(2) [OF assms, of c]
  by (auto simp: fmdn_conn_auth_bm_conn_status_set_def authenticated_def word_flags.get_put
      app_inv_def req_inv_def split: if_splits)

section \<open>The firmware as a machine\<close>

datatype app_ev = AP_button u32 u32 | AP_provisioning bool | AP_init | AP_exited fmdn_read_mode
  | AP_stop_discoverable | AP_account_key conn | AP_clock_synced | AP_authenticated conn
  | AP_security conn bt_security bt_security_err | AP_disconnected conn u8 | AP_access conn bt_uuid
  | AP_dfu_timeout | AP_ring ring_ev | AP_fp fp_ev

fun app_do :: "env \<Rightarrow> int \<Rightarrow> app_ev \<Rightarrow> 'a app_sys_scheme \<Rightarrow> 'a app_sys_scheme" where
  "app_do E junk (AP_button bs ch) s = btn_handle E (request_listeners E junk) bs ch s"
| "app_do E junk (AP_provisioning p) s = fmdn_provisioning_state_changed E p s"
| "app_do E junk AP_init s = fmdn_provisioning_state_init E s"
| "app_do E junk (AP_exited m) s = fmdn_read_mode_exited E m s"
| "app_do E junk AP_stop_discoverable s = stop_discoverable_adv E s"
| "app_do E junk (AP_account_key c) s = fp_account_key_written E c s"
| "app_do E junk AP_clock_synced s = fmdn_clock_synced E s"
| "app_do E junk (AP_authenticated c) s = fmdn_conn_authenticated E c s"
| "app_do E junk (AP_security c l e) s = security_changed E c l e s"
| "app_do E junk (AP_disconnected c r) s = app_disconnected E c r s"
| "app_do E junk (AP_access c u) s = snd (gatt_authorize E c u s)"
| "app_do E junk AP_dfu_timeout s = dfu_mode_timeout_work_handle E s"
| "app_do E junk (AP_ring e) s = ring_do E e s"
| "app_do E junk (AP_fp e) s = fp_do E e s"

text \<open>
  An event reaches a running processor.  The provisioning state is read at boot, before any
  request of the user; the library reports time-outs and motion periods only for what it
  started; only the application requests advertising.
\<close>

fun ring_called :: "ring_ev \<Rightarrow> 'a ring_sys_scheme \<Rightarrow> bool" where
  "ring_called (RE_timeout src) s = (src = fmdn_ring_src (ring s))"
| "ring_called RE_motion_start s = (\<not> motion_detector_active (ring s))"
| "ring_called RE_motion_period s = motion_detector_active (ring s)"
| "ring_called RE_motion_stop s = motion_detector_active (ring s)"
| "ring_called e s = ring_ok e s"

fun is_fp_request :: "fp_ev \<Rightarrow> bool" where
  "is_fp_request (FE_request t b) = True"
| "is_fp_request e = False"

fun app_called :: "app_ev \<Rightarrow> 'a app_sys_scheme \<Rightarrow> bool" where
  "app_called AP_init s = (\<not> fp_adv_ui_request (app s))"
| "app_called (AP_ring e) s = ring_called e s"
| "app_called (AP_fp e) s = (fp_ok e s \<and> \<not> is_fp_request e)"
| "app_called e s = True"

definition app_ok :: "app_ev \<Rightarrow> 'a app_sys_scheme \<Rightarrow> bool" where
  "app_ok e s \<longleftrightarrow> halted s = None \<and> app_called e s"

lemma motion_frame [simp]:
  "app (fmdn_motion_detector_start E s) = app s" "fp (fmdn_motion_detector_start E s) = fp s"
  "app (fmdn_motion_detector_stop E s) = app s" "fp (fmdn_motion_detector_stop E s) = fp s"
  "app (snd (fmdn_motion_detector_period_expired E s)) = app s" "fp (snd (fmdn_motion_detector_period_expired E s)) = fp s"
  for s :: "'a app_sys_scheme"
  by (simp_all add: fmdn_motion_detector_start_def fmdn_motion_detector_stop_def fmdn_motion_detector_period_expired_def Let_def)

lemma ring_do_frame [simp]:
  "app (ring_do E e s) = app s" "fp (ring_do E e s) = fp s" for s :: "'a app_sys_scheme"
  by (cases e; simp add: fmdn_ring_start_request_def fmdn_ring_timeout_expired_def fmdn_ring_stop_request_def
      ring_provisioning_state_changed_def buzzer_beep_handle_def app_ui_speaker_on_def app_ui_speaker_off_def Let_def)+

text \<open>What only concerns the ringing and motion states keeps the rest.\<close>

lemma core_inv_ringing:
  fixes s t :: "'a app_sys_scheme"
  assumes "core_inv s" "ring_inv t" "app t = app s" "fp t = fp s" "dfu t = dfu s" "halted t = halted s"
    and "asserts_hold (trace t) = asserts_hold (trace s)"
    and "\<And>st. st \<notin> {APP_UI_STATE_RINGING, APP_UI_STATE_MOTION_DETECTOR_ACTIVE} \<Longrightarrow> ui_active t st = ui_active s st"
  shows "core_inv t"
  using assms(1-7) assms(8) [of APP_UI_STATE_FP_ADV] assms(8) [of APP_UI_STATE_DFU_MODE] assms(8) [of APP_UI_STATE_PROVISIONED]
    assms(8) [of APP_UI_STATE_RECOVERY_MODE] assms(8) [of APP_UI_STATE_ID_MODE]
  by (simp add: core_inv_def fp_inv_def shows_state_def)

lemma core_inv_motion:
  assumes "core_inv s" "ring_called e s" "e \<in> {RE_motion_start, RE_motion_period, RE_motion_stop, RE_buzzer}"
  shows "core_inv (ring_do E e s)"
proof (rule core_inv_ringing [OF assms(1)])
  have "ring_ok e s" using assms(2) by (cases e) simp_all
  then show "ring_inv (ring_do E e s)"
    using assms(1) by (intro ringm.step_inv) (simp_all add: core_inv_def)
  show "dfu (ring_do E e s) = dfu s" "halted (ring_do E e s) = halted s"
    "asserts_hold (trace (ring_do E e s)) = asserts_hold (trace s)"
    using assms(2,3)
    by (auto simp: fmdn_motion_detector_start_def fmdn_motion_detector_stop_def fmdn_motion_detector_period_expired_def
        buzzer_beep_handle_def app_ui_speaker_on_def app_ui_speaker_off_def Let_def indicate_trace split: if_splits)
  show "ui_active (ring_do E e s) st = ui_active s st" if "st \<notin> {APP_UI_STATE_RINGING, APP_UI_STATE_MOTION_DETECTOR_ACTIVE}" for st
    using assms(3) that
    by (auto simp: fmdn_motion_detector_start_def fmdn_motion_detector_stop_def fmdn_motion_detector_period_expired_def
        buzzer_beep_handle_def app_ui_speaker_on_def app_ui_speaker_off_def Let_def ui_flags.get_put_other split: if_splits)
qed simp_all

lemma core_inv_ring_do:
  assumes "core_inv s" "ring_called e s"
  shows "core_inv (ring_do E e s)"
proof (cases "e \<in> {RE_motion_start, RE_motion_period, RE_motion_stop, RE_buzzer}")
  case True
  with assms show ?thesis by (rule core_inv_motion)
next
  case False
  with assms show ?thesis
    by (cases e) (simp_all add: fmdn_ring_start_request_def fmdn_ring_timeout_expired_def fmdn_ring_stop_request_def
        ring_provisioning_state_changed_def ring_request_handle_def Let_def core_inv_ring_update core_inv_ring_src)
qed

lemma access_effect:
  "core_inv s \<Longrightarrow> conn_indices E idx \<Longrightarrow> core_inv (snd (gatt_authorize E c u s))"
  "conn_indices E idx \<Longrightarrow> app (snd (gatt_authorize E c u s)) = app s"
  "conn_indices E idx \<Longrightarrow> fp (snd (gatt_authorize E c u s)) = fp s"
  by (auto simp: gatt_authorize_def app_dfu_bt_gatt_operation_allow_def identifying_info_allow_def
      fmdn_conn_auth_bm_conn_status_get_def conn_index_eq Let_def split: prod.split)

lemma app_inv_do:
  assumes "conn_indices E idx" "app_inv s" "app_ok e s"
  shows "app_inv (app_do E junk e s)"
proof (cases e)
  case (AP_button bs ch)
  then show ?thesis using assms by (simp add: app_inv_button request_listeners_ok)
next
  case (AP_access c u)
  then show ?thesis using assms by (simp add: app_inv_def req_inv_def access_effect)
next
  case (AP_ring r)
  then show ?thesis using assms by (simp add: app_inv_def req_inv_def core_inv_ring_do app_ok_def)
next
  case (AP_fp f)
  have "requested (fp (fp_do E f s)) = requested (fp s)"
    using assms(3) fp_do_requests [of E f s] by (cases f) (simp_all add: AP_fp app_ok_def)
  moreover have "app (fp_do E f s) = app s" using confined_do [of s E f] by (simp add: confined_def)
  ultimately show ?thesis
    using assms(2,3) by (simp add: AP_fp app_inv_def req_inv_def core_inv_fp_do app_ok_def)
next
  case AP_dfu_timeout
  then show ?thesis
    using assms by (simp add: app_inv_def req_inv_def dfu_mode_timeout_work_handle_def core_inv_dfu_change)
qed (use assms in \<open>simp_all add: app_inv_provisioning app_inv_init app_inv_exited app_inv_stop_discoverable app_inv_account_key
    app_inv_clock_synced fmdn_conn_authenticated_def security_changed_def app_disconnected_def status_set_effect app_ok_def\<close>)

text \<open>Abstractly: the indices of the authenticated connections.\<close>

fun auth_step :: "(conn \<Rightarrow> nat) \<Rightarrow> app_ev \<Rightarrow> nat set \<Rightarrow> nat set" where
  "auth_step idx (AP_authenticated c) A = insert (idx c) A"
| "auth_step idx (AP_security c l e) A =
     (if e = BT_SECURITY_ERR_SUCCESS \<and> BT_SECURITY_L2 \<le> l then insert (idx c) A else A)"
| "auth_step idx (AP_disconnected c r) A = A - {idx c}"
| "auth_step idx e A = A"

lemma bm_listeners [simp]:
  "fmdn_conn_auth_bm (app (fmdn_mode_request_handle E junk r s)) = fmdn_conn_auth_bm (app s)"
  by (simp add: fmdn_mode_request_handle_def fmdn_recovery_mode_action_handle_def fmdn_id_mode_action_handle_def
      fmdn_advt_mode_change_handle_def call_def Let_def)

lemma bm_broadcast [simp]:
  "fmdn_conn_auth_bm (app (app_ui_request_broadcast (request_listeners E junk) r s)) = fmdn_conn_auth_bm (app s)"
  by (simp add: app_ui_request_broadcast_def request_listeners_def)

lemma bm_button [simp]:
  "fmdn_conn_auth_bm (app (btn_handle E (request_listeners E junk) bs ch s)) = fmdn_conn_auth_bm (app s)"
  by (simp add: btn_handle_def Let_def split: option.split)

lemma bm_callbacks [simp]:
  "fmdn_conn_auth_bm (app (fmdn_provisioning_state_set E p s)) = fmdn_conn_auth_bm (app s)"
  "fmdn_conn_auth_bm (app (stop_discoverable_adv E s)) = fmdn_conn_auth_bm (app s)"
  "fmdn_conn_auth_bm (app (fp_account_key_written E c s)) = fmdn_conn_auth_bm (app s)"
  "fmdn_conn_auth_bm (app (fmdn_clock_synced E s)) = fmdn_conn_auth_bm (app s)"
  "fmdn_conn_auth_bm (app (dfu_mode_timeout_work_handle E s)) = fmdn_conn_auth_bm (app s)"
  by (simp_all add: state_set_effect stop_discoverable_adv_def fp_account_key_written_def schedule_defs
    fmdn_clock_synced_def dfu_mode_timeout_work_handle_def Let_def)

lemma bm_exited [simp]: "fmdn_conn_auth_bm (app (fmdn_read_mode_exited E m s)) = fmdn_conn_auth_bm (app s)"
  by (cases m) (simp_all add: fmdn_recovery_mode_exited_def fmdn_id_mode_exited_def)

lemma bm_provisioning [simp]:
  "fmdn_conn_auth_bm (app (fmdn_provisioning_state_changed E p s)) = fmdn_conn_auth_bm (app s)"
  by (simp add: fmdn_provisioning_state_changed_def schedule_defs Let_def)

lemma bm_init [simp]:
  "fmdn_conn_auth_bm (app (fmdn_provisioning_state_init E s)) = fmdn_conn_auth_bm (app s)"
proof -
  define s1 where "s1 = invoke (FP Fmdn_is_provisioned) s"
  define s2 where "s2 = fmdn_provisioning_state_set E (result E s1 \<noteq> 0) s1"
  have "fmdn_conn_auth_bm (app s2) = fmdn_conn_auth_bm (app s)" "app s1 = app s" by (simp_all add: s2_def s1_def)
  then show ?thesis
    by (simp add: fmdn_provisioning_state_init_def Let_def schedule_defs flip: s1_def s2_def)
qed

lemma authenticated_do:
  assumes "conn_indices E idx"
  shows "authenticated (app_do E junk e s) = auth_step idx e (authenticated s)"
proof (cases e)
  case (AP_authenticated c)
  then show ?thesis using assms by (simp add: fmdn_conn_authenticated_def status_set_effect)
next
  case (AP_security c l err)
  show ?thesis
  proof (cases "err = BT_SECURITY_ERR_SUCCESS \<and> BT_SECURITY_L2 \<le> l")
    case True
    then have "\<not> l < BT_SECURITY_L2" by (simp add: not_less)
    with True show ?thesis using assms by (simp add: AP_security security_changed_def status_set_effect)
  next
    case False
    then have "security_changed E c l err s = s" by (auto simp: security_changed_def not_le)
    then show ?thesis using False by (auto simp: AP_security)
  qed
next
  case (AP_disconnected c r)
  then show ?thesis using assms by (simp add: app_disconnected_def status_set_effect)
next
  case (AP_fp f)
  then show ?thesis using confined_do [of s E f] by (simp add: confined_def authenticated_def)
qed (use assms in \<open>simp_all add: access_effect authenticated_def\<close>)

interpretation apm: simulation "app_do E junk" "\<lambda>e s. conn_indices E idx \<and> app_ok e s" app_inv authenticated "auth_step idx"
  for E junk idx
  by unfold_locales (auto simp: app_inv_do authenticated_do)

section \<open>The initial state\<close>

definition app_init_state :: app_sys where
  "app_init_state = fr_sys.extend fr_init_state \<lparr>app = app_st_init\<rparr>"

lemma app_init_simps [simp]:
  "app app_init_state = app_st_init" "fr app_init_state = fr_st_init" "fp app_init_state = fp_st_init"
  "trace app_init_state = []" "halted app_init_state = None" "ui app_init_state = ui_st_init"
  "dfu app_init_state = dfu_st_init" "ring app_init_state = ring_st_init" "adv app_init_state = adv_st_init"
  by (simp_all add: app_init_state_def fr_sys.extend_def fr_init_state_def fp_sys.extend_def fp_init_state_def
      bat_sys.extend_def bat_init_state_def dev_sys.extend_def ring_sys.extend_def ring_init_state_def svc_sys.extend_def
      svc_init_state_def dfu_sys.extend_def dfu_init_state_def ui_sys.extend_def ui_init_state_def uart_sys.extend_def
      uart_init_state_def set_DynamicData_def)

lemma app_init_inv [simp]: "app_inv app_init_state"
proof -
  have "fp_inv app_init_state"
    by (simp add: fp_inv_def shows_state_def fp_st_init_def ui_st_init_def trigger_bits_def atomic_test_bit_def TEST_BIT_def)
  then show ?thesis
    by (simp add: app_inv_def core_inv_def req_inv_def ring_inv_def ui_inv_def ui_st_init_def ring_st_init_def buzz_def
        RING_COMP_BM_NONE_def atomic_test_bit_def TEST_BIT_def dfu_st_init_def app_st_init_def requested_def fp_st_init_def)
qed

lemma run_ok_conj: "P \<Longrightarrow> run_ok ok step es s \<Longrightarrow> run_ok (\<lambda>e s. P \<and> ok e s) step es s"
  by simp

lemmas app_run_inv = apm.run_inv [OF app_init_inv run_ok_conj]
lemmas app_run_abs = apm.run_abs [OF app_init_inv run_ok_conj]

lemma const_env_indices [simp]: "conn_indices (const_env 0) (\<lambda>_. 0)"
  by (simp add: conn_indices_def const_env_def)

lemma requested_any:
  "(\<exists>t. requested f t) \<longleftrightarrow> requested f fp_adv_trigger_ui \<or> requested f fp_adv_trigger_fmdn_provisioning
     \<or> requested f fp_adv_trigger_clock_sync"
  by (metis app_fp_adv_trigger.exhaust)

section \<open>Consistency\<close>

text \<open>What the invariant of the application says of the UI, the modes and the advertising.\<close>

lemma app_inv_consistent:
  assumes "app_inv s"
  shows "ui_active s APP_UI_STATE_PROVISIONED = fmdn_provisioned (app s)
    \<and> ui_active s APP_UI_STATE_RECOVERY_MODE = fmdn_recovery_mode (app s)
    \<and> ui_active s APP_UI_STATE_ID_MODE = fmdn_id_mode (app s)
    \<and> ui_active s APP_UI_STATE_DFU_MODE = dfu_mode (dfu s)
    \<and> ui_active s APP_UI_STATE_RINGING = (fmdn_ring_active_comp_bm (ring s) \<noteq> 0)
    \<and> \<not> (fmdn_provisioned (app s) \<and> fp_adv_ui_request (app s))
    \<and> (\<not> ui_active s APP_UI_STATE_RINGING \<longrightarrow> buzz (trace s) = (False, False))
    \<and> (halted s = None \<longrightarrow> asserts_hold (trace s) \<and> (app_fp_adv_mode_get s \<noteq> APP_FP_ADV_MODE_OFF \<longleftrightarrow>
         app_fp_adv_is_ready s \<and> (fp_adv_ui_request (app s) \<or> requested (fp s) fp_adv_trigger_fmdn_provisioning)))"
proof -
  have "(\<exists>t. requested (fp s) t) \<longleftrightarrow> fp_adv_ui_request (app s) \<or> requested (fp s) fp_adv_trigger_fmdn_provisioning"
    using assms by (simp add: app_inv_def req_inv_def requested_any)
  moreover have "fp_adv_request_bm (fp s) \<noteq> 0 \<longleftrightarrow> (\<exists>t. requested (fp s) t)" if "fp_inv s"
    using that by (simp add: fp_inv_def no_request_iff)
  ultimately show ?thesis
    using assms
    by (auto simp: app_inv_def core_inv_def req_inv_def ring_inv_def ui_inv_def RING_COMP_BM_NONE_def fp_inv_def shows_state_def
        app_fp_adv_mode_get_def app_fp_adv_is_ready_def)
qed

text \<open>A press, provisioning, ringing, and the answers of the library.\<close>

lemma provisioning_running:
  "halted (fmdn_provisioning_state_changed E p s) = halted s"
  by (simp add: fmdn_provisioning_state_changed_def schedule_defs fmdn_provisioning_state_set_def Let_def)

lemma provisioning_shown:
  "fmdn_provisioned (app (fmdn_provisioning_state_changed E p s)) = p"
  by (simp add: fmdn_provisioning_state_changed_def schedule_defs state_set_effect Let_def)

lemma ring_start_running: "halted (ring_do E (RE_start src bm t) s) = halted s"
  by (simp add: fmdn_ring_start_request_def ring_state_update_def Let_def)

section \<open>GATT access\<close>

text \<open>
  The policy of the specification, over what the device shows: the SMP characteristic (image
  upload) in DFU mode only, the identifying characteristics not for unauthenticated clients
  of a provisioned device outside the identification mode.
\<close>

definition gatt_policy :: "(app_ui_state \<Rightarrow> bool) \<Rightarrow> bool \<Rightarrow> bt_uuid \<Rightarrow> bool" where
  "gatt_policy shown auth uuid =
     (if uuid = SMP_BT_CHR_UUID then shown APP_UI_STATE_DFU_MODE
      else if uuid \<in> {BT_UUID_DIS_FIRMWARE_REVISION, BT_UUID_GAP_DEVICE_NAME}
      then \<not> shown APP_UI_STATE_PROVISIONED \<or> auth \<or> shown APP_UI_STATE_ID_MODE
      else True)"

lemma authorize_eq:
  assumes "conn_indices E idx" "core_inv s"
  shows "fst (gatt_authorize E c u s) = gatt_policy (ui_active s) (idx c \<in> authenticated s) u"
  using assms(2)
  by (auto simp: conn_index_eq [OF assms(1)] gatt_authorize_def app_dfu_bt_gatt_operation_allow_def identifying_info_allow_def
      fmdn_conn_auth_bm_conn_status_get_def gatt_policy_def uuid_block_list_def authenticated_def core_inv_def Let_def)

text \<open>
  C4: GATT access.  After any sequence of events, an access is allowed exactly as the policy
  says for what the UI shows and for the connections authenticated and not disconnected
  since, by bonding at security level 2 or by the library; and no access changes what the
  policy depends on.
\<close>

theorem gatt_policy_enforced:
  fixes E
  assumes "conn_indices E idx" and "run_ok app_ok (app_do E junk) es app_init_state"
  defines "s \<equiv> run (app_do E junk) es app_init_state"
  shows "fst (gatt_authorize E c u s) = gatt_policy (ui_active s) (idx c \<in> run (auth_step idx) es {}) u
    \<and> app (snd (gatt_authorize E c u s)) = app s"
proof -
  have inv: "core_inv s" using app_run_inv [OF assms(1,2)] by (simp add: s_def app_inv_def)
  have "authenticated app_init_state = {}" by (simp add: authenticated_def app_st_init_def TEST_BIT_def)
  then have "authenticated s = run (auth_step idx) es {}" using app_run_abs [OF assms(1,2)] by (simp add: s_def)
  then show ?thesis using authorize_eq [OF assms(1) inv] access_effect(2) [OF assms(1)] by simp
qed

theorem gatt_policy_enforced_witness:
  "let s = run (app_do (const_env 0) 0) [AP_provisioning True, AP_authenticated 1, AP_disconnected 1 0] app_init_state
   in fst (gatt_authorize (const_env 0) 1 BT_UUID_GAP_DEVICE_NAME s)
      = gatt_policy (ui_active s) False BT_UUID_GAP_DEVICE_NAME"
proof -
  let ?es = "[AP_provisioning True, AP_authenticated 1, AP_disconnected 1 0]"
  have "run_ok app_ok (app_do (const_env 0) 0) ?es app_init_state"
    by (simp add: app_ok_def provisioning_running fmdn_conn_authenticated_def fmdn_conn_auth_bm_conn_status_set_def
        conn_index_eq [OF const_env_indices])
  from gatt_policy_enforced [OF const_env_indices this, of 1 BT_UUID_GAP_DEVICE_NAME] show ?thesis by (simp add: Let_def)
qed

section \<open>The provisioning deadline\<close>

text \<open>The kernel's timer of the factory reset along a trace.\<close>

definition reset_timer :: "ev list \<Rightarrow> nat option" where
  "reset_timer = foldl fr_timer_step None"

lemma fr_timer_skip: "\<not> is_app_timer e \<Longrightarrow> fr_timer_step t e = t"
  by (cases "(t, e)" rule: fr_timer_step.cases) auto

lemma fold_app_timers: "foldl fr_timer_step t es = foldl fr_timer_step t (app_timers es)"
  by (induction es arbitrary: t) (simp_all add: fr_timer_skip)

lemma reset_timer_same: "app_timers es = app_timers fs \<Longrightarrow> reset_timer es = reset_timer fs"
  by (metis fold_app_timers reset_timer_def)

lemma reset_timer_append [simp]: "reset_timer (es @ fs) = foldl fr_timer_step (reset_timer es) fs"
  by (simp add: reset_timer_def)

text \<open>The device waits for its owner's provisioning, with the reset scheduled.\<close>

definition awaiting :: "'a app_sys_scheme \<Rightarrow> bool" where
  "awaiting s \<longleftrightarrow> factory_reset_state (fr s) = APP_FACTORY_RESET_STATE_PENDING
     \<and> reset_trigger (app s) = FACTORY_RESET_TRIGGER_PROVISIONING_TIMEOUT
     \<and> reset_timer (trace s) = Some (FMDN_PROVISIONING_TIMEOUT * 60000)"

text \<open>The next state as far as the reset is concerned.\<close>

definition same_reset :: "'a app_sys_scheme \<Rightarrow> 'a app_sys_scheme \<Rightarrow> bool" where
  "same_reset s t \<longleftrightarrow> factory_reset_state (fr t) = factory_reset_state (fr s)
     \<and> reset_trigger (app t) = reset_trigger (app s) \<and> reset_timer (trace t) = reset_timer (trace s)"

lemma awaiting_same: "awaiting s \<Longrightarrow> same_reset s t \<Longrightarrow> awaiting t"
  by (simp add: awaiting_def same_reset_def)

lemma same_reset_refl [simp]: "same_reset s s"
  by (simp add: same_reset_def)

lemma same_reset_trans: "same_reset s t \<Longrightarrow> same_reset t u \<Longrightarrow> same_reset s u"
  by (simp add: same_reset_def)

lemma same_reset_confined: "confined s t \<Longrightarrow> same_reset s t"
  by (auto simp: same_reset_def confined_def intro: reset_timer_same)

lemma same_reset_stop [simp]:
  "same_reset u (invoke (K (Work_schedule W_stop_discoverable ms)) s) = same_reset u s"
  "same_reset u (invoke (K (Work_cancel W_stop_discoverable)) s) = same_reset u s"
  by (simp_all add: same_reset_def)

lemma same_reset_io [simp]: "\<not> is_app_timer e \<Longrightarrow> same_reset u (invoke e s) = same_reset u s"
  "same_reset u (check w b s) = same_reset u s"
  by (simp_all add: same_reset_def fr_timer_skip check_def)

lemma same_reset_request [simp]: "same_reset u (app_fp_adv_request E t b s) = same_reset u s"
  using reset_timer_same [of "trace (app_fp_adv_request E t b s)" "trace s"] by (simp add: same_reset_def)

lemma same_reset_indicate [simp]: "same_reset u (app_ui_state_change_indicate E st a s) = same_reset u s"
  by (simp add: same_reset_def app_ui_state_change_indicate_def app_ui_speaker_off_def Let_def)

lemma same_reset_records [simp]:
  "same_reset u (s\<lparr>ring := r\<rparr>) = same_reset u s" "same_reset u (s\<lparr>dfu := d\<rparr>) = same_reset u s"
  "same_reset u (s\<lparr>ui := x\<rparr>) = same_reset u s"
  "reset_trigger a = reset_trigger (app s) \<Longrightarrow> same_reset u (s\<lparr>app := a\<rparr>) = same_reset u s"
  by (simp_all add: same_reset_def)

lemma same_reset_ring: "same_reset u (ring_state_update E p s) = same_reset u s"
  by (simp add: ring_state_update_def Let_def)

lemma same_reset_ring_do: "same_reset s (ring_do E e s)"
  by (cases e; simp add: fmdn_ring_start_request_def fmdn_ring_timeout_expired_def fmdn_ring_stop_request_def
      ring_provisioning_state_changed_def ring_request_handle_def fmdn_motion_detector_start_def fmdn_motion_detector_stop_def
      fmdn_motion_detector_period_expired_def buzzer_beep_handle_def app_ui_speaker_on_def app_ui_speaker_off_def
      Let_def same_reset_ring)

lemma same_reset_dfu: "same_reset u (dfu_mode_change E m s) = same_reset u s"
  by (simp add: dfu_mode_change_def Let_def)

lemma same_reset_panic [simp]: "same_reset u (k_panic s) = same_reset u s"
  by (simp add: same_reset_def)

text \<open>A request listener that does not touch a pending reset.\<close>

locale reset_keeper =
  fixes handler :: "app_ui_request \<Rightarrow> 'a app_sys_scheme \<Rightarrow> 'a app_sys_scheme"
  assumes handler_keeps: "same_reset s (handler request s)"
begin

lemma handler_awaiting: "awaiting s \<Longrightarrow> awaiting (handler r s)"
  using handler_keeps awaiting_same by blast

end

interpretation dfu_rk: reset_keeper "dfu_mode_request_handle E" for E
  by unfold_locales (simp add: dfu_mode_request_handle_def dfu_mode_action_handle_def same_reset_dfu)

interpretation fr_rk: reset_keeper factory_reset_request_handle
  by unfold_locales (simp add: factory_reset_request_handle_def same_reset_def)

interpretation ring_rk: reset_keeper "ring_request_handle E" for E
  by unfold_locales (simp add: ring_request_handle_def same_reset_ring)

interpretation main_rk: reset_keeper "fmdn_mode_request_handle E junk" for E junk
  by unfold_locales (simp add: fmdn_mode_request_handle_def fmdn_recovery_mode_action_handle_def fmdn_id_mode_action_handle_def
      fmdn_advt_mode_change_handle_def call_def Let_def)

lemma request_listeners_keep: "list_all reset_keeper (request_listeners E junk)"
  by (simp add: request_listeners_def dfu_rk.reset_keeper_axioms fr_rk.reset_keeper_axioms
      ring_rk.reset_keeper_axioms main_rk.reset_keeper_axioms)

lemma broadcast_same_reset:
  "list_all reset_keeper L \<Longrightarrow> same_reset u s \<Longrightarrow> same_reset u (app_ui_request_broadcast L r s)"
proof (induction L arbitrary: s)
  case (Cons h L)
  then have "same_reset u (h r s)" by (auto intro: same_reset_trans reset_keeper.handler_keeps)
  with Cons show ?case by (simp add: app_ui_request_broadcast_def)
qed (simp add: app_ui_request_broadcast_def)

lemma same_reset_beeps: "same_reset u s \<Longrightarrow> same_reset u (speaker_beep_play E n on off s)"
  by (induction n arbitrary: s) (simp_all add: app_ui_speaker_on_def app_ui_speaker_off_def Let_def)

lemma same_reset_button: "list_all reset_keeper L \<Longrightarrow> same_reset s (btn_handle E L bs ch s)"
  by (auto simp: btn_handle_def Let_def intro!: broadcast_same_reset same_reset_beeps split: option.split)

lemma same_reset_status_set: "same_reset s (fmdn_conn_auth_bm_conn_status_set E c b s)"
  by (simp add: fmdn_conn_auth_bm_conn_status_set_def conn_index_def Let_def)

lemma same_reset_access: "same_reset s (snd (gatt_authorize E c u s))"
  by (simp add: gatt_authorize_def app_dfu_bt_gatt_operation_allow_def identifying_info_allow_def
      fmdn_conn_auth_bm_conn_status_get_def conn_index_def Let_def)

text \<open>The events that report the provisioning state.\<close>

fun provisioning_event :: "app_ev \<Rightarrow> bool" where
  "provisioning_event (AP_provisioning p) = True"
| "provisioning_event AP_init = True"
| "provisioning_event e = False"

lemma awaiting_do:
  assumes "awaiting s" "\<not> provisioning_event e"
  shows "awaiting (app_do E junk e s)"
proof (cases e)
  case (AP_account_key c)
  have "awaiting (s\<lparr>app := (app s)\<lparr>reset_trigger := FACTORY_RESET_TRIGGER_PROVISIONING_TIMEOUT\<rparr>\<rparr>)"
    using assms(1) by (simp add: awaiting_def)
  then show ?thesis
    using assms(1)
    by (simp add: AP_account_key fp_account_key_written_def schedule_defs app_factory_reset_schedule_def Let_def awaiting_def)
      (auto simp: reset_timer_same [of "trace (app_fp_adv_request E fp_adv_trigger_fmdn_provisioning True s)" "trace s"])
next
  case (AP_button bs ch)
  then show ?thesis using awaiting_same [OF assms(1) same_reset_button [OF request_listeners_keep]] by simp
next
  case (AP_exited m)
  have "same_reset s (fmdn_read_mode_exited E m s)"
    by (cases m) (simp_all add: fmdn_recovery_mode_exited_def fmdn_id_mode_exited_def)
  then show ?thesis using awaiting_same [OF assms(1)] by (simp add: AP_exited)
next
  case (AP_fp f)
  then show ?thesis using awaiting_same [OF assms(1) same_reset_confined [OF confined_do]] by simp
next
  case (AP_ring r)
  then show ?thesis using awaiting_same [OF assms(1) same_reset_ring_do] by simp
next
  case (AP_access c u)
  then show ?thesis using awaiting_same [OF assms(1) same_reset_access] by simp
qed (use assms awaiting_same [OF assms(1)] in \<open>simp_all add: stop_discoverable_adv_def fmdn_clock_synced_def Let_def
    dfu_mode_timeout_work_handle_def same_reset_dfu fmdn_conn_authenticated_def security_changed_def app_disconnected_def
    same_reset_status_set\<close>)

lemma awaiting_run: "awaiting s \<Longrightarrow> list_all (\<lambda>e. \<not> provisioning_event e) es \<Longrightarrow> awaiting (run (app_do E junk) es s)"
  by (induction es arbitrary: s) (simp_all add: awaiting_do)

text \<open>The reset callbacks of main.c and dfu.c respect the contract of the factory reset.\<close>

interpretation main_rp: reset_participant
  "\<lparr>cb_prepare = Some (fmdn_factory_reset_prepare E), cb_executed = Some (fmdn_factory_reset_executed E)\<rparr>" for E
proof
  fix s :: "'a app_sys_scheme" and f
  have r: "no_reset s (app_fp_adv_request E t b u)" if "no_reset s u" for t b and u :: "'a app_sys_scheme"
    using that by (rule nr.R_request)
  have a: "no_reset s (u\<lparr>app := x\<rparr>) = no_reset s u" for u :: "'a app_sys_scheme" and x
    by (simp add: no_reset_def)
  show "no_reset s (f s)" if "cb_prepare \<lparr>cb_prepare = Some (fmdn_factory_reset_prepare E),
      cb_executed = Some (fmdn_factory_reset_executed E)\<rparr> = Some f"
    using that by (auto simp: fmdn_factory_reset_prepare_def Let_def a intro!: r)
  show "no_reset s (f s)" if "cb_executed \<lparr>cb_prepare = Some (fmdn_factory_reset_prepare E),
      cb_executed = Some (fmdn_factory_reset_executed E)\<rparr> = Some f"
    using that by (auto simp: fmdn_factory_reset_executed_def Let_def a)
qed

interpretation dfu_rp: reset_participant "\<lparr>cb_prepare = Some (dfu_factory_reset_prepare E), cb_executed = None\<rparr>" for E
proof
  fix s :: "'a fr_sys_scheme" and f
  have d: "no_reset s (u\<lparr>dfu := x\<rparr>) = no_reset s u" for u :: "'a fr_sys_scheme" and x
    by (simp add: no_reset_def)
  show "no_reset s (f s)" if "cb_prepare \<lparr>cb_prepare = Some (dfu_factory_reset_prepare E), cb_executed = None\<rparr> = Some f"
    using that by (auto simp: dfu_factory_reset_prepare_def dfu_mode_change_def Let_def d)
qed simp

lemma reset_cbs_ok: "list_all reset_participant (factory_reset_cbs E)"
  by (simp add: factory_reset_cbs_def main_rp.reset_participant_axioms dfu_rp.reset_participant_axioms)

text \<open>
  C10: The provisioning deadline.  When the first account key is written and no reset is
  scheduled, the device waits for the owner: Fast Pair advertising is requested and the
  reset scheduled in five minutes, and no further account key, gesture, connection,
  advertising or ringing event delays or withdraws it.  A report that the device is
  provisioned cancels it and withdraws the requests for advertising; if the timer expires
  instead, the reset is carried out and halts the processor.
\<close>

theorem provisioning_deadline:
  fixes E junk es c
  assumes "\<not> fp_account_key_present (app s)" and "factory_reset_state (fr s) = APP_FACTORY_RESET_STATE_IDLE"
    and "reset_timer (trace s) = None" and "list_all (\<lambda>e. \<not> provisioning_event e) es"
  defines "t \<equiv> run (app_do E junk) es (fp_account_key_written E c s)"
    and "u \<equiv> fmdn_provisioning_state_changed E True (run (app_do E junk) es (fp_account_key_written E c s))"
  shows "requested (fp (fp_account_key_written E c s)) fp_adv_trigger_fmdn_provisioning
    \<and> factory_reset_state (fr t) = APP_FACTORY_RESET_STATE_PENDING \<and> reset_timer (trace t) = Some 300000
    \<and> factory_reset_state (fr u) = APP_FACTORY_RESET_STATE_IDLE \<and> reset_timer (trace u) = None
    \<and> \<not> requested (fp u) fp_adv_trigger_fmdn_provisioning \<and> \<not> requested (fp u) fp_adv_trigger_ui
    \<and> (halted t = None \<longrightarrow> halted (factory_reset_work_handle E (factory_reset_cbs E) t) \<noteq> None)"
proof -
  have k: "reset_timer (trace (app_fp_adv_request E tr b x)) = reset_timer (trace x)" for tr b and x :: "'a app_sys_scheme"
    by (rule reset_timer_same) simp
  have a: "awaiting (fp_account_key_written E c s)"
    using assms(1-3)
    by (simp add: fp_account_key_written_def schedule_defs app_factory_reset_schedule_def Let_def awaiting_def k)
  have t: "awaiting t" unfolding t_def using a assms(4) by (rule awaiting_run)
  define v where "v = fmdn_provisioning_state_set E True t"
  have v: "awaiting v" unfolding v_def
    by (rule awaiting_same [OF t]) (simp add: fmdn_provisioning_state_set_def Let_def)
  have st: "reset_timer (trace (snd (ble_adv_custom_start E x))) = reset_timer (trace x)" for x :: "'a app_sys_scheme"
    by (rule reset_timer_same) simp
  have u: "factory_reset_state (fr u) = APP_FACTORY_RESET_STATE_IDLE \<and> reset_timer (trace u) = None
    \<and> \<not> requested (fp u) fp_adv_trigger_fmdn_provisioning \<and> \<not> requested (fp u) fp_adv_trigger_ui"
    using v
    by (simp add: u_def fmdn_provisioning_state_changed_def Let_def request_effect schedule_defs
        app_factory_reset_cancel_def awaiting_def k st flip: t_def v_def)
  have "halted (factory_reset_work_handle E (factory_reset_cbs E) t) \<noteq> None" if "halted t = None"
    using perform_spec [OF reset_cbs_ok _ that] t by (auto simp: factory_reset_work_handle_def awaiting_def)
  moreover have "requested (fp (fp_account_key_written E c s)) fp_adv_trigger_fmdn_provisioning"
    using assms(1) by (simp add: fp_account_key_written_def schedule_defs Let_def request_effect)
  ultimately show ?thesis using t u by (simp add: awaiting_def FMDN_PROVISIONING_TIMEOUT_def)
qed

theorem provisioning_deadline_witness:
  "reset_timer (trace (run (app_do (const_env 0) 0) [AP_account_key 1, AP_button 1 1, AP_disconnected 1 0]
     (fp_account_key_written (const_env 0) 1 app_init_state))) = Some 300000"
  using provisioning_deadline [of app_init_state "[AP_account_key 1, AP_button 1 1, AP_disconnected 1 0]"]
  by (simp add: app_st_init_def fr_st_init_def reset_timer_def)

section \<open>Turning the locator on and off\<close>

text \<open>
  C40: The locator toggle.  On a provisioned device, when the flag and the readiness of the
  library agree, the toggle makes the one call of the library and panics exactly when it
  fails; when they disagree it makes no call at all, and whether it panics is decided by the
  uninitialised variable.
\<close>

theorem locator_toggle:
  fixes E junk
  assumes "fmdn_provisioned (app s)" and "halted s = None"
  defines "ready \<equiv> result E (invoke (FP Fp_is_ready) s) \<noteq> 0"
    and "c \<equiv> (if fmdn_enable_flag (app s) then Fp_disable else Fp_enable)"
    and "t \<equiv> fmdn_advt_mode_change_handle E junk s"
  shows "if ready = fmdn_enable_flag (app s)
    then halted t = (if ret E (trace s @ [FP Fp_is_ready, FP c]) = 0 then None else Some Panicked)
    else halted t = (if junk = 0 then None else Some Panicked)
      \<and> reset_calls (trace t) = reset_calls (trace s)"
proof -
  have r: "reset_calls (trace (app_fp_adv_request E tr b x)) = reset_calls (trace x)" for tr b and x :: "'a app_sys_scheme"
    using nr.R_request [of x x E tr b] by (simp add: no_reset_def)
  show ?thesis
    using assms(1,2)
    by (auto simp: t_def ready_def c_def fmdn_advt_mode_change_handle_def call_def Let_def result_def r check_def)
qed

theorem locator_toggle_witness:
  "halted (fmdn_advt_mode_change_handle (const_env 0) 7
     (app_init_state\<lparr>app := app_st_init\<lparr>fmdn_provisioned := True, fmdn_enable_flag := True\<rparr>\<rparr>)) = Some Panicked"
  using locator_toggle [of "app_init_state\<lparr>app := app_st_init\<lparr>fmdn_provisioned := True, fmdn_enable_flag := True\<rparr>\<rparr>" "const_env 0" 7]
  by (simp add: result_def const_env_def)

section \<open>The button while ringing\<close>

lemma press_eq:
  assumes "bs AND BTN_MULTI_ACTION \<noteq> 0" "ch AND BTN_MULTI_ACTION \<noteq> 0"
  shows "\<exists>w. (ring w = ring s \<and> ui_active w = ui_active s) \<and> btn_handle E L bs ch s =
    (if ui_active w APP_UI_STATE_RINGING then app_ui_request_broadcast L APP_UI_REQUEST_RINGING_STOP w else w)"
  using assms
  by (intro exI [of _ "(invoke (K Uptime_get) s)\<lparr>ui := (ui s)\<lparr>prev_uptime := outval E (invoke (K Uptime_get) s)\<rparr>\<rparr>"])
    (simp add: btn_handle_def Let_def)

lemma broadcast_stop:
  "app_ui_request_broadcast (request_listeners E junk) APP_UI_REQUEST_RINGING_STOP w
     = ring_request_handle E APP_UI_REQUEST_RINGING_STOP w"
  by (simp add: app_ui_request_broadcast_def request_listeners_def dfu_mode_request_handle_def
      factory_reset_request_handle_def fmdn_mode_request_handle_def)



end
