(* ===== verification/Startup.thy ===== *)
theory Startup
  imports Firmware
begin

text \<open>
  The boot sequence of main.c: creation of the application's Bluetooth identity, a loop that
  ends only because of how the host numbers identities, and the steps of the initialisation
  work, each of which may fail and end it.
\<close>

section \<open>The application's identity\<close>

text \<open>
  Documented behaviour of the Bluetooth host: \<open>ids\<close> identities exist after a trace,
  \<open>bt_id_get\<close> gives their number, and \<open>bt_id_create\<close> fails with a negative code or returns
  the index of the new identity, which is the number of those that existed.
\<close>

definition identities :: "env \<Rightarrow> (ev list \<Rightarrow> nat) \<Rightarrow> bool" where
  "identities E ids \<longleftrightarrow> (\<forall>es. out E (es @ [BT Id_get]) = int (ids es) \<and> ids (es @ [BT Id_get]) = ids es
     \<and> (if ret E (es @ [BT Id_create]) < 0 then ids (es @ [BT Id_create]) = ids es
        else ret E (es @ [BT Id_create]) = int (ids es) \<and> ids (es @ [BT Id_create]) = Suc (ids es)))"

lemma identitiesD:
  assumes "identities E ids"
  shows "outval E (invoke (BT Id_get) s) = int (ids (trace s))"
    "ids (trace (invoke (BT Id_get) s)) = ids (trace s)"
    "\<not> result E (invoke (BT Id_create) s) < 0 \<Longrightarrow> result E (invoke (BT Id_create) s) = int (ids (trace s))"
    "\<not> result E (invoke (BT Id_create) s) < 0 \<Longrightarrow> ids (trace (invoke (BT Id_create) s)) = Suc (ids (trace s))"
  using assms by (auto simp: identities_def outval_def result_def split: if_splits)

definition creates :: "ev list \<Rightarrow> nat" where
  "creates es = length (filter (\<lambda>e. e = BT Id_create) es)"

lemma creates_simps [simp]: "creates [] = 0" "creates (es @ fs) = creates es + creates fs"
  "creates [e] = (if e = BT Id_create then 1 else 0)"
  by (simp_all add: creates_def)

text \<open>The program made calls for identities and changed nothing.\<close>

definition only_calls :: "'a io_scheme \<Rightarrow> 'a io_scheme \<Rightarrow> bool" where
  "only_calls s t \<longleftrightarrow> (\<exists>es. t = s\<lparr>trace := trace s @ es\<rparr> \<and> set es \<subseteq> {BT Id_get, BT Id_create})"

lemma only_calls_refl [simp]: "only_calls s s"
  by (auto simp: only_calls_def intro!: exI [of _ "[]"])

lemma only_calls_trans: "only_calls s t \<Longrightarrow> only_calls t u \<Longrightarrow> only_calls s u"
  by (force simp: only_calls_def)

lemma only_calls_invoke [simp]: "e \<in> {BT Id_get, BT Id_create} \<Longrightarrow> only_calls s (invoke e s)"
  by (auto simp: only_calls_def invoke_def)

text \<open>What the creation of the application's identity achieves from \<open>s\<close>.\<close>

definition id_created :: "(ev list \<Rightarrow> nat) \<Rightarrow> nat \<Rightarrow> 'a io_scheme \<Rightarrow> int \<times> 'a io_scheme \<Rightarrow> bool" where
  "id_created ids n s r \<longleftrightarrow> (fst r = 0 \<and> APP_BT_ID < ids (trace (snd r)) \<or> fst r < 0)
     \<and> creates (trace (snd r)) \<le> creates (trace s) + n \<and> only_calls s (snd r)"

lemma id_loop_last:
  assumes "identities E ids" "ids (trace s) = APP_BT_ID"
  shows "\<exists>r. app_id_create_loop E s = Some r \<and> id_created ids 1 s r"
  using identitiesD(3,4) [OF assms(1), of s] assms(2)
  by (subst app_id_create_loop.simps) (auto simp: Let_def id_created_def)

lemma id_loop_first:
  assumes "identities E ids" "ids (trace s) = 0"
  shows "\<exists>r. app_id_create_loop E s = Some r \<and> id_created ids 2 s r"
proof (cases "result E (invoke (BT Id_create) s) < 0")
  case True
  then show ?thesis by (subst app_id_create_loop.simps) (auto simp: Let_def id_created_def)
next
  case False
  note c = identitiesD(3,4) [OF assms(1) False]
  then have "ids (trace (invoke (BT Id_create) s)) = APP_BT_ID" using assms(2) by (simp add: APP_BT_ID_def)
  from id_loop_last [OF assms(1) this] obtain r where
    "app_id_create_loop E (invoke (BT Id_create) s) = Some r" "id_created ids 1 (invoke (BT Id_create) s) r" by blast
  then show ?thesis using c False assms(2)
    by (subst app_id_create_loop.simps) (auto simp: Let_def id_created_def APP_BT_ID_def
        intro: only_calls_trans [OF only_calls_invoke])
qed

lemma id_create_returns:
  assumes "identities E ids"
  shows "\<exists>r. app_id_create E s = Some r \<and> id_created ids 2 s r"
proof -
  define s1 where "s1 = invoke (BT Id_get) s"
  have i: "outval E s1 = int (ids (trace s))" "ids (trace s1) = ids (trace s)" "creates (trace s1) = creates (trace s)"
    using identitiesD(1,2) [OF assms, of s] by (simp_all add: s1_def)
  have c: "only_calls s s1" by (simp add: s1_def)
  consider "APP_BT_ID < ids (trace s)" | "ids (trace s) = APP_BT_ID" | "ids (trace s) = 0"
    by (force simp: APP_BT_ID_def)
  then show ?thesis
  proof cases
    case 1
    then show ?thesis using i c by (simp add: app_id_create_def Let_def id_created_def flip: s1_def)
  next
    case 2
    with id_loop_last [OF assms, of s1] i show ?thesis
      by (auto simp: app_id_create_def Let_def id_created_def simp flip: s1_def intro: only_calls_trans [OF c])
  next
    case 3
    with id_loop_first [OF assms, of s1] i show ?thesis
      by (auto simp: app_id_create_def Let_def id_created_def APP_BT_ID_def simp flip: s1_def intro: only_calls_trans [OF c])
  qed
qed

text \<open>
  C25: The identity loop ends.  With a host that numbers identities consecutively,
  \<open>app_id_create\<close> returns after at most two creations: with success, and then the
  application's identity exists, or with the negative code of a failed creation.
\<close>

theorem app_id_create_terminates:
  assumes "identities E ids"
  shows "\<exists>r t. app_id_create E s = Some (r, t) \<and> (r = 0 \<longrightarrow> APP_BT_ID < ids (trace t)) \<and> r \<le> 0
    \<and> creates (trace t) \<le> creates (trace s) + 2"
  using id_create_returns [OF assms, of s] by (auto simp: id_created_def)

text \<open>A host with one identity after its start and no limit.\<close>

definition host_env :: env where
  "host_env = (const_env 0)\<lparr>ret := (\<lambda>es. if last es = BT Id_create then int (creates es) else 0),
     out := (\<lambda>es. int (Suc (creates es)))\<rparr>"

lemma host_env_identities: "identities host_env (\<lambda>es. Suc (creates es))"
  by (simp add: identities_def host_env_def)

theorem app_id_create_terminates_witness:
  "\<exists>r t. app_id_create host_env app_init_state = Some (r, t) \<and> creates (trace t) \<le> 2"
  using app_id_create_terminates [OF host_env_identities, of app_init_state] by auto

section \<open>Steps\<close>

lemma run_steps_append:
  "run_steps (fs @ gs) s = (case run_steps fs s of None \<Rightarrow> None
     | Some (err, t) \<Rightarrow> if err \<noteq> 0 \<or> halted t \<noteq> None then Some (err, t) else run_steps gs t)"
  if "halted s = None"
  using that by (induction fs arbitrary: s) (auto split: option.split)

text \<open>A step that succeeds establishes \<open>Q\<close> from \<open>P\<close>, if the processor still runs.\<close>

definition achieves :: "('a io_scheme \<Rightarrow> bool) \<Rightarrow> ('a io_scheme \<Rightarrow> (int \<times> 'a io_scheme) option) \<Rightarrow> ('a io_scheme \<Rightarrow> bool) \<Rightarrow> bool" where
  "achieves P f Q \<longleftrightarrow> (\<forall>s t. P s \<longrightarrow> halted s = None \<longrightarrow> f s = Some (0, t) \<longrightarrow> halted t = None \<longrightarrow> Q t)"

lemma steps_achieve_Nil: "achieves P (run_steps []) P"
  by (simp add: achieves_def)

lemma steps_achieve_Cons:
  assumes "achieves P f Q" "achieves Q (run_steps fs) R"
  shows "achieves P (run_steps (f # fs)) R"
  using assms by (fastforce simp: achieves_def split: option.splits if_splits)

lemma steps_achieve_append:
  assumes "achieves P (run_steps fs) Q" "achieves Q (run_steps gs) R"
  shows "achieves P (run_steps (fs @ gs)) R"
  using assms by (fastforce simp: achieves_def run_steps_append split: option.splits if_splits)

lemma steps_keep: "list_all (\<lambda>f. achieves P f P) fs \<Longrightarrow> achieves P (run_steps fs) P"
  by (induction fs) (auto intro: steps_achieve_Nil steps_achieve_Cons)

section \<open>What the steps of the boot achieve\<close>

definition data_ready :: "'a app_sys_scheme \<Rightarrow> bool" where
  "data_ready s \<longleftrightarrow> wf_data s \<and> magic_ok s"

text \<open>Everything the running firmware relies on.\<close>

definition boot_ready :: "'a app_sys_scheme \<Rightarrow> bool" where
  "boot_ready s \<longleftrightarrow> data_ready s \<and> adv_set (adv s) \<noteq> None \<and> app_fp_adv_is_ready s"

text \<open>The Fast Pair module keeps the persistent data and the Vision advertiser.\<close>

definition same_store :: "'a fp_sys_scheme \<Rightarrow> 'a fp_sys_scheme \<Rightarrow> bool" where
  "same_store s t \<longleftrightarrow> gd t = gd s \<and> adv t = adv s"

lemma gd_check [simp]: "gd (check w b s) = gd s"
  by (simp add: check_def)

interpretation ss: fp_frame same_store
  by unfold_locales (auto simp: same_store_def)

lemma data_ready_store: "same_store s t \<Longrightarrow> data_ready s \<Longrightarrow> data_ready t"
  by (simp add: same_store_def data_ready_def wf_data_def magic_ok_def)

lemma wf_data_same: "gd t = gd s \<Longrightarrow> wf_data s \<Longrightarrow> wf_data t"
  by (simp add: wf_data_def)

lemma gd_battery_updates [simp]: "gd (updateAdvBatmV E v s) = gd s" "gd (updateAdvBatLevel E p s) = gd s"
  by (simp_all add: updateAdvBatmV_def updateAdvBatLevel_def push_payload_def Let_def split: option.split)

lemma gd_battery_measure [simp]: "gd (snd (battery_measure E s)) = gd s"
  by (simp add: battery_measure_def battery_voltage_get_def voltage_to_percent_convert_def Let_def)

lemma gd_battery_init [simp]: "gd (snd (app_battery_init E s)) = gd s"
proof -
  obtain e t where p: "battery_measure E (snd (battery_init E s)) = (e, t)" by fastforce
  have "gd t = gd (snd (battery_init E s))" using gd_battery_measure [of E "snd (battery_init E s)"] by (simp add: p)
  also have "\<dots> = gd s" by (simp add: battery_init_def Let_def)
  finally show ?thesis
    using p
    by (cases "battery_init E s") (simp add: app_battery_init_def battery_level_set_init_def battery_level_set_def Let_def
        battery_init_def split: if_splits)
qed

lemma gd_ui_init [simp]: "gd (snd (app_ui_init E s)) = gd s"
  by (simp add: app_ui_init_def app_ui_speaker_init_def Let_def)

lemma gd_call [simp]: "gd (snd (call E e s)) = gd s"
  by (simp add: call_def Let_def)

lemma gd_ring_init [simp]: "gd (snd (app_ring_init E s)) = gd s"
  by (simp add: app_ring_init_def Let_def)

lemma wf_data_nvs_init [simp]: "wf_data (snd (app_nvs_handler_init E s)) = wf_data s"
  by (simp add: app_nvs_handler_init_def wf_data_def Let_def)

lemma achieves_sameI:
  assumes "\<And>s e t. halted s = None \<Longrightarrow> halted t = None \<Longrightarrow> f s = Some (e, t) \<Longrightarrow> same_store s t"
    and "\<And>s t. same_store s t \<Longrightarrow> P s \<Longrightarrow> P t"
  shows "achieves P f P"
  unfolding achieves_def using assms by blast

lemma storage_achieves:
  "achieves wf_data (\<lambda>s. Some (app_storage_verify_and_load E s)) data_ready"
  by (auto simp: achieves_def data_ready_def write_failed_def dest: boot_stages)

lemma platform_achieves:
  assumes "identities E ids"
  shows "achieves wf_data (run_steps (init_steps_platform E)) data_ready"
proof -
  have k: "achieves wf_data (\<lambda>s. Some (g s)) wf_data" if "\<And>s. wf_data (snd (g s)) = wf_data s" for g :: "'a app_sys_scheme \<Rightarrow> int \<times> 'a app_sys_scheme"
    unfolding achieves_def
  proof (intro allI impI)
    fix s t :: "'a app_sys_scheme"
    assume "wf_data s" "Some (g s) = Some (0, t)"
    then show "wf_data t" using that [of s] by simp
  qed
  have w: "wf_data (snd (g s)) = wf_data s" if "\<And>s. gd (snd (g s)) = gd s" for g :: "'a app_sys_scheme \<Rightarrow> int \<times> 'a app_sys_scheme" and s
    using that by (simp add: wf_data_def)
  have i: "achieves wf_data (app_id_create E :: 'a app_sys_scheme \<Rightarrow> _) wf_data"
  proof -
    have "gd t = gd s" if "app_id_create E s = Some (0, t)" for s t :: "'a app_sys_scheme"
    proof -
      have "only_calls s t" using id_create_returns [OF assms, of s] that by (simp add: id_created_def)
      then show ?thesis by (auto simp: only_calls_def)
    qed
    then show ?thesis by (auto simp: achieves_def intro: wf_data_same)
  qed
  have n: "achieves wf_data (\<lambda>s :: 'a app_sys_scheme. Some (app_nvs_handler_init E s)) wf_data" by (rule k) simp
  have g: "achieves wf_data (\<lambda>s. Some (g s)) wf_data" if "\<And>s. gd (snd (g s)) = gd s" for g :: "'a app_sys_scheme \<Rightarrow> int \<times> 'a app_sys_scheme"
    using that by (intro k w)
  have "list_all (\<lambda>f. achieves wf_data f wf_data) (butlast (init_steps_platform E) :: ('a app_sys_scheme \<Rightarrow> _) list)"
    by (simp only: init_steps_platform_def butlast.simps list.distinct if_False if_True list.pred_inject simp_thms)
      (intro conjI g i n gd_ui_init gd_call gd_battery_init gd_ring_init)
  then have "achieves wf_data (run_steps (butlast (init_steps_platform E) :: ('a app_sys_scheme \<Rightarrow> _) list)) wf_data"
    by (rule steps_keep)
  then have "achieves wf_data (run_steps (butlast (init_steps_platform E) @ [\<lambda>s :: 'a app_sys_scheme. Some (app_storage_verify_and_load E s)])) data_ready"
    by (rule steps_achieve_append) (rule steps_achieve_Cons [OF storage_achieves steps_achieve_Nil])
  moreover have e: "butlast (init_steps_platform E) @ [\<lambda>s :: 'a app_sys_scheme. Some (app_storage_verify_and_load E s)] = init_steps_platform E"
    by (simp add: init_steps_platform_def)
  ultimately show ?thesis by (simp only: e)
qed

section \<open>The steps of the application\<close>

lemma fast_pair_prepare_store: "same_store s (snd (fast_pair_prepare E s))"
  by (simp add: fast_pair_prepare_def and_then_def app_fp_adv_init_def app_fp_adv_id_set_def app_fp_adv_info_cb_register_def
      same_store_def Let_def)

lemma fmdn_prepare_store: "same_store s (snd (fmdn_prepare E s))"
  by (simp add: fmdn_prepare_def and_then_def call_def same_store_def Let_def CONFIG_BT_FAST_PAIR_FMDN_DULT_MOTION_DETECTOR_def)

lemma gd_vision_id [simp]: "gd (snd (app_vision_custom_id_create E s)) = gd s"
  by (simp add: app_vision_custom_id_create_def Let_def)

lemma custom_init_effect:
  assumes "ble_adv_custom_init E s = (e, t)"
  shows "gd t = gd s \<and> (e = 0 \<longrightarrow> adv_set (adv t) \<noteq> None)"
proof -
  have g: "gd u = gd v" if "app_vision_custom_id_create E v = (r, u)" for r and u v :: "'a adv_sys_scheme"
    using gd_vision_id [of E v] that by simp
  show ?thesis
    using assms by (auto simp: ble_adv_custom_init_def Let_def simp del: snd_conv dest!: g split: prod.splits if_splits)
qed

lemma vision_frame_effect:
  "vision_frame_prepare E s = (0, t) \<Longrightarrow> gd t = gd s \<and> adv_set (adv t) \<noteq> None"
  using custom_init_effect [of E s]
  by (auto simp: vision_frame_prepare_def and_then_def ble_custom_service_init_def Let_def split: prod.splits if_splits)

lemma reset_init_store:
  assumes "halted s = None" "app_factory_reset_init E (factory_reset_cbs E) s = (e, t)" "halted t = None"
  shows "same_store s t"
proof -
  define s1 where "s1 = check ''IDLE'' (factory_reset_state (fr s) = APP_FACTORY_RESET_STATE_IDLE) s"
  define s2 where "s2 = upd_fr (factory_reset_ui_requested_update (\<lambda>_. False)) s1"
  have h: "halted s2 = None" using assms(1) by (simp add: s2_def s1_def)
  show ?thesis
  proof (cases "factory_reset_ui_requested (fr s1)")
    case True
    then have t: "t = factory_reset_perform E (factory_reset_cbs E) s2"
      using assms(2) by (simp add: app_factory_reset_init_def Let_def s2_def flip: s1_def)
    then have "factory_reset_state (fr s2) = APP_FACTORY_RESET_STATE_IN_PROGRESS"
      using perform_spec [OF reset_cbs_ok [of E] _ h, of E] assms(3) by auto
    then show ?thesis
      by (simp add: t factory_reset_perform_def Let_def same_store_def) (simp add: s2_def s1_def)
  next
    case False
    then show ?thesis
      using assms(2) by (simp add: app_factory_reset_init_def Let_def same_store_def flip: s1_def) (auto simp: s1_def)
  qed
qed

lemma enable_effect: "app_fp_adv_enable E s = (0, t) \<Longrightarrow> app_fp_adv_is_ready t"
  by (auto simp: app_fp_adv_enable_def app_fp_adv_is_ready_def Let_def split: prod.splits if_splits)

text \<open>Data loaded and the Vision set created.\<close>

definition store_ready :: "'a app_sys_scheme \<Rightarrow> bool" where
  "store_ready s \<longleftrightarrow> data_ready s \<and> adv_set (adv s) \<noteq> None"

lemma store_ready_same: "same_store s t \<Longrightarrow> store_ready s \<Longrightarrow> store_ready t"
  using data_ready_store [of s t] by (auto simp: store_ready_def same_store_def)

lemma app_achieves: "achieves data_ready (run_steps (init_steps_app E)) boot_ready"
proof -
  have a: "achieves P (\<lambda>s. Some (g s)) P" if "\<And>s. same_store s (snd (g s))" "\<And>s t. same_store s t \<Longrightarrow> P s \<Longrightarrow> P t"
    for P and g :: "'a app_sys_scheme \<Rightarrow> int \<times> 'a app_sys_scheme"
    using that by (intro achieves_sameI) (metis option.inject snd_conv)+
  have c: "same_store s (snd (call E e s))" for e and s :: "'a app_sys_scheme"
    by (simp add: call_def same_store_def Let_def)
  have v: "achieves data_ready (\<lambda>s :: 'a app_sys_scheme. Some (vision_frame_prepare E s)) store_ready"
    by (auto simp: achieves_def store_ready_def data_ready_def wf_data_def magic_ok_def dest!: vision_frame_effect)
  have r: "achieves store_ready (\<lambda>s :: 'a app_sys_scheme. Some (app_factory_reset_init E (factory_reset_cbs E) s)) store_ready"
    by (rule achieves_sameI [OF _ store_ready_same]) (auto intro: reset_init_store)
  have f: "achieves store_ready (\<lambda>s :: 'a app_sys_scheme. Some (app_fp_adv_enable E s)) boot_ready"
    unfolding achieves_def
  proof (intro allI impI)
    fix s t :: "'a app_sys_scheme"
    assume s: "store_ready s" "Some (app_fp_adv_enable E s) = Some (0, t)"
    then have "same_store s t" using ss.R_enable [of s s E] by (simp add: same_store_def)
    with s enable_effect [of E s t] store_ready_same show "boot_ready t"
      by (auto simp: boot_ready_def store_ready_def)
  qed
  note d = data_ready_store
  show ?thesis
    unfolding init_steps_app_def
    by (intro steps_achieve_Cons [OF a [OF fast_pair_prepare_store d]] steps_achieve_Cons [OF a [OF fmdn_prepare_store d]]
        steps_achieve_Cons [OF v] steps_achieve_Cons [OF r] steps_achieve_Cons [OF a [OF c store_ready_same]]
        steps_achieve_Cons [OF f] steps_achieve_Nil)
qed

section \<open>The semaphore\<close>

text \<open>No step of the boot gives the semaphore that \<open>main\<close> waits for.\<close>

definition silent :: "'a io_scheme \<Rightarrow> 'a io_scheme \<Rightarrow> bool" where
  "silent s t \<longleftrightarrow> (K Sem_give \<in> set (trace t) \<longleftrightarrow> K Sem_give \<in> set (trace s))"

lemma silent_refl [simp]: "silent s s"
  by (simp add: silent_def)

lemma silent_trans: "silent s t \<Longrightarrow> silent t u \<Longrightarrow> silent s u"
  by (simp add: silent_def)

lemma silent_invoke [simp]: "e \<noteq> K Sem_give \<Longrightarrow> silent s (invoke e t) = silent s t"
  "silent s (lock m t) = silent s t" "silent s (unlock m t) = silent s t" "silent s (check w b t) = silent s t"
  by (auto simp: silent_def check_def)

lemma silent_gd [simp]: "silent s (t\<lparr>gd := g\<rparr>) = silent s t"
  by (simp add: silent_def)

lemma silent_adv [simp]: "silent s (t\<lparr>adv := a\<rparr>) = silent s t"
  by (simp add: silent_def)

lemma silent_bat [simp]: "silent s (t\<lparr>bat := b\<rparr>) = silent s t"
  by (simp add: silent_def)

lemma silent_fp [simp]: "silent s (t\<lparr>fp := f\<rparr>) = silent s t"
  by (simp add: silent_def)

lemma silent_fr [simp]: "silent s (t\<lparr>fr := r\<rparr>) = silent s t"
  by (simp add: silent_def)

lemma silent_app [simp]: "silent s (t\<lparr>app := p\<rparr>) = silent s t"
  by (simp add: silent_def)

lemma silent_svc [simp]: "silent s (t\<lparr>svc := q\<rparr>) = silent s t"
  by (simp add: silent_def)

lemma silent_dfu [simp]: "silent s (t\<lparr>dfu := d\<rparr>) = silent s t"
  by (simp add: silent_def)

lemma silent_indicate [simp]: "silent s (app_ui_state_change_indicate E st a t) = silent s t"
  by (auto simp: silent_def app_ui_state_change_indicate_def app_ui_speaker_off_def Let_def)

interpretation sl: fp_frame silent
proof
  fix s :: "'a fp_sys_scheme" and e
  show "fp_adv_event e \<Longrightarrow> silent s (invoke e s)" by (cases e rule: fp_adv_event.cases) auto
qed (auto intro: silent_trans)

lemma silent_and_then: "silent s (snd r) \<Longrightarrow> (\<And>t. silent s t \<Longrightarrow> silent s (snd (f t))) \<Longrightarrow> silent s (snd (and_then r f))"
  by (cases r) (simp add: and_then_def)

lemma silent_call [simp]: "e \<noteq> K Sem_give \<Longrightarrow> silent s (snd (call E e t)) = silent s t"
  by (simp add: call_def Let_def)

lemma silent_steps [simp]: "silent s t \<Longrightarrow> silent s (snd (factory_reset_steps E r a t))"
  by (simp add: factory_reset_steps_def silent_and_then)

lemma silent_prepare [simp]: "silent s t \<Longrightarrow> silent s (factory_reset_prepare (factory_reset_cbs E) t)"
  for s t :: "'a app_sys_scheme"
  by (simp add: factory_reset_prepare_def factory_reset_cbs_def fmdn_factory_reset_prepare_def dfu_factory_reset_prepare_def
      dfu_mode_change_def Let_def sl.R_request)

lemma silent_executed [simp]: "silent s t \<Longrightarrow> silent s (factory_reset_executed (factory_reset_cbs E) t)"
  for s t :: "'a app_sys_scheme"
  by (simp add: factory_reset_executed_def factory_reset_cbs_def fmdn_factory_reset_executed_def Let_def)

lemma silent_halt [simp]: "silent s (k_panic t) = silent s t" "silent s (sys_reboot t) = silent s t"
  by (auto simp: silent_def k_panic_def sys_reboot_def)

lemma silent_perform [simp]:
  fixes s t :: "'a app_sys_scheme"
  assumes "silent s t"
  shows "silent s (factory_reset_perform E (factory_reset_cbs E) t)"
proof -
  define s1 where "s1 = invoke (FP Fp_is_ready) t"
  define s3 where "s3 = factory_reset_prepare (factory_reset_cbs E)
    (s1\<lparr>fr := (fr s1)\<lparr>factory_reset_state := APP_FACTORY_RESET_STATE_IN_PROGRESS\<rparr>\<rparr>)"
  obtain err s4 where p: "factory_reset_steps E (result E s1 \<noteq> 0) (app_fp_adv_is_ready s1) s3 = (err, s4)" by fastforce
  have "silent s s3" using assms by (simp add: s3_def s1_def)
  then have "silent s s4" using silent_steps [of s s3 E "result E s1 \<noteq> 0" "app_fp_adv_is_ready s1"] by (simp add: p)
  then show ?thesis
    using assms p by (simp add: factory_reset_perform_def Let_def flip: s1_def s3_def) (simp add: s1_def)
qed

lemma silent_data [simp]: "silent s (set_ProductionData p t) = silent s t" "silent s (set_ConfigData c t) = silent s t"
  "silent s (set_DynamicData d t) = silent s t"
  by (simp_all add: silent_def)

lemma silent_nvs [simp]:
  "silent s (snd (write_nvs_data E k b t)) = silent s t"
  "silent s (snd (snd (read_nvs_data E k b t))) = silent s t"
  by (simp_all add: write_nvs_data_def read_nvs_data_def Let_def)

lemma silent_verify:
  "silent s (snd (verify_production E s))" "silent s (snd (verify_config E s))" "silent s (snd (verify_dynamic E s))"
  by (auto simp: verify_production_def verify_config_def verify_dynamic_def Let_def split: prod.split
      dest!: read_nvs_dataD write_nvs_dataD)

lemma silent_storage: "silent s (snd (app_storage_verify_and_load E s))"
proof -
  obtain r1 s1 where 1: "verify_production E s = (r1, s1)" by fastforce
  obtain r2 s2 where 2: "verify_config E s1 = (r2, s2)" by fastforce
  obtain r3 s3 where 3: "verify_dynamic E s2 = (r3, s3)" by fastforce
  have "silent s s1" "silent s1 s2" "silent s2 s3"
    using silent_verify(1) [of s E] silent_verify(2) [of s1 E] silent_verify(3) [of s2 E] by (simp_all add: 1 2 3)
  then have "silent s s1" "silent s s2" "silent s s3" by (blast intro: silent_trans)+
  then show ?thesis
    by (simp add: app_storage_verify_and_load_def 1 2 3 read_raw_factory_mac_def Let_def)
qed

lemma silent_battery_updates [simp]: "silent s (updateAdvBatmV E v t) = silent s t" "silent s (updateAdvBatLevel E p t) = silent s t"
  by (auto simp: updateAdvBatmV_def updateAdvBatLevel_def push_payload_def Let_def silent_def split: option.split)

lemma silent_battery_init: "silent s (snd (app_battery_init E s))"
proof -
  obtain e t where p: "battery_measure E (snd (battery_init E s)) = (e, t)" by fastforce
  have "silent s (snd (battery_measure E u))" if "silent s u" for u
    using that by (simp add: battery_measure_def battery_voltage_get_def voltage_to_percent_convert_def Let_def)
  moreover have "silent s (snd (battery_init E s))" by (simp add: battery_init_def Let_def)
  ultimately have "silent s t" "silent s (snd (battery_init E s))" using p by (metis snd_conv)+
  with p show ?thesis
    by (cases "battery_init E s") (simp add: app_battery_init_def battery_level_set_init_def battery_level_set_def Let_def)
qed

lemma silent_custom_init: "silent s (snd (ble_adv_custom_init E s))"
proof -
  have "silent s (snd (app_vision_custom_id_create E t)) = silent s t" for t :: "'a adv_sys_scheme"
    by (simp add: app_vision_custom_id_create_def Let_def)
  then have i: "silent s u = silent s t" if "app_vision_custom_id_create E t = (r, u)" for r and t u :: "'a adv_sys_scheme"
    using that by (metis snd_conv)
  show ?thesis
    by (auto simp: ble_adv_custom_init_def Let_def i split: prod.split)
qed

text \<open>The steps do not return without a result, and leave the semaphore alone.\<close>

definition quiet_step :: "('a app_sys_scheme \<Rightarrow> (int \<times> 'a app_sys_scheme) option) \<Rightarrow> bool" where
  "quiet_step f \<longleftrightarrow> (\<forall>s. \<exists>r. f s = Some r \<and> silent s (snd r))"

lemma quiet_stepI: "(\<And>s. silent s (snd (g s))) \<Longrightarrow> quiet_step (\<lambda>s. Some (g s))"
  by (simp add: quiet_step_def)

lemma quiet_run_steps:
  "list_all quiet_step fs \<Longrightarrow> \<exists>r. run_steps fs s = Some r \<and> silent s (snd r)"
proof (induction fs arbitrary: s)
  case (Cons f fs)
  then have "quiet_step f" by simp
  then obtain r where r: "f s = Some r" "silent s (snd r)" unfolding quiet_step_def by blast
  moreover obtain r' where "run_steps fs (snd r) = Some r'" "silent (snd r) (snd r')"
    using Cons.IH [of "snd r"] Cons.prems by auto
  ultimately show ?case by (cases r; cases r') (auto intro: silent_trans)
qed simp

lemma quiet_id_create:
  assumes "identities E ids"
  shows "quiet_step (app_id_create E :: 'a app_sys_scheme \<Rightarrow> _)"
  unfolding quiet_step_def
proof
  fix s :: "'a app_sys_scheme"
  obtain r where r: "app_id_create E s = Some r" "only_calls s (snd r)"
    using id_create_returns [OF assms, of s] by (auto simp: id_created_def)
  then have "silent s (snd r)" by (auto simp: only_calls_def silent_def)
  with r show "\<exists>r. app_id_create E s = Some r \<and> silent s (snd r)" by blast
qed

lemma quiet_boot:
  assumes "identities E ids"
  shows "list_all quiet_step (init_steps_platform E @ init_steps_app E :: ('a app_sys_scheme \<Rightarrow> _) list)"
proof -
  have ui: "silent s (snd (app_ui_init E s))" for s :: "'a app_sys_scheme"
    by (simp add: app_ui_init_def app_ui_speaker_init_def Let_def)
  have ring: "silent s (snd (app_ring_init E s))" for s :: "'a app_sys_scheme"
    by (simp add: app_ring_init_def Let_def)
  have nvs: "silent s (snd (app_nvs_handler_init E s))" for s :: "'a app_sys_scheme"
    by (simp add: app_nvs_handler_init_def Let_def)
  have fast: "silent s (snd (fast_pair_prepare E s))" for s :: "'a app_sys_scheme"
    by (simp add: fast_pair_prepare_def and_then_def app_fp_adv_init_def app_fp_adv_id_set_def app_fp_adv_info_cb_register_def
        Let_def)
  have fmdn: "silent s (snd (fmdn_prepare E s))" for s :: "'a app_sys_scheme"
    by (simp add: fmdn_prepare_def silent_and_then CONFIG_BT_FAST_PAIR_FMDN_DULT_MOTION_DETECTOR_def)
  have svc: "silent s (snd (ble_custom_service_init t))" if "silent s t" for s t :: "'a app_sys_scheme"
    using that by (simp add: ble_custom_service_init_def Let_def)
  have vision: "silent s (snd (vision_frame_prepare E s))" for s :: "'a app_sys_scheme"
    unfolding vision_frame_prepare_def by (rule silent_and_then [OF silent_custom_init svc])
  have reset: "silent s (snd (app_factory_reset_init E (factory_reset_cbs E) s))" for s :: "'a app_sys_scheme"
    by (simp add: app_factory_reset_init_def Let_def)
  have c: "silent s (snd (call E e s))" if "e \<noteq> K Sem_give" for e and s :: "'a app_sys_scheme"
    using that by simp
  have en: "silent s (snd (app_fp_adv_enable E s))" for s :: "'a app_sys_scheme"
    by simp
  show ?thesis
    by (simp only: init_steps_platform_def init_steps_app_def append.simps list.pred_inject simp_thms)
      (intro conjI quiet_stepI ui c ring nvs fast fmdn vision reset en quiet_id_create [OF assms] silent_battery_init
        silent_storage; simp)
qed

section \<open>Properties of the boot\<close>

text \<open>The boot ends early: a step failed or halted the processor.\<close>

definition boot_stopped :: "env \<Rightarrow> 'a app_sys_scheme \<Rightarrow> bool" where
  "boot_stopped E s \<longleftrightarrow> (\<exists>err t. run_steps (init_steps_platform E @ init_steps_app E) s = Some (err, t)
     \<and> (err \<noteq> 0 \<or> halted t \<noteq> None))"

text \<open>
  C11: The boot.  With a host that numbers identities consecutively, the initialisation
  returns.  It gives the semaphore that \<open>main\<close> waits for exactly when no step failed or
  halted the processor, and then the persistent data are valid, the Vision advertising set
  exists and the Fast Pair advertising module is enabled before the last part runs.
\<close>

theorem boot_outcome:
  fixes E and s :: "'a app_sys_scheme"
  assumes "identities E ids" and "wf_data s" and "halted s = None" and "K Sem_give \<notin> set (trace s)"
  shows "\<exists>t. init_work_handle E s = Some t
    \<and> (K Sem_give \<in> set (trace t) \<longleftrightarrow> \<not> boot_stopped E s)
    \<and> (boot_stopped E s \<or> (\<exists>u. boot_ready u \<and> t = init_finish E u))"
proof -
  let ?fs = "init_steps_platform E @ init_steps_app E :: ('a app_sys_scheme \<Rightarrow> _) list"
  obtain err u where r: "run_steps ?fs s = Some (err, u)" "silent s u"
    using quiet_run_steps [OF quiet_boot [OF assms(1)], of s] by (auto simp: split_paired_all)
  have "achieves wf_data (run_steps ?fs) boot_ready"
    by (rule steps_achieve_append [OF platform_achieves [OF assms(1)] app_achieves])
  then have b: "boot_ready u" if "err = 0" "halted u = None"
    using that r(1) assms(2,3) by (auto simp: achieves_def)
  have f: "K Sem_give \<in> set (trace (init_finish E u))"
    by (simp add: init_finish_def Let_def split: prod.split)
  show ?thesis
  proof (cases "err \<noteq> 0 \<or> halted u \<noteq> None")
    case True
    then have "init_work_handle E s = Some u" "boot_stopped E s"
      using r(1) by (auto simp: init_work_handle_def boot_stopped_def)
    then show ?thesis using r(2) assms(4) by (auto simp: silent_def)
  next
    case False
    then have "init_work_handle E s = Some (init_finish E u)" "\<not> boot_stopped E s"
      using r(1) by (auto simp: init_work_handle_def boot_stopped_def)
    then show ?thesis using b False f by auto
  qed
qed

text \<open>
  A boot that succeeds: two identities exist, every device is ready, the flash is empty (its
  reads fail) and every other call returns 0.
\<close>

definition good_env :: env where
  "good_env = (const_env 0)\<lparr>
     ret := (\<lambda>es. case last es of DEV (Device_is_ready d) \<Rightarrow> 1 | DEV Adc_is_ready \<Rightarrow> 1 | DEV (Nvs_read k n) \<Rightarrow> -1
       | BT Id_create \<Rightarrow> int (Suc (creates es)) | _ \<Rightarrow> 0),
     out := (\<lambda>es. int (2 + creates es))\<rparr>"

lemma good_env_identities: "identities good_env (\<lambda>es. 2 + creates es)"
  by (simp add: identities_def good_env_def)

lemma good_result [simp]: "result good_env (invoke e s) = (case e of DEV (Device_is_ready d) \<Rightarrow> 1 | DEV Adc_is_ready \<Rightarrow> 1
    | DEV (Nvs_read k n) \<Rightarrow> -1 | BT Id_create \<Rightarrow> int (2 + creates (trace s)) | _ \<Rightarrow> 0)"
  by (simp add: good_env_def result_def split: ev.split dev_call.split bt_call.split)

lemma good_ids [simp]: "outval good_env s = int (2 + creates (trace s))"
  by (simp add: good_env_def outval_def)

definition passes :: "('a app_sys_scheme \<Rightarrow> bool) \<Rightarrow> ('a app_sys_scheme \<Rightarrow> (int \<times> 'a app_sys_scheme) option) \<Rightarrow> ('a app_sys_scheme \<Rightarrow> bool) \<Rightarrow> bool" where
  "passes P f Q \<longleftrightarrow> (\<forall>s. P s \<longrightarrow> halted s = None \<longrightarrow> (\<exists>t. f s = Some (0, t) \<and> halted t = None \<and> Q t))"

lemma passes_steps: "passes P (run_steps []) P"
  "passes P f Q \<Longrightarrow> passes Q (run_steps fs) R \<Longrightarrow> passes P (run_steps (f # fs)) R"
  by (fastforce simp: passes_def)+

text \<open>The state before the Fast Pair module is prepared, and before it is enabled.\<close>

definition fresh :: "bool \<Rightarrow> 'a app_sys_scheme \<Rightarrow> bool" where
  "fresh cb s \<longleftrightarrow> \<not> is_enabled (fp s) \<and> (cb \<longrightarrow> \<not> fast_pair_adv_info_cb (fp s)) \<and> \<not> factory_reset_ui_requested (fr s)"

definition steady :: "'a app_sys_scheme \<Rightarrow> int \<times> 'a app_sys_scheme \<Rightarrow> bool" where
  "steady s r \<longleftrightarrow> fst r = 0 \<and> halted (snd r) = halted s \<and> fp (snd r) = fp s \<and> fr (snd r) = fr s"

lemma steady_passes: "(\<And>s. steady s (g s)) \<Longrightarrow> passes (fresh cb) (\<lambda>s. Some (g s)) (fresh cb)"
  unfolding passes_def
proof (intro allI impI)
  fix s :: "'a app_sys_scheme"
  assume s: "\<And>s. steady s (g s)" "fresh cb s" "halted s = None"
  obtain e t where g: "g s = (e, t)" by fastforce
  with s(1) [of s] s(2,3) show "\<exists>t. Some (g s) = Some (0, t) \<and> halted t = None \<and> fresh cb t"
    by (simp add: steady_def fresh_def)
qed

lemma battery_update_frame [simp]:
  "fp (updateAdvBatmV E v s) = fp s" "fr (updateAdvBatmV E v s) = fr s" "halted (updateAdvBatmV E v s) = halted s"
  "fp (updateAdvBatLevel E p s) = fp s" "fr (updateAdvBatLevel E p s) = fr s" "halted (updateAdvBatLevel E p s) = halted s"
  for s :: "'a app_sys_scheme"
  by (simp_all add: updateAdvBatmV_def updateAdvBatLevel_def push_payload_def Let_def split: option.split)

lemma steady_platform:
  "steady s (app_ui_init good_env s)" "steady s (app_ring_init good_env s)" "steady s (app_nvs_handler_init good_env s)"
  "steady s (app_battery_init good_env s)" "steady s (app_storage_verify_and_load good_env s)"
  by (simp_all add: steady_def app_ui_init_def app_ui_speaker_init_def app_ring_init_def app_nvs_handler_init_def
      app_battery_init_def battery_init_def battery_level_set_init_def battery_level_set_def battery_measure_def
      battery_voltage_get_def voltage_to_percent_convert_def app_storage_verify_and_load_def verify_production_def
      verify_config_def verify_dynamic_def read_nvs_data_def write_nvs_data_def read_raw_factory_mac_def
      set_ProductionData_def set_ConfigData_def set_DynamicData_def Let_def)

lemma steady_app:
  "steady s (fmdn_prepare good_env s)" "steady s (vision_frame_prepare good_env s)"
  by (simp_all add: steady_def fmdn_prepare_def and_then_def call_def CONFIG_BT_FAST_PAIR_FMDN_DULT_MOTION_DETECTOR_def
      vision_frame_prepare_def ble_adv_custom_init_def app_vision_custom_id_create_def ble_custom_service_init_def Let_def)

lemma good_calls:
  "e \<in> {BT Conn_auth_cb_register, BT Gatt_authorization_cb_register, BT Bt_enable, BT Settings_load, FP Fp_enable} \<Longrightarrow>
   steady s (call good_env e s)"
  by (auto simp: steady_def call_def Let_def)

lemma good_id_create: "passes (fresh cb) (app_id_create good_env) (fresh cb)"
  by (simp add: passes_def app_id_create_def Let_def APP_BT_ID_def fresh_def)

lemma good_fast_pair: "passes (fresh True) (\<lambda>s. Some (fast_pair_prepare good_env s)) (fresh False)"
  by (simp add: passes_def fast_pair_prepare_def and_then_def app_fp_adv_init_def app_fp_adv_id_set_def
      app_fp_adv_info_cb_register_def app_fp_adv_is_ready_def fresh_def Let_def)

lemma good_reset_init:
  "passes (fresh False) (\<lambda>s. Some (app_factory_reset_init good_env (factory_reset_cbs good_env) s)) (fresh False)"
  by (simp add: passes_def app_factory_reset_init_def Let_def fresh_def)

lemma good_enable: "passes (fresh False) (\<lambda>s. Some (app_fp_adv_enable good_env s)) (\<lambda>_. True)"
  unfolding passes_def
proof (intro allI impI)
  fix s :: "'a app_sys_scheme"
  assume s: "fresh False s" "halted s = None"
  have "halted (snd (app_fp_adv_enable good_env s)) = None"
    using cf.R_enable [of s s good_env] s(2) by (simp add: confined_def)
  moreover have "fst (app_fp_adv_enable good_env s) = 0"
    using s(1) by (simp add: fresh_def app_fp_adv_enable_def fp_adv_state_read_def fp_adv_set_setup_def fp_adv_set_rotate_def
        Let_def split: prod.split)
  ultimately show "\<exists>t. Some (app_fp_adv_enable good_env s) = Some (0, t) \<and> halted t = None \<and> True"
    by (cases "app_fp_adv_enable good_env s") simp
qed

lemma good_boot:
  "passes (fresh True) (run_steps (init_steps_platform good_env @ init_steps_app good_env)) (\<lambda>_. True)"
  unfolding init_steps_platform_def init_steps_app_def append.simps
  by (intro passes_steps(2) [OF steady_passes] passes_steps(2) [OF good_id_create] passes_steps(2) [OF good_fast_pair]
      passes_steps(2) [OF good_reset_init] passes_steps(2) [OF good_enable] passes_steps(1) steady_platform steady_app good_calls)
    simp_all

theorem boot_outcome_witness:
  "\<exists>u. boot_ready u \<and> init_work_handle good_env app_init_state = Some (init_finish good_env u)
    \<and> K Sem_give \<in> set (trace (init_finish good_env u))"
proof -
  have w: "wf_data app_init_state"
    using wf_data_init
    by (simp add: wf_data_def app_init_state_def fr_sys.extend_def fr_init_state_def fp_sys.extend_def fp_init_state_def
      bat_sys.extend_def bat_init_state_def dev_sys.extend_def ring_sys.extend_def ring_init_state_def svc_sys.extend_def
      svc_init_state_def dfu_sys.extend_def dfu_init_state_def ui_sys.extend_def ui_init_state_def uart_sys.extend_def
      uart_init_state_def set_DynamicData_def) (simp add: data_init_def)
  have "fresh True app_init_state" by (simp add: fresh_def fp_st_init_def fr_st_init_def)
  then have "\<not> boot_stopped good_env app_init_state"
    using good_boot by (auto simp: passes_def boot_stopped_def)
  then show ?thesis using boot_outcome [OF good_env_identities w] by auto
qed

end
