(* ===== verification/Compose.thy ===== *)
theory Compose
  imports Startup
begin

text \<open>
  How the modules compose: no module disturbs the state the others rely on.  What a module
  leaves alone is stated by relations between the states before and after; with them the
  invariants of the UART, the Vision service and the application hold together and every
  operation of every module preserves them.
\<close>

section \<open>What the modules leave alone\<close>

text \<open>The modes of the application, the user interface and the advertising.\<close>

definition keeps_modes :: "'a app_sys_scheme \<Rightarrow> 'a app_sys_scheme \<Rightarrow> bool" where
  "keeps_modes s t \<longleftrightarrow> app t = app s \<and> fr t = fr s \<and> fp t = fp s \<and> ring t = ring s \<and> ui t = ui s \<and> dfu t = dfu s
     \<and> buzz (trace t) = buzz (trace s) \<and> asserts_hold (trace t) = asserts_hold (trace s)
     \<and> (halted t = None \<longrightarrow> halted s = None)"

lemma keeps_modes_refl [simp]: "keeps_modes s s"
  by (simp add: keeps_modes_def)

lemma keeps_modes_invoke [simp]:
  "\<not> buzz_event e \<Longrightarrow> \<not> is_assert_fail e \<Longrightarrow> keeps_modes s (invoke e t) = keeps_modes s t"
  "keeps_modes s (lock m t) = keeps_modes s t" "keeps_modes s (unlock m t) = keeps_modes s t"
  by (simp_all add: keeps_modes_def lock_def unlock_def)

lemma keeps_modes_gd [simp]: "keeps_modes s (t\<lparr>gd := g\<rparr>) = keeps_modes s t"
  by (simp add: keeps_modes_def)

lemma keeps_modes_adv [simp]: "keeps_modes s (t\<lparr>adv := a\<rparr>) = keeps_modes s t"
  by (simp add: keeps_modes_def)

lemma keeps_modes_tm [simp]: "keeps_modes s (t\<lparr>tm := c\<rparr>) = keeps_modes s t"
  by (simp add: keeps_modes_def)

lemma keeps_modes_ua [simp]: "keeps_modes s (t\<lparr>ua := u\<rparr>) = keeps_modes s t"
  by (simp add: keeps_modes_def)

lemma keeps_modes_svc [simp]: "keeps_modes s (t\<lparr>svc := v\<rparr>) = keeps_modes s t"
  by (simp add: keeps_modes_def)

lemma keeps_modes_bat [simp]: "keeps_modes s (t\<lparr>bat := b\<rparr>) = keeps_modes s t"
  by (simp add: keeps_modes_def)

lemma keeps_modes_data [simp]: "keeps_modes s (set_ProductionData p t) = keeps_modes s t"
  "keeps_modes s (set_ConfigData c t) = keeps_modes s t" "keeps_modes s (set_DynamicData d t) = keeps_modes s t"
  by (simp_all add: set_ProductionData_def set_ConfigData_def set_DynamicData_def)

lemma keeps_modes_halt: "keeps_modes s t \<Longrightarrow> keeps_modes s (sys_reboot t)"
  by (simp add: keeps_modes_def sys_reboot_def)

lemma app_inv_keeps:
  assumes "keeps_modes s t" "app_inv s"
  shows "app_inv t"
  using assms
  by (auto simp: keeps_modes_def app_inv_def core_inv_def req_inv_def ring_inv_def ui_inv_def fp_inv_def shows_state_def)

text \<open>The buffers and flags of the UART, and what has been transmitted.\<close>

definition keeps_uart :: "'a app_sys_scheme \<Rightarrow> 'a app_sys_scheme \<Rightarrow> bool" where
  "keeps_uart s t \<longleftrightarrow> tx_buf (ua t) = tx_buf (ua s) \<and> deferred_rx_work_buf (ua t) = deferred_rx_work_buf (ua s)
     \<and> deferred_rx_work_len (ua t) = deferred_rx_work_len (ua s) \<and> (no_pending s \<longrightarrow> no_pending t)
     \<and> list_all tx_frame_ok (trace t) = list_all tx_frame_ok (trace s)
     \<and> (halted t = None \<longrightarrow> halted s = None)"

lemma keeps_uart_refl [simp]: "keeps_uart s s"
  by (simp add: keeps_uart_def)

lemma keeps_uart_trans: "keeps_uart s t \<Longrightarrow> keeps_uart t u \<Longrightarrow> keeps_uart s u"
  by (auto simp: keeps_uart_def)

lemma keeps_uart_invoke [simp]:
  "tx_frame_ok e \<Longrightarrow> keeps_uart s (invoke e t) = keeps_uart s t"
  "keeps_uart s (lock m t) = keeps_uart s t" "keeps_uart s (unlock m t) = keeps_uart s t"
  by (simp_all add: keeps_uart_def no_pending_def lock_def unlock_def)

text \<open>The state of the Vision service and the references on connections.\<close>

definition keeps_svc :: "'a app_sys_scheme \<Rightarrow> 'a app_sys_scheme \<Rightarrow> bool" where
  "keeps_svc s t \<longleftrightarrow> svc t = svc s \<and> conn_refs (trace t) = conn_refs (trace s)"

lemma keeps_svc_refl [simp]: "keeps_svc s s"
  by (simp add: keeps_svc_def)

lemma keeps_svc_trans: "keeps_svc s t \<Longrightarrow> keeps_svc t u \<Longrightarrow> keeps_svc s u"
  by (simp add: keeps_svc_def)

text \<open>The invariants of the UART and of the service share the sizes of the data and the mutexes.\<close>

lemma uart_inv_keeps:
  assumes "keeps_uart s t" "uart_inv s" "wf_data t" "locks (trace t) = Free"
  shows "uart_inv t"
  using assms by (auto simp: keeps_uart_def uart_inv_def uart_core_def)

lemma svc_inv_keeps:
  assumes "keeps_svc s t" "svc_inv s" "wf_data t" "locks (trace t) = Free"
  shows "svc_inv t"
  using assms by (simp add: keeps_svc_def svc_inv_def svc_core_def svc_settled_def)

section \<open>The UART\<close>

lemma modes_uart [simp]:
  assumes "keeps_modes s t"
  shows "keeps_modes s (snd (app_uart_enable E t))" "keeps_modes s (snd (app_uart_disable E t))"
    "keeps_modes s (send_frame E front t)" "keeps_modes s (app_time_sync_set_utc E u t)"
    "keeps_modes s (flush_writes E t)" "keeps_modes s (mark_production t)"
  using assms
  by (simp_all add: app_uart_enable_def app_uart_disable_def send_frame_def app_uart_transmit_def app_time_sync_set_utc_def
      flush_writes_def write_nvs_data_def mark_production_def Let_def)

lemma modes_dispatch [simp]:
  "keeps_modes s t \<Longrightarrow> keeps_modes s (dispatch E data t)"
  by (simp add: dispatch_def cmd_set_password_def cmd_set_serial_def cmd_set_mac_def cmd_set_clock_def cmd_set_device_config_def
      cmd_reset_def cmd_read_serial_def cmd_read_mac_def cmd_read_ble_mac_def cmd_read_fw_ver_def cmd_read_device_config_def
      app_self_restart_def keeps_modes_halt Let_def case_prod_unfold)

lemma modes_process [simp]: "keeps_modes s t \<Longrightarrow> keeps_modes s (ProcessProductionMsg E data len t)"
  by (simp add: ProcessProductionMsg_def Let_def)

lemma modes_boot: "keeps_modes s t \<Longrightarrow> keeps_modes s (app_uart_boot_sequence_start E t)"
  by (simp add: app_uart_boot_sequence_start_def app_uart_init_def Let_def case_prod_unfold)

lemma modes_driver: "keeps_modes s (uart_async_callback e s)"
  by (cases e) (simp_all add: Let_def)

lemma modes_uart_do: "keeps_modes s (uart_do E e s)"
  by (cases e) (simp_all add: modes_boot modes_driver uart_lifetime_timeout_handler_def deferred_msg_processing_handler_def Let_def)

fun refs_event :: "ev \<Rightarrow> bool" where
  "refs_event (BT (Conn_ref c)) = True"
| "refs_event (BT (Conn_unref c)) = True"
| "refs_event _ = False"

lemma ref_step_other: "\<not> refs_event e \<Longrightarrow> ref_step m e = m"
  by (cases "(m, e)" rule: ref_step.cases) auto

lemma keeps_svc_invoke [simp]:
  "\<not> refs_event e \<Longrightarrow> keeps_svc s (invoke e t) = keeps_svc s t"
  "keeps_svc s (lock m t) = keeps_svc s t" "keeps_svc s (unlock m t) = keeps_svc s t"
  by (simp_all add: keeps_svc_def lock_def unlock_def ref_step_other)

lemma keeps_svc_ua [simp]: "keeps_svc s (t\<lparr>ua := u\<rparr>) = keeps_svc s t"
  by (simp add: keeps_svc_def)

lemma keeps_svc_gd [simp]: "keeps_svc s (t\<lparr>gd := g\<rparr>) = keeps_svc s t"
  by (simp add: keeps_svc_def)

lemma keeps_svc_tm [simp]: "keeps_svc s (t\<lparr>tm := c\<rparr>) = keeps_svc s t"
  by (simp add: keeps_svc_def)

lemma keeps_svc_halted [simp]: "keeps_svc s (t\<lparr>halted := h\<rparr>) = keeps_svc s t"
  by (simp add: keeps_svc_def)

lemma keeps_svc_data [simp]: "keeps_svc s (set_ProductionData p t) = keeps_svc s t"
  "keeps_svc s (set_ConfigData c t) = keeps_svc s t" "keeps_svc s (set_DynamicData d t) = keeps_svc s t"
  by (simp_all add: set_ProductionData_def set_ConfigData_def set_DynamicData_def)

lemma svc_uart [simp]:
  assumes "keeps_svc s t"
  shows "keeps_svc s (snd (app_uart_enable E t))" "keeps_svc s (snd (app_uart_disable E t))"
    "keeps_svc s (send_frame E front t)" "keeps_svc s (app_time_sync_set_utc E u t)"
    "keeps_svc s (flush_writes E t)" "keeps_svc s (mark_production t)"
  using assms
  by (simp_all add: app_uart_enable_def app_uart_disable_def send_frame_def app_uart_transmit_def app_time_sync_set_utc_def
      flush_writes_def write_nvs_data_def mark_production_def Let_def)

lemma svc_dispatch [simp]: "keeps_svc s t \<Longrightarrow> keeps_svc s (dispatch E data t)"
  by (simp add: dispatch_def cmd_set_password_def cmd_set_serial_def cmd_set_mac_def cmd_set_clock_def cmd_set_device_config_def
      cmd_reset_def cmd_read_serial_def cmd_read_mac_def cmd_read_ble_mac_def cmd_read_fw_ver_def cmd_read_device_config_def
      app_self_restart_def sys_reboot_def Let_def case_prod_unfold)

lemma svc_boot: "keeps_svc s t \<Longrightarrow> keeps_svc s (app_uart_boot_sequence_start E t)"
  by (simp add: app_uart_boot_sequence_start_def app_uart_init_def Let_def case_prod_unfold)

lemma svc_driver: "keeps_svc s (uart_async_callback e s)"
  by (cases e) (simp_all add: Let_def)

lemma svc_uart_do: "keeps_svc s (uart_do E e s)"
  by (cases e) (simp_all add: svc_boot svc_driver uart_lifetime_timeout_handler_def deferred_msg_processing_handler_def
      ProcessProductionMsg_def Let_def)

text \<open>No reset is in progress between two steps: it ends in a reboot or a panic.\<close>

definition no_reset_running :: "'a app_sys_scheme \<Rightarrow> bool" where
  "no_reset_running s \<longleftrightarrow> (halted s = None \<longrightarrow> factory_reset_state (fr s) \<noteq> APP_FACTORY_RESET_STATE_IN_PROGRESS)"

definition app_safe :: "'a app_sys_scheme \<Rightarrow> bool" where
  "app_safe s \<longleftrightarrow> app_inv s \<and> no_reset_running s"

lemma app_safe_keeps: "keeps_modes s t \<Longrightarrow> app_safe s \<Longrightarrow> app_safe t"
  using app_inv_keeps [of s t] by (auto simp: app_safe_def keeps_modes_def no_reset_running_def)

text \<open>The invariants of the modules together.\<close>

definition sys_inv :: "'a app_sys_scheme \<Rightarrow> bool" where
  "sys_inv s \<longleftrightarrow> uart_inv s \<and> svc_inv s \<and> app_safe s"

lemma uart_shared: "uart_inv s \<Longrightarrow> wf_data s" "uart_inv s \<Longrightarrow> locks (trace s) = Free"
  by (simp_all add: uart_inv_def uart_core_def)

lemma svc_shared: "svc_inv s \<Longrightarrow> wf_data s" "svc_inv s \<Longrightarrow> locks (trace s) = Free"
  by (simp_all add: svc_inv_def svc_core_def)

lemma sys_inv_uart:
  assumes "sys_inv s" "uart_ok e s"
  shows "sys_inv (uart_do E e s)"
proof -
  have u: "uart_inv (uart_do E e s)" using assms uartm.step_inv [of s e E] by (simp add: sys_inv_def)
  have "svc_inv (uart_do E e s)"
    using assms(1) by (intro svc_inv_keeps [OF svc_uart_do] uart_shared [OF u]) (simp add: sys_inv_def)
  moreover have "app_safe (uart_do E e s)"
    using assms(1) by (intro app_safe_keeps [OF modes_uart_do]) (simp add: sys_inv_def)
  ultimately show ?thesis using u by (simp add: sys_inv_def)
qed

section \<open>The Vision service\<close>

text \<open>
  The service reaches into other modules with two commands: the restart switches the UART
  off, and the DFU command enters the DFU mode.
\<close>

lemma keeps_uart_gd [simp]: "keeps_uart s (t\<lparr>gd := g\<rparr>) = keeps_uart s t"
  by (simp add: keeps_uart_def no_pending_def)

lemma keeps_uart_adv [simp]: "keeps_uart s (t\<lparr>adv := a\<rparr>) = keeps_uart s t"
  by (simp add: keeps_uart_def no_pending_def)

lemma keeps_uart_tm [simp]: "keeps_uart s (t\<lparr>tm := c\<rparr>) = keeps_uart s t"
  by (simp add: keeps_uart_def no_pending_def)

lemma keeps_uart_svc [simp]: "keeps_uart s (t\<lparr>svc := v\<rparr>) = keeps_uart s t"
  by (simp add: keeps_uart_def no_pending_def)

lemma keeps_uart_dfu [simp]: "keeps_uart s (t\<lparr>dfu := d\<rparr>) = keeps_uart s t"
  by (simp add: keeps_uart_def no_pending_def)

lemma keeps_uart_data [simp]: "keeps_uart s (set_ProductionData p t) = keeps_uart s t"
  "keeps_uart s (set_ConfigData c t) = keeps_uart s t" "keeps_uart s (set_DynamicData d t) = keeps_uart s t"
  by (simp_all add: set_ProductionData_def set_ConfigData_def set_DynamicData_def)

lemma keeps_uart_power:
  "keeps_uart s t \<Longrightarrow> ua t = u \<Longrightarrow> keeps_uart s (t\<lparr>ua := u\<lparr>uart_is_powered := p\<rparr>\<rparr>)"
  by (auto simp: keeps_uart_def no_pending_def)

lemma keeps_uart_reboot: "keeps_uart s t \<Longrightarrow> keeps_uart s (sys_reboot t)"
  by (simp add: keeps_uart_def no_pending_def sys_reboot_def)

lemma keeps_uart_indicate [simp]: "keeps_uart s t \<Longrightarrow> keeps_uart s (app_ui_state_change_indicate E st a t)"
  by (simp add: keeps_uart_def no_pending_def app_ui_state_change_indicate_def app_ui_speaker_off_def Let_def)

lemma keeps_uart_disable: "keeps_uart s t \<Longrightarrow> keeps_uart s (snd (app_uart_disable E t))"
  by (simp add: app_uart_disable_def Let_def keeps_uart_power)

lemma keeps_uart_dfu_enter: "keeps_uart s t \<Longrightarrow> keeps_uart s (app_dfu_enter_mode_custom E t)"
  by (simp add: app_dfu_enter_mode_custom_def dfu_mode_action_handle_def dfu_mode_change_def Let_def)

lemma keeps_uart_initiate [simp]:
  "keeps_uart s t \<Longrightarrow> keeps_uart s (snd (ble_custom_service_initiate_disconnect E t))"
  by (simp add: ble_custom_service_initiate_disconnect_def Let_def split: option.split)

lemma keeps_uart_time [simp]:
  assumes "keeps_uart s t"
  shows "keeps_uart s (app_time_sync_set_utc E u t)" "keeps_uart s (snd (app_time_get_utc_epoch E t))"
  using assms by (simp_all add: app_time_sync_set_utc_def app_time_get_utc_epoch_def Let_def)

lemma keeps_uart_commands:
  assumes "keeps_uart s t"
  shows "keeps_uart s (snd (svc_set_clock E buf t))" "keeps_uart s (snd (svc_read_time E t))"
    "keeps_uart s (snd (svc_read_association buf t))" "keeps_uart s (snd (svc_set_adv_period buf t))"
    "keeps_uart s (snd (svc_set_energy_save buf t))" "keeps_uart s (snd (svc_unauthorised buf t))"
  using assms
  by (simp_all add: svc_set_clock_def svc_read_time_def svc_read_association_def svc_set_adv_period_def
      svc_set_energy_save_def svc_unauthorised_def Let_def case_prod_unfold)

lemma keeps_uart_execute [simp]: "keeps_uart s t \<Longrightarrow> keeps_uart s (snd (svc_execute E buf t))"
  by (simp add: svc_execute_def svc_authorised_def keeps_uart_commands keeps_uart_dfu_enter Let_def)

lemma keeps_uart_finish [simp]: "keeps_uart s t \<Longrightarrow> keeps_uart s (svc_finish E c r t)"
  by (simp add: svc_finish_def ble_custom_service_send_notification_def svc_flush_writes_def write_nvs_data_def
      app_graceful_self_restart_def keeps_uart_reboot keeps_uart_disable case_prod_unfold Let_def)

lemma keeps_uart_parse: "keeps_uart s (ble_parse_and_reply_work_handler E s)"
  by (simp add: ble_parse_and_reply_work_handler_def Let_def case_prod_unfold split: option.split)

lemma keeps_uart_adv_ops [simp]:
  assumes "keeps_uart s t"
  shows "keeps_uart s (snd (ble_adv_custom_start E t))" "keeps_uart s (snd (ble_adv_custom_stop E t))"
    "keeps_uart s (snd (ble_adv_custom_update_interval E a b t))"
  using assms
  by (simp_all add: ble_adv_custom_start_def ble_adv_custom_stop_def ble_adv_custom_update_interval_def Let_def split: option.split)

lemma keeps_uart_connections:
  "keeps_uart s (svc_connected E c err s)" "keeps_uart s (svc_disconnected E c s)"
  by (simp_all add: svc_connected_def svc_disconnected_def Let_def)

lemma keeps_uart_svc_do: "keeps_uart s (svc_do E e s)"
  by (cases e) (simp_all add: ble_custom_service_init_def write_incoming_char_def read_notify_char_def cccd_changed_cb_def
      authorisation_timout_work_handler_def connection_timout_work_handler_def keeps_uart_parse keeps_uart_connections Let_def)

lemma modes_adv [simp]:
  assumes "keeps_modes s t"
  shows "keeps_modes s (snd (ble_adv_custom_start E t))" "keeps_modes s (snd (ble_adv_custom_stop E t))"
    "keeps_modes s (snd (ble_adv_custom_update_interval E a b t))"
  using assms
  by (simp_all add: ble_adv_custom_start_def ble_adv_custom_stop_def ble_adv_custom_update_interval_def Let_def split: option.split)

lemma modes_get_utc [simp]: "keeps_modes s t \<Longrightarrow> keeps_modes s (snd (app_time_get_utc_epoch E t))"
  by (simp add: app_time_get_utc_epoch_def Let_def)

lemma modes_commands:
  assumes "keeps_modes s t"
  shows "keeps_modes s (snd (svc_set_clock E buf t))" "keeps_modes s (snd (svc_read_time E t))"
    "keeps_modes s (snd (svc_read_association buf t))" "keeps_modes s (snd (svc_set_adv_period buf t))"
    "keeps_modes s (snd (svc_set_energy_save buf t))" "keeps_modes s (snd (svc_unauthorised buf t))"
  using assms
  by (simp_all add: svc_set_clock_def svc_read_time_def svc_read_association_def svc_set_adv_period_def
      svc_set_energy_save_def svc_unauthorised_def Let_def case_prod_unfold)

text \<open>The one command that changes a mode.\<close>

lemma dfu_change_halted [simp]: "halted (dfu_mode_change E m s) = halted s"
  by (simp add: dfu_mode_change_def Let_def)

lemma app_safe_dfu_enter: "app_safe s \<Longrightarrow> app_safe (app_dfu_enter_mode_custom E s)"
  by (simp add: app_safe_def no_reset_running_def app_dfu_enter_mode_custom_def dfu_mode_action_handle_def app_inv_def
      req_inv_def core_inv_dfu_change)

lemma modes_authorised:
  assumes "buf ! 0 \<noteq> PUT_DEVICE_IN_OTA_DFU_MODE"
  shows "keeps_modes s (snd (svc_authorised E buf s))"
  using assms by (simp add: svc_authorised_def modes_commands Let_def)

lemma app_safe_execute: "app_safe s \<Longrightarrow> app_safe (snd (svc_execute E buf s))"
proof (cases "bool_UserAuthorization (svc s) \<and> buf ! 0 = PUT_DEVICE_IN_OTA_DFU_MODE")
  case True
  assume s: "app_safe s"
  let ?s1 = "invoke (K (Work_reschedule W_connection (DISCC_TIME_SEC * 1000))) s"
  have "app_safe ?s1" by (rule app_safe_keeps [OF _ s]) simp
  moreover have "snd (svc_execute E buf s) = app_dfu_enter_mode_custom E ?s1"
    using True by (simp add: svc_execute_def svc_authorised_def command_defs Let_def)
  ultimately show ?thesis by (simp add: app_safe_dfu_enter)
next
  case False
  assume s: "app_safe s"
  have "keeps_modes s (snd (svc_execute E buf s))"
    using False by (auto simp: svc_execute_def modes_authorised modes_commands)
  then show ?thesis using s by (rule app_safe_keeps)
qed

lemma modes_initiate [simp]:
  "keeps_modes s t \<Longrightarrow> keeps_modes s (snd (ble_custom_service_initiate_disconnect E t))"
  by (simp add: ble_custom_service_initiate_disconnect_def Let_def split: option.split)

lemma modes_finish: "keeps_modes s (svc_finish E c r s)"
  by (simp add: svc_finish_def ble_custom_service_send_notification_def svc_flush_writes_def write_nvs_data_def
      app_graceful_self_restart_def keeps_modes_halt case_prod_unfold Let_def)

lemma app_safe_parse:
  assumes "app_safe s"
  shows "app_safe (ble_parse_and_reply_work_handler E s)"
proof -
  define s1 where "s1 = lock M_svc s"
  define s2 where "s2 = (if 0 < write_len (svc s1) then s1\<lparr>svc := (svc s1)\<lparr>write_len := 0\<rparr>\<rparr> else s1)"
  have "keeps_modes s s2" by (simp add: s1_def s2_def)
  then have "app_safe (unlock M_svc (invoke (BT (Conn_ref c)) s2))" "app_safe (unlock M_svc s2)"
    "app_safe (invoke (BT (Conn_unref c)) (unlock M_svc (invoke (BT (Conn_ref c)) s2)))" for c
    by (auto intro: app_safe_keeps [OF _ assms])
  then show ?thesis
    unfolding ble_parse_and_reply_work_handler_def Let_def s1_def [symmetric] s2_def [symmetric]
    by (auto simp: case_prod_unfold intro!: app_safe_keeps [OF modes_finish] app_safe_execute split: option.split)
qed

lemma modes_connections:
  "keeps_modes s (svc_connected E c err s)" "keeps_modes s (svc_disconnected E c s)"
  by (simp_all add: svc_connected_def svc_disconnected_def Let_def)

lemma modes_callbacks:
  "keeps_modes s (snd (ble_custom_service_init s))" "keeps_modes s (snd (write_incoming_char buf offset s))"
  "keeps_modes s (snd (read_notify_char E len offset s))" "keeps_modes s (cccd_changed_cb v s)"
  by (simp_all add: ble_custom_service_init_def write_incoming_char_def read_notify_char_def cccd_changed_cb_def Let_def)

lemma app_safe_svc_do: "app_safe s \<Longrightarrow> app_safe (svc_do E e s)"
  using app_safe_parse
  by (cases e) (auto simp: authorisation_timout_work_handler_def connection_timout_work_handler_def
      intro: app_safe_keeps [OF modes_connections(1)] app_safe_keeps [OF modes_connections(2)] app_safe_keeps [OF modes_callbacks(1)]
        app_safe_keeps [OF modes_callbacks(2)] app_safe_keeps [OF modes_callbacks(3)] app_safe_keeps [OF modes_callbacks(4)]
        app_safe_keeps [OF modes_initiate [OF keeps_modes_refl]])

lemma sys_inv_svc:
  assumes "sys_inv s" "svc_ok e s"
  shows "sys_inv (svc_do E e s)"
proof -
  have v: "svc_inv (svc_do E e s)" using assms svcm.step_inv [of s e E] by (simp add: sys_inv_def)
  have "uart_inv (svc_do E e s)"
    using assms(1) by (intro uart_inv_keeps [OF keeps_uart_svc_do] svc_shared [OF v]) (simp add: sys_inv_def)
  then show ?thesis using v assms(1) by (simp add: sys_inv_def app_safe_svc_do)
qed

section \<open>The application\<close>

text \<open>The operations of the application take no part in the UART protocol and the Vision service.\<close>

definition aside :: "'a app_sys_scheme \<Rightarrow> 'a app_sys_scheme \<Rightarrow> bool" where
  "aside s t \<longleftrightarrow> keeps_uart s t \<and> keeps_svc s t \<and> (wf_data s \<longrightarrow> wf_data t)
     \<and> (locks (trace s) = Free \<longrightarrow> locks (trace t) = Free)"

lemma aside_refl [simp]: "aside s s"
  by (simp add: aside_def)

lemma aside_trans: "aside s t \<Longrightarrow> aside t u \<Longrightarrow> aside s u"
  by (auto simp: aside_def intro: keeps_uart_trans keeps_svc_trans)

text \<open>Calls that are neither of the mutexes, of the connection references, nor transmissions.\<close>

definition aside_event :: "ev \<Rightarrow> bool" where
  "aside_event e \<longleftrightarrow> quiet e \<and> tx_frame_ok e"

lemma quiet_refs: "quiet e \<Longrightarrow> \<not> refs_event e"
  by (cases e rule: quiet.cases) simp_all

lemma aside_invoke [simp]: "aside s t \<Longrightarrow> quiet e \<Longrightarrow> tx_frame_ok e \<Longrightarrow> aside s (invoke e t)"
  by (simp add: aside_def quiet_refs quiet_steps wf_data_def)

lemma aside_check [simp]: "aside s t \<Longrightarrow> aside s (check w b t)"
  by (simp add: check_def)

lemma aside_same:
  "aside s t \<Longrightarrow> ua u = ua t \<Longrightarrow> svc u = svc t \<Longrightarrow> gd u = gd t \<Longrightarrow> trace u = trace t \<Longrightarrow> halted u = halted t \<Longrightarrow> aside s u"
  by (simp add: aside_def keeps_uart_def keeps_svc_def no_pending_def wf_data_def)

lemma aside_app [simp]: "aside s t \<Longrightarrow> aside s (t\<lparr>app := a\<rparr>)"
  by (rule aside_same) simp_all

lemma aside_fp [simp]: "aside s t \<Longrightarrow> aside s (t\<lparr>fp := f\<rparr>)"
  by (rule aside_same) simp_all

lemma aside_fr [simp]: "aside s t \<Longrightarrow> aside s (t\<lparr>fr := r\<rparr>)"
  by (rule aside_same) simp_all

lemma aside_ring [simp]: "aside s t \<Longrightarrow> aside s (t\<lparr>ring := r\<rparr>)"
  by (rule aside_same) simp_all

lemma aside_dfu [simp]: "aside s t \<Longrightarrow> aside s (t\<lparr>dfu := d\<rparr>)"
  by (rule aside_same) simp_all

lemma aside_ui [simp]: "aside s t \<Longrightarrow> aside s (t\<lparr>ui := u\<rparr>)"
  by (rule aside_same) simp_all

lemma aside_adv [simp]: "aside s t \<Longrightarrow> aside s (t\<lparr>adv := a\<rparr>)"
  by (rule aside_same) simp_all

lemma aside_tm [simp]: "aside s t \<Longrightarrow> aside s (t\<lparr>tm := c\<rparr>)"
  by (rule aside_same) simp_all

lemma aside_bat [simp]: "aside s t \<Longrightarrow> aside s (t\<lparr>bat := b\<rparr>)"
  by (rule aside_same) simp_all

lemma aside_dyn [simp]: "aside s t \<Longrightarrow> aside s (set_DynamicData d t)"
  by (simp add: aside_def wf_data_def)

lemma aside_panic: "aside s t \<Longrightarrow> aside s (k_panic t)"
  by (simp add: aside_def keeps_uart_def keeps_svc_def no_pending_def wf_data_def k_panic_def)

lemma aside_reboot: "aside s t \<Longrightarrow> aside s (sys_reboot t)"
  by (simp add: aside_def keeps_uart_def keeps_svc_def no_pending_def wf_data_def sys_reboot_def)

lemma aside_indicate [simp]: "aside s t \<Longrightarrow> aside s (app_ui_state_change_indicate E st a t)"
  by (simp add: app_ui_state_change_indicate_def app_ui_speaker_off_def Let_def)

lemma fp_event_aside: "fp_adv_event e \<Longrightarrow> quiet e \<and> tx_frame_ok e"
  by (cases e rule: fp_adv_event.cases) auto

interpretation ao: fp_frame aside
proof
  fix s :: "'a app_sys_scheme" and e
  assume "fp_adv_event e"
  then show "aside s (invoke e s)" using fp_event_aside [of e] by simp
qed (auto intro: aside_trans)

text \<open>The Vision advertiser takes its mutex and gives it back.\<close>

lemma aside_locked:
  assumes "aside s t"
  shows "aside s (snd (ble_adv_custom_start E t))" "aside s (snd (ble_adv_custom_stop E t))"
proof -
  have "aside t (snd (ble_adv_custom_start E t))" "aside t (snd (ble_adv_custom_stop E t))"
    by (auto simp: aside_def keeps_uart_def keeps_svc_def no_pending_def wf_data_def ble_adv_custom_start_def
        ble_adv_custom_stop_def Let_def split: option.split)
  then show "aside s (snd (ble_adv_custom_start E t))" "aside s (snd (ble_adv_custom_stop E t))"
    using assms by (blast intro: aside_trans)+
qed

lemma aside_schedule [simp]:
  assumes "aside s t"
  shows "aside s (app_factory_reset_schedule d t)" "aside s (app_factory_reset_cancel t)"
  using assms by (simp_all add: app_factory_reset_schedule_def app_factory_reset_cancel_def Let_def)

lemma aside_state_set [simp]: "aside s t \<Longrightarrow> aside s (fmdn_provisioning_state_set E p t)"
  by (simp add: fmdn_provisioning_state_set_def Let_def)

lemma aside_reports:
  "aside s (fmdn_provisioning_state_changed E p s)" "aside s (fmdn_provisioning_state_init E s)"
  "aside s (stop_discoverable_adv E s)" "aside s (fp_account_key_written E c s)" "aside s (fmdn_clock_synced E s)"
  by (simp_all add: fmdn_provisioning_state_changed_def fmdn_provisioning_state_init_def stop_discoverable_adv_def
      fp_account_key_written_def fmdn_clock_synced_def schedule_defs aside_locked Let_def)

lemma aside_status_set: "aside s (fmdn_conn_auth_bm_conn_status_set E c b s)"
  by (simp add: fmdn_conn_auth_bm_conn_status_set_def conn_index_def Let_def)

lemma aside_access: "aside s (snd (gatt_authorize E c u s))"
  by (simp add: gatt_authorize_def app_dfu_bt_gatt_operation_allow_def identifying_info_allow_def
      fmdn_conn_auth_bm_conn_status_get_def conn_index_def Let_def)

lemma aside_dfu_change [simp]: "aside s t \<Longrightarrow> aside s (dfu_mode_change E m t)"
  by (simp add: dfu_mode_change_def Let_def)

lemma aside_ring_update [simp]: "aside s t \<Longrightarrow> aside s (ring_state_update E p t)"
  by (simp add: ring_state_update_def Let_def)

lemma aside_buzzer [simp]: "aside s t \<Longrightarrow> aside s (buzzer_beep_handle E t)"
  by (simp add: buzzer_beep_handle_def app_ui_speaker_on_def app_ui_speaker_off_def Let_def)

lemma aside_ring_do: "aside s (ring_do E e s)"
  by (cases e; simp add: fmdn_ring_start_request_def fmdn_ring_timeout_expired_def fmdn_ring_stop_request_def
      ring_provisioning_state_changed_def ring_request_handle_def fmdn_motion_detector_start_def fmdn_motion_detector_stop_def
      fmdn_motion_detector_period_expired_def Let_def)

text \<open>A request listener that stays aside.\<close>

locale aside_listener =
  fixes handler :: "app_ui_request \<Rightarrow> 'a app_sys_scheme \<Rightarrow> 'a app_sys_scheme"
  assumes handler_aside: "aside s (handler request s)"
begin

lemma handlers_aside: "aside s t \<Longrightarrow> aside s (fold handler requests t)"
proof (induction requests arbitrary: t)
  case (Cons r rs)
  then have "aside s (handler r t)" using aside_trans handler_aside by blast
  with Cons.IH show ?case by simp
qed simp

end

interpretation dfu_as: aside_listener "dfu_mode_request_handle E" for E
  by unfold_locales (simp add: dfu_mode_request_handle_def dfu_mode_action_handle_def)

interpretation fr_as: aside_listener factory_reset_request_handle
  by unfold_locales (simp add: factory_reset_request_handle_def)

interpretation ring_as: aside_listener "ring_request_handle E" for E
  by unfold_locales (simp add: ring_request_handle_def)

interpretation main_as: aside_listener "fmdn_mode_request_handle E junk" for E junk
  by unfold_locales (simp add: fmdn_mode_request_handle_def fmdn_recovery_mode_action_handle_def fmdn_id_mode_action_handle_def
      fmdn_advt_mode_change_handle_def call_def aside_panic Let_def)

lemma request_listeners_aside: "list_all aside_listener (request_listeners E junk)"
  by (simp add: request_listeners_def dfu_as.aside_listener_axioms fr_as.aside_listener_axioms
      ring_as.aside_listener_axioms main_as.aside_listener_axioms)

lemma aside_broadcast:
  "list_all aside_listener L \<Longrightarrow> aside s t \<Longrightarrow> aside s (app_ui_request_broadcast L r t)"
proof (induction L arbitrary: t)
  case (Cons h L)
  then have "aside s (h r t)" by (auto intro: aside_trans aside_listener.handler_aside)
  with Cons show ?case by (simp add: app_ui_request_broadcast_def)
qed (simp add: app_ui_request_broadcast_def)

lemma aside_beeps: "aside s t \<Longrightarrow> aside s (speaker_beep_play E n on off t)"
  by (induction n arbitrary: t) (simp_all add: app_ui_speaker_on_def app_ui_speaker_off_def Let_def)

lemma aside_button: "list_all aside_listener L \<Longrightarrow> aside s (btn_handle E L bs ch s)"
  by (simp add: btn_handle_def aside_broadcast aside_beeps Let_def split: option.split)

lemma aside_fp_do: "aside s (fp_do E e s)"
proof (cases e)
  case FE_rpa_expired
  define s1 where "s1 = invoke (K Uptime_get) (check ''fp_adv_set'' (fp_adv_set (fp s) \<noteq> None) s)"
  define s4 where "s4 = fp_adv_rpa_timeout_set E (s1\<lparr>fp := (fp s1)\<lparr>fp_uptime := outval E s1\<rparr>\<rparr>)"
  have eq: "snd (fp_adv_rpa_expired E s) = (if fp_adv_mode (fp s4) \<noteq> APP_FP_ADV_MODE_OFF
      then snd (fp_adv_payload_set E (fp_adv_expire_rpa (fp s4)) False s4) else s4)"
    by (simp only: fp_adv_rpa_expired_def Let_def s4_def s1_def snd_conv)
  have "aside s s4"
    by (simp add: s1_def s4_def fp_adv_rpa_timeout_set_def fp_adv_rpa_timeout_calculate_def Let_def)
  then show ?thesis by (simp add: FE_rpa_expired eq)
next
  case (FE_provisioning p)
  then show ?thesis by (simp add: fp_adv_provisioning_state_changed_def Let_def)
qed (simp_all add: fp_adv_connected_def fp_adv_restart_work_handle_def fp_conn_cb_connected_def fp_conn_cb_disconnected_def
    fp_adv_rpa_suspension_work_handle_def fp_adv_rpa_rotation_suspended_set_def fp_adv_account_key_written_def
    app_fp_adv_payload_refresh_def app_fp_adv_id_set_def app_fp_adv_info_cb_register_def app_fp_adv_init_def Let_def)

lemma aside_exited: "aside s (fmdn_read_mode_exited E m s)"
  by (cases m) (simp_all add: fmdn_recovery_mode_exited_def fmdn_id_mode_exited_def)

lemma aside_app_do: "aside s (app_do E junk e s)"
  by (cases e) (simp_all add: aside_reports aside_exited aside_access aside_ring_do aside_fp_do aside_status_set
      aside_button request_listeners_aside fmdn_conn_authenticated_def security_changed_def app_disconnected_def
      dfu_mode_timeout_work_handle_def)

lemma sys_inv_aside:
  assumes "aside s t" "sys_inv s" "app_safe t"
  shows "sys_inv t"
  using assms uart_inv_keeps [of s t] svc_inv_keeps [of s t] uart_shared [of s] by (auto simp: sys_inv_def aside_def)

text \<open>The factory reset is scheduled and withdrawn, but not started.\<close>

lemma same_reset_running: "same_reset s t \<Longrightarrow> no_reset_running s \<Longrightarrow> halted s = None \<Longrightarrow> no_reset_running t"
  by (simp add: same_reset_def no_reset_running_def)

lemma schedule_running:
  "factory_reset_state (fr s) \<noteq> APP_FACTORY_RESET_STATE_IN_PROGRESS \<Longrightarrow>
   factory_reset_state (fr (app_factory_reset_schedule d s)) \<noteq> APP_FACTORY_RESET_STATE_IN_PROGRESS"
  "factory_reset_state (fr s) \<noteq> APP_FACTORY_RESET_STATE_IN_PROGRESS \<Longrightarrow>
   factory_reset_state (fr (app_factory_reset_cancel s)) \<noteq> APP_FACTORY_RESET_STATE_IN_PROGRESS"
  by (simp_all add: app_factory_reset_schedule_def app_factory_reset_cancel_def Let_def)

lemma fr_state_set [simp]: "fr (fmdn_provisioning_state_set E p s) = fr s"
  by (simp add: fmdn_provisioning_state_set_def Let_def)

lemma reports_running:
  assumes "factory_reset_state (fr s) \<noteq> APP_FACTORY_RESET_STATE_IN_PROGRESS"
  shows "factory_reset_state (fr (fmdn_provisioning_state_changed E p s)) \<noteq> APP_FACTORY_RESET_STATE_IN_PROGRESS"
    "factory_reset_state (fr (fmdn_provisioning_state_init E s)) \<noteq> APP_FACTORY_RESET_STATE_IN_PROGRESS"
    "factory_reset_state (fr (fp_account_key_written E c s)) \<noteq> APP_FACTORY_RESET_STATE_IN_PROGRESS"
  using assms
  by (simp_all add: fmdn_provisioning_state_changed_def fmdn_provisioning_state_init_def fp_account_key_written_def
      schedule_defs schedule_running Let_def)

lemma same_reset_exited: "same_reset s (fmdn_read_mode_exited E m s)"
  by (cases m) (simp_all add: fmdn_recovery_mode_exited_def fmdn_id_mode_exited_def)

lemma app_do_running:
  assumes "no_reset_running s" "halted s = None"
  shows "no_reset_running (app_do E junk e s)"
proof -
  have idle: "factory_reset_state (fr s) \<noteq> APP_FACTORY_RESET_STATE_IN_PROGRESS"
    using assms by (simp add: no_reset_running_def)
  have same: "same_reset s t \<Longrightarrow> no_reset_running t" for t using same_reset_running assms by blast
  show ?thesis
  proof (cases e)
    case (AP_button bs ch)
    then show ?thesis using same [OF same_reset_button [OF request_listeners_keep]] by simp
  next
    case (AP_exited m)
    then show ?thesis using same [OF same_reset_exited] by simp
  next
    case (AP_fp f)
    then show ?thesis using same [OF same_reset_confined [OF confined_do]] by simp
  next
    case (AP_ring r)
    then show ?thesis using same [OF same_reset_ring_do] by simp
  next
    case (AP_access c u)
    then show ?thesis using same [OF same_reset_access] by simp
  next
    case (AP_provisioning p)
    then show ?thesis using reports_running(1) [OF idle] by (simp add: no_reset_running_def)
  next
    case AP_init
    then show ?thesis using reports_running(2) [OF idle] by (simp add: no_reset_running_def)
  next
    case (AP_account_key c)
    then show ?thesis using reports_running(3) [OF idle] by (simp add: no_reset_running_def)
  qed (use same in \<open>simp_all add: stop_discoverable_adv_def fmdn_clock_synced_def Let_def dfu_mode_timeout_work_handle_def
      same_reset_dfu fmdn_conn_authenticated_def security_changed_def app_disconnected_def same_reset_status_set\<close>)
qed

lemma sys_inv_app:
  assumes "conn_indices E idx" "sys_inv s" "app_ok e s"
  shows "sys_inv (app_do E junk e s)"
  using assms
  by (intro sys_inv_aside [OF aside_app_do]) (simp_all add: sys_inv_def app_safe_def app_inv_do app_do_running app_ok_def)

section \<open>Clock, battery and watchdog\<close>

text \<open>An operation that takes its own mutex leaves the rest aside when it starts without one.\<close>

lemma aside_clock:
  assumes "aside s t"
  shows "aside s (snd (app_time_get_utc_epoch E t))"
proof -
  have "aside t (snd (app_time_get_utc_epoch E t))"
    by (simp add: aside_def keeps_uart_def keeps_svc_def no_pending_def wf_data_def app_time_get_utc_epoch_def Let_def)
  with assms show ?thesis by (rule aside_trans)
qed

lemma aside_window: "aside s t \<Longrightarrow> aside s (snd (app_time_is_within_energy_saving_window E t))"
  using aside_clock [of s t E]
  by (simp add: app_time_is_within_energy_saving_window_def app_time_get_local_minutes_of_day_def Let_def case_prod_unfold)

lemma aside_energy_save: "aside s t \<Longrightarrow> aside s (energy_save_logic E t)"
  by (simp add: energy_save_logic_def aside_window aside_locked Let_def case_prod_unfold)

lemma aside_supervisor: "aside s (time_supervisor_work_handler E s)"
proof -
  have "aside s (snd (app_time_get_utc_epoch E (invoke (K (Work_schedule W_time_supervisor 60000)) s)))"
    by (rule aside_clock) simp
  then show ?thesis
    by (simp add: time_supervisor_work_handler_def Let_def case_prod_unfold aside_energy_save)
qed

lemma aside_battery_updates [simp]:
  assumes "aside s t"
  shows "aside s (updateAdvBatmV E v t)" "aside s (updateAdvBatLevel E p t)"
    "aside s (snd (voltage_to_percent_convert val t))"
proof -
  have "aside t (updateAdvBatmV E v t)" "aside t (updateAdvBatLevel E p t)" "aside t (snd (voltage_to_percent_convert val t))"
    by (auto simp: aside_def keeps_uart_def keeps_svc_def no_pending_def wf_data_def updateAdvBatmV_def updateAdvBatLevel_def
        push_payload_def voltage_to_percent_convert_def Let_def split: option.split)
  with assms show "aside s (updateAdvBatmV E v t)" "aside s (updateAdvBatLevel E p t)"
    "aside s (snd (voltage_to_percent_convert val t))"
    by (blast intro: aside_trans)+
qed

lemma aside_measure: "aside s t \<Longrightarrow> aside s (snd (battery_measure E t))"
  by (simp add: battery_measure_def battery_voltage_get_def Let_def case_prod_unfold)

lemma aside_battery:
  "aside s (battery_periodic_poll_handler E s)" "aside s (battery_level_set_work_handler E s)"
  by (simp_all add: battery_periodic_poll_handler_def battery_level_set_work_handler_def battery_level_set_def aside_measure
      Let_def case_prod_unfold)

lemma svc_set_dynamic [simp]: "svc (set_DynamicData d s) = svc s"
  by (simp add: set_DynamicData_def)

lemma aside_activity: "aside s (activity_battery_percentage_work_handler E s)"
  by (simp add: aside_def keeps_uart_def keeps_svc_def no_pending_def wf_data_def activity_battery_percentage_work_handler_def
      write_nvs_data_def Let_def)

lemma aside_watchdog: "aside s (wdt_feed_work_handler s)"
  by (simp add: wdt_feed_work_handler_def)

lemma aside_adv_connected: "aside s (adv_connected s)"
  by (simp add: aside_def keeps_uart_def keeps_svc_def no_pending_def wf_data_def adv_connected_def Let_def)

lemma modes_clock:
  assumes "keeps_modes s t"
  shows "keeps_modes s (energy_save_logic E t)"
  using assms
  by (simp add: energy_save_logic_def app_time_is_within_energy_saving_window_def app_time_get_local_minutes_of_day_def Let_def
      case_prod_unfold)

lemma modes_supervisor: "keeps_modes s (time_supervisor_work_handler E s)"
  by (simp add: time_supervisor_work_handler_def modes_clock Let_def case_prod_unfold)

lemma modes_battery_updates [simp]:
  assumes "keeps_modes s t"
  shows "keeps_modes s (updateAdvBatmV E v t)" "keeps_modes s (updateAdvBatLevel E p t)"
    "keeps_modes s (snd (voltage_to_percent_convert val t))"
  using assms
  by (simp_all add: updateAdvBatmV_def updateAdvBatLevel_def push_payload_def voltage_to_percent_convert_def Let_def
      split: option.split)

lemma modes_battery:
  "keeps_modes s (battery_periodic_poll_handler E s)" "keeps_modes s (battery_level_set_work_handler E s)"
  "keeps_modes s (activity_battery_percentage_work_handler E s)"
  by (simp_all add: battery_periodic_poll_handler_def battery_level_set_work_handler_def battery_level_set_def
      battery_measure_def battery_voltage_get_def activity_battery_percentage_work_handler_def write_nvs_data_def
      Let_def case_prod_unfold)

lemma modes_watchdog: "keeps_modes s (wdt_feed_work_handler s)"
  by (simp add: wdt_feed_work_handler_def)

lemma modes_adv_connected: "keeps_modes s (adv_connected s)"
  by (simp add: adv_connected_def Let_def)

text \<open>The work handlers that serve the device rather than a client or a user.\<close>

definition service_handlers :: "env \<Rightarrow> ('a app_sys_scheme \<Rightarrow> 'a app_sys_scheme) list" where
  "service_handlers E = [time_supervisor_work_handler E, battery_periodic_poll_handler E, battery_level_set_work_handler E,
     activity_battery_percentage_work_handler E, wdt_feed_work_handler, adv_connected]"

lemma sys_inv_handler:
  assumes "sys_inv s" "h \<in> set (service_handlers E)"
  shows "sys_inv (h s)"
proof (rule sys_inv_aside [OF _ assms(1)])
  show "aside s (h s)"
    using assms(2) by (auto simp: service_handlers_def aside_supervisor aside_battery aside_activity aside_watchdog aside_adv_connected)
  have "keeps_modes s (h s)"
    using assms(2) by (auto simp: service_handlers_def modes_supervisor modes_battery modes_watchdog modes_adv_connected)
  then show "app_safe (h s)" using assms(1) by (simp add: sys_inv_def app_safe_keeps)
qed

section \<open>The factory reset\<close>

lemma and_then_rule: "P (snd r) \<Longrightarrow> (\<And>t. P t \<Longrightarrow> P (snd (f t))) \<Longrightarrow> P (snd (and_then r f))"
  by (cases r) (simp add: and_then_def)

lemma aside_call: "aside s t \<Longrightarrow> quiet e \<Longrightarrow> tx_frame_ok e \<Longrightarrow> aside s (snd (call E e t))"
  by (simp add: call_def Let_def)

lemma aside_reset_steps: "aside s t \<Longrightarrow> aside s (snd (factory_reset_steps E r a t))"
  unfolding factory_reset_steps_def by (intro and_then_rule [where P = "aside s"]) (simp_all add: aside_call)

lemma aside_reset_callbacks:
  assumes "aside s t"
  shows "aside s (factory_reset_prepare (factory_reset_cbs E) t)" "aside s (factory_reset_executed (factory_reset_cbs E) t)"
  using assms
  by (simp_all add: factory_reset_prepare_def factory_reset_executed_def factory_reset_cbs_def fmdn_factory_reset_prepare_def
      fmdn_factory_reset_executed_def dfu_factory_reset_prepare_def Let_def)

lemma aside_perform: "aside s t \<Longrightarrow> aside s (factory_reset_perform E (factory_reset_cbs E) t)"
  by (simp add: factory_reset_perform_def aside_reset_callbacks aside_reset_steps aside_panic aside_reboot Let_def case_prod_unfold)

text \<open>The part of the invariant that survives the halt: the modes and requests, not the advertising.\<close>

definition app_rest :: "'a app_sys_scheme \<Rightarrow> bool" where
  "app_rest s \<longleftrightarrow> ring_inv s \<and> req_inv s
     \<and> ui_active s APP_UI_STATE_DFU_MODE = dfu_mode (dfu s)
     \<and> ui_active s APP_UI_STATE_PROVISIONED = fmdn_provisioned (app s)
     \<and> ui_active s APP_UI_STATE_RECOVERY_MODE = fmdn_recovery_mode (app s)
     \<and> ui_active s APP_UI_STATE_ID_MODE = fmdn_id_mode (app s)"

lemma app_inv_rest: "app_inv s \<longleftrightarrow> app_rest s \<and> (halted s = None \<longrightarrow> fp_inv s)"
  by (auto simp: app_inv_def core_inv_def app_rest_def)

lemma app_safe_halted: "halted s \<noteq> None \<Longrightarrow> app_safe s = app_rest s"
  by (auto simp: app_safe_def app_inv_rest no_reset_running_def)

text \<open>What the steps of the reset do besides calling the library.\<close>

definition only_fp :: "'a app_sys_scheme \<Rightarrow> 'a app_sys_scheme \<Rightarrow> bool" where
  "only_fp s t \<longleftrightarrow> confined s t \<and> requested (fp t) = requested (fp s)"

lemma only_fp_trans: "only_fp s t \<Longrightarrow> only_fp t u \<Longrightarrow> only_fp s u"
  by (auto simp: only_fp_def intro: confined_trans)

lemma app_rest_confined: "only_fp s t \<Longrightarrow> app_rest s \<Longrightarrow> app_rest t"
  by (auto simp: only_fp_def confined_def app_rest_def ring_inv_def req_inv_def)

lemma only_fp_adv:
  assumes "only_fp s t"
  shows "only_fp s (snd (app_fp_adv_enable E t))" "only_fp s (snd (app_fp_adv_disable E t))"
proof -
  have "only_fp t (snd (app_fp_adv_enable E t))" "only_fp t (snd (app_fp_adv_disable E t))"
    using fp_do_requests [of E FE_enable t] fp_do_requests [of E FE_disable t] by (simp_all add: only_fp_def)
  with assms show "only_fp s (snd (app_fp_adv_enable E t))" "only_fp s (snd (app_fp_adv_disable E t))"
    by (blast intro: only_fp_trans)+
qed

lemma only_fp_call:
  "only_fp s t \<Longrightarrow> \<not> buzz_event e \<Longrightarrow> \<not> is_app_timer e \<Longrightarrow> only_fp s (snd (call E e t))"
  by (simp add: call_def only_fp_def confined_invoke Let_def)

lemma only_fp_reset_steps: "only_fp s t \<Longrightarrow> only_fp s (snd (factory_reset_steps E r a t))"
  unfolding factory_reset_steps_def
  by (intro and_then_rule [where P = "only_fp s"]) (simp_all add: only_fp_call only_fp_adv)

lemma app_rest_prepare: "app_inv s \<Longrightarrow> app_inv (factory_reset_prepare (factory_reset_cbs E) s)"
  by (simp add: app_inv_def req_inv_def factory_reset_prepare_def factory_reset_cbs_def fmdn_factory_reset_prepare_def
      dfu_factory_reset_prepare_def core_inv_dfu_change request_effect Let_def)

lemma app_rest_records [simp]:
  "app_rest (s\<lparr>fr := r\<rparr>) = app_rest s" "app_rest (s\<lparr>halted := h\<rparr>) = app_rest s"
  by (simp_all add: app_rest_def req_inv_def ring_inv_def ui_inv_def)

lemma app_rest_app [simp]:
  "fmdn_provisioned a = fmdn_provisioned (app s) \<Longrightarrow> fmdn_recovery_mode a = fmdn_recovery_mode (app s) \<Longrightarrow>
   fmdn_id_mode a = fmdn_id_mode (app s) \<Longrightarrow> fp_adv_ui_request a = fp_adv_ui_request (app s) \<Longrightarrow>
   app_rest (s\<lparr>app := a\<rparr>) = app_rest s"
  by (simp add: app_rest_def req_inv_def)

lemma app_rest_invoke [simp]: "\<not> buzz_event e \<Longrightarrow> app_rest (invoke e s) = app_rest s"
  by (simp add: app_rest_def req_inv_def ring_inv_def ui_inv_def)

lemma app_rest_check [simp]: "app_rest (check w b s) = app_rest s"
  by (simp add: check_def)

lemma app_rest_executed: "app_rest s \<Longrightarrow> app_rest (factory_reset_executed (factory_reset_cbs E) s)"
  by (simp add: factory_reset_executed_def factory_reset_cbs_def fmdn_factory_reset_executed_def Let_def)

lemma app_safe_perform:
  assumes "app_safe s" "halted s = None"
  shows "app_safe (factory_reset_perform E (factory_reset_cbs E) s)"
proof -
  define s1 where "s1 = invoke (FP Fp_is_ready) s"
  define s2 where "s2 = s1\<lparr>fr := (fr s1)\<lparr>factory_reset_state := APP_FACTORY_RESET_STATE_IN_PROGRESS\<rparr>\<rparr>"
  define s3 where "s3 = factory_reset_prepare (factory_reset_cbs E) s2"
  obtain err s4 where p: "factory_reset_steps E (result E s1 \<noteq> 0) (app_fp_adv_is_ready s1) s3 = (err, s4)" by fastforce
  have idle: "factory_reset_state (fr s) \<noteq> APP_FACTORY_RESET_STATE_IN_PROGRESS"
    using assms by (simp add: app_safe_def no_reset_running_def)
  have "app_inv s1" using assms(1) by (intro app_inv_keeps [of s s1]) (simp_all add: s1_def app_safe_def)
  then have "app_inv s2" by (simp add: s2_def app_inv_def req_inv_def)
  then have "app_inv s3" unfolding s3_def by (rule app_rest_prepare)
  then have "app_rest s3" by (simp add: app_inv_rest)
  moreover have "only_fp s3 s4"
    using only_fp_reset_steps [of s3 s3 E "result E s1 \<noteq> 0" "app_fp_adv_is_ready s1"] p by (simp add: only_fp_def)
  ultimately have "app_rest s4" by (rule app_rest_confined [rotated])
  then show ?thesis
    using p idle
    by (simp add: factory_reset_perform_def Let_def app_safe_halted app_rest_executed flip: s1_def s2_def [simplified] s3_def)
      (simp add: s1_def k_panic_def sys_reboot_def app_rest_executed)
qed

lemma sys_inv_reset:
  assumes "sys_inv s" "halted s = None"
  shows "sys_inv (factory_reset_work_handle E (factory_reset_cbs E) s)"
  unfolding factory_reset_work_handle_def
  using assms by (intro sys_inv_aside [OF aside_perform]) (simp_all add: sys_inv_def app_safe_perform)

section \<open>Ringing timer and LED thread\<close>

lemma app_safe_cancel_ringing:
  assumes "app_safe s" "halted s = None"
  shows "app_safe (cancel_ringing_work_handle (request_listeners E junk) s)"
proof -
  have stop: "app_ui_request_broadcast (request_listeners E junk) APP_UI_REQUEST_RINGING_STOP s
      = ring_request_handle E APP_UI_REQUEST_RINGING_STOP s"
    by (rule broadcast_stop)
  have "same_reset s (ring_request_handle E APP_UI_REQUEST_RINGING_STOP s)"
    by (simp add: ring_request_handle_def same_reset_ring)
  then show ?thesis
    using assms app_inv_listeners(3) [of s E APP_UI_REQUEST_RINGING_STOP] same_reset_running [of s]
    by (auto simp: cancel_ringing_work_handle_def stop app_safe_def)
qed

lemma aside_cancel_ringing: "aside s (cancel_ringing_work_handle (request_listeners E junk) s)"
  by (simp add: cancel_ringing_work_handle_def aside_broadcast request_listeners_aside)

lemma led_round_keeps: "aside s (led_thread_round s)" "keeps_modes s (led_thread_round s)"
proof -
  have "aside s t \<and> keeps_modes s t \<Longrightarrow> aside s (fold (\<lambda>st s. if ui_active s st then led_blink_once 500 s else s) xs t)
      \<and> keeps_modes s (fold (\<lambda>st s. if ui_active s st then led_blink_once 500 s else s) xs t)" for xs t
    by (induction xs arbitrary: t) (simp_all add: led_blink_once_def)
  then show "aside s (led_thread_round s)" "keeps_modes s (led_thread_round s)"
    by (simp_all add: led_thread_round_def)
qed

end
