(* ===== verification/System.thy ===== *)
theory System
  imports Compose
begin

text \<open>
  The whole firmware as one step relation, from the boot on: every thread, callback and work
  item of every module may run next, in any order.  The callbacks that several modules
  register for one event of the Bluetooth host or of the library are composed here as their
  registrations say.
\<close>

section \<open>The boot\<close>

text \<open>
  A step of the boot, whatever it returns, leaves a consistent system; when it succeeds it
  also establishes \<open>Q\<close>.
\<close>

definition guards :: "('a app_sys_scheme \<Rightarrow> bool) \<Rightarrow> ('a app_sys_scheme \<Rightarrow> (int \<times> 'a app_sys_scheme) option) \<Rightarrow>
    ('a app_sys_scheme \<Rightarrow> bool) \<Rightarrow> bool" where
  "guards P f Q \<longleftrightarrow> (\<forall>s err t. P s \<longrightarrow> halted s = None \<longrightarrow> f s = Some (err, t) \<longrightarrow>
     sys_inv t \<and> (err = 0 \<longrightarrow> halted t = None \<longrightarrow> Q t))"

lemma guards_Nil: "(\<And>s. P s \<Longrightarrow> sys_inv s) \<Longrightarrow> guards P (run_steps []) P"
  by (simp add: guards_def)

lemma guards_Cons:
  assumes "guards P f Q" "guards Q (run_steps fs) R"
  shows "guards P (run_steps (f # fs)) R"
  unfolding guards_def
proof (intro allI impI)
  fix s err t
  assume s: "P s" "halted s = None" "run_steps (f # fs) s = Some (err, t)"
  then obtain e1 s1 where f: "f s = Some (e1, s1)" by (auto split: option.splits)
  have 1: "sys_inv s1" "e1 = 0 \<Longrightarrow> halted s1 = None \<Longrightarrow> Q s1"
    using assms(1) s(1,2) f unfolding guards_def by blast+
  show "sys_inv t \<and> (err = 0 \<longrightarrow> halted t = None \<longrightarrow> R t)"
  proof (cases "e1 \<noteq> 0 \<or> halted s1 \<noteq> None")
    case True
    then show ?thesis using s(3) f 1(1) by auto
  next
    case False
    then show ?thesis using s(3) f 1 assms(2) by (auto simp: guards_def)
  qed
qed

text \<open>Before the Fast Pair module is enabled; \<open>reg\<close> once it is initialised and main.c has registered.\<close>

definition booting :: "bool \<Rightarrow> 'a app_sys_scheme \<Rightarrow> bool" where
  "booting reg s \<longleftrightarrow> sys_inv s \<and> fp_adv_set (fp s) = None \<and> \<not> is_enabled (fp s) \<and> \<not> fp_adv_ui_request (app s)
     \<and> factory_reset_state (fr s) = APP_FACTORY_RESET_STATE_IDLE
     \<and> (reg \<longrightarrow> is_initialized (fp s) \<and> fast_pair_adv_info_cb (fp s))"

lemma booting_inv: "booting reg s \<Longrightarrow> sys_inv s"
  by (simp add: booting_def)

text \<open>Most steps stay aside and keep the modes.\<close>

lemma booting_keeps:
  assumes "booting reg s" "aside s t" "keeps_modes s t"
  shows "booting reg t"
  using assms sys_inv_aside [OF assms(2)] app_safe_keeps [OF assms(3)]
  by (simp add: booting_def keeps_modes_def sys_inv_def)

lemma guards_keep:
  assumes "\<And>s. aside s (snd (g s))" "\<And>s. keeps_modes s (snd (g s))"
  shows "guards (booting reg) (\<lambda>s. Some (g s)) (booting reg)"
  unfolding guards_def
proof (intro allI impI)
  fix s :: "'a app_sys_scheme" and err t
  assume "booting reg s" "Some (g s) = Some (err, t)"
  moreover from this have "t = snd (g s)" by simp
  ultimately have "booting reg t" using booting_keeps [OF _ assms] by simp
  then show "sys_inv t \<and> (err = 0 \<longrightarrow> halted t = None \<longrightarrow> booting reg t)" by (simp add: booting_inv)
qed

lemma guards_call:
  "\<not> buzz_event e \<Longrightarrow> \<not> is_assert_fail e \<Longrightarrow> quiet e \<Longrightarrow> tx_frame_ok e \<Longrightarrow>
   guards (booting reg) (\<lambda>s. Some (call E e s)) (booting reg)"
  by (intro guards_keep) (simp_all add: call_def Let_def)

text \<open>The speaker is switched off at its initialisation.\<close>

lemma guards_ui_init: "guards (booting reg) (\<lambda>s :: 'a app_sys_scheme. Some (app_ui_init E s)) (booting reg)"
  unfolding guards_def
proof (intro allI impI)
  fix s t :: "'a app_sys_scheme" and err
  assume s: "booting reg s" and t: "Some (app_ui_init E s) = Some (err, t)"
  have a: "aside s (snd (app_ui_init E s))"
    by (simp add: app_ui_init_def app_ui_speaker_init_def Let_def)
  have "app_inv (invoke (DEV (Pwm_set False)) u)" if "app_inv u" for u :: "'a app_sys_scheme"
    using that by (cases "buzz (trace u)") (auto simp: app_inv_def core_inv_def req_inv_def ring_inv_def ui_inv_def)
  moreover have "app_inv (invoke e u)" if "app_inv u" "\<not> buzz_event e" "\<not> is_assert_fail e" for e and u :: "'a app_sys_scheme"
    by (rule app_inv_keeps [of u]) (simp_all add: that)
  ultimately have "app_inv u \<Longrightarrow> app_inv (snd (app_ui_init E u))" for u :: "'a app_sys_scheme"
    by (simp add: app_ui_init_def app_ui_speaker_init_def Let_def)
  moreover have "fp (snd (app_ui_init E s)) = fp s \<and> app (snd (app_ui_init E s)) = app s
      \<and> fr (snd (app_ui_init E s)) = fr s \<and> halted (snd (app_ui_init E s)) = halted s"
    by (simp add: app_ui_init_def app_ui_speaker_init_def Let_def)
  moreover have "t = snd (app_ui_init E s)" using t by simp
  ultimately have "booting reg t"
    using s sys_inv_aside [OF a] by (simp add: booting_def sys_inv_def app_safe_def no_reset_running_def)
  then show "sys_inv t \<and> (err = 0 \<longrightarrow> halted t = None \<longrightarrow> booting reg t)" by (simp add: booting_inv)
qed

text \<open>The identity loop makes calls only, whenever it returns.\<close>

lemma id_loop_calls: "app_id_create_loop E s = Some r \<Longrightarrow> only_calls s (snd r)"
  by (erule app_id_create_loop.raw_induct [where P = "\<lambda>E s r. only_calls s (snd r)", rotated])
    (auto simp: Let_def split: if_splits intro: only_calls_trans [OF only_calls_invoke])

lemma calls_keep:
  assumes "only_calls s t"
  shows "aside s t" "keeps_modes s t"
proof -
  obtain es where es: "t = s\<lparr>trace := trace s @ es\<rparr>" "set es \<subseteq> {BT Id_get, BT Id_create}"
    using assms by (auto simp: only_calls_def)
  have "fold invoke es u = u\<lparr>trace := trace u @ es\<rparr>" for u :: "'a app_sys_scheme"
    by (induction es arbitrary: u) (simp_all add: invoke_def)
  then have t: "t = fold invoke es s" using es(1) by simp
  have "aside s u \<and> keeps_modes s u \<Longrightarrow> aside s (fold invoke es u) \<and> keeps_modes s (fold invoke es u)" for u
    using es(2)
  proof (induction es arbitrary: u)
    case (Cons e es)
    then have "e = BT Id_get \<or> e = BT Id_create" by simp
    then have "aside s (invoke e u) \<and> keeps_modes s (invoke e u)" using Cons.prems(1) by (elim disjE) simp_all
    with Cons.IH [of "invoke e u"] Cons.prems(2) show ?case by simp
  qed simp
  then show "aside s t" "keeps_modes s t" by (simp_all add: t)
qed

lemma id_create_calls:
  assumes "app_id_create E s = Some (r, t)"
  shows "only_calls s t"
proof (cases "int APP_BT_ID < outval E (invoke (BT Id_get) s)")
  case True
  then show ?thesis using assms by (auto simp: app_id_create_def Let_def)
next
  case False
  then have "app_id_create_loop E (invoke (BT Id_get) s) = Some (r, t)" using assms by (simp add: app_id_create_def Let_def)
  from id_loop_calls [OF this] show ?thesis by (auto intro: only_calls_trans [OF only_calls_invoke])
qed

lemma guards_id_create: "guards (booting reg) (app_id_create E) (booting reg)"
  unfolding guards_def using booting_keeps [OF _ calls_keep [OF id_create_calls]] booting_inv by blast

text \<open>The devices, the storage and the library callbacks.\<close>

lemma guards_ring: "guards (booting reg) (\<lambda>s :: 'a app_sys_scheme. Some (app_ring_init E s)) (booting reg)"
  by (intro guards_keep) (simp_all add: app_ring_init_def Let_def)

lemma guards_nvs: "guards (booting reg) (\<lambda>s :: 'a app_sys_scheme. Some (app_nvs_handler_init E s)) (booting reg)"
proof (intro guards_keep)
  fix s :: "'a app_sys_scheme"
  show "aside s (snd (app_nvs_handler_init E s))"
    by (simp add: aside_def keeps_uart_def keeps_svc_def no_pending_def wf_data_def app_nvs_handler_init_def Let_def)
  show "keeps_modes s (snd (app_nvs_handler_init E s))"
    by (simp add: app_nvs_handler_init_def Let_def)
qed

lemma battery_init_keeps: "aside s (snd (battery_init E s))" "keeps_modes s (snd (battery_init E s))"
  by (simp_all add: battery_init_def Let_def)

lemma modes_measure: "keeps_modes s t \<Longrightarrow> keeps_modes s (snd (battery_measure E t))"
  by (simp add: battery_measure_def battery_voltage_get_def Let_def case_prod_unfold)

lemma level_set_keeps:
  "aside s t \<Longrightarrow> aside s (snd (battery_level_set E b t))" "keeps_modes s t \<Longrightarrow> keeps_modes s (snd (battery_level_set E b t))"
  by (simp_all add: battery_level_set_def Let_def)

lemma level_set_init_keeps:
  "aside s t \<Longrightarrow> aside s (snd (battery_level_set_init E t))"
  "keeps_modes s t \<Longrightarrow> keeps_modes s (snd (battery_level_set_init E t))"
  by (simp_all add: battery_level_set_init_def Let_def case_prod_unfold aside_measure modes_measure level_set_keeps)

lemma app_battery_keeps: "aside s (snd (app_battery_init E s))" "keeps_modes s (snd (app_battery_init E s))"
  by (simp_all add: app_battery_init_def Let_def case_prod_unfold battery_init_keeps level_set_init_keeps)

lemma guards_battery: "guards (booting reg) (\<lambda>s :: 'a app_sys_scheme. Some (app_battery_init E s)) (booting reg)"
  by (intro guards_keep app_battery_keeps)

lemma guards_fmdn: "guards (booting reg) (\<lambda>s :: 'a app_sys_scheme. Some (fmdn_prepare E s)) (booting reg)"
proof (intro guards_keep)
  fix s :: "'a app_sys_scheme"
  show "aside s (snd (fmdn_prepare E s))"
    unfolding fmdn_prepare_def
    by (intro and_then_rule [where P = "aside s"])
      (simp_all add: aside_call CONFIG_BT_FAST_PAIR_FMDN_DULT_MOTION_DETECTOR_def)
  have c: "keeps_modes s (snd (call E e t))" if "keeps_modes s t" "\<not> buzz_event e" "\<not> is_assert_fail e" for e t
    using that by (simp add: call_def Let_def)
  show "keeps_modes s (snd (fmdn_prepare E s))"
    unfolding fmdn_prepare_def
    by (intro and_then_rule [where P = "keeps_modes s"])
      (simp_all add: c CONFIG_BT_FAST_PAIR_FMDN_DULT_MOTION_DETECTOR_def)
qed

text \<open>The Fast Pair module is prepared by three of its own operations.\<close>

lemma booting_fp:
  assumes "conn_indices E idx" "booting reg s" "halted s = None" "e = FE_init \<or> e = FE_id_set i \<or> e = FE_register cb"
  shows "booting reg (fp_do E e s) \<and> halted (fp_do E e s) = None"
proof -
  have "app_ok (AP_fp e) s" using assms(3,4) by (auto simp: app_ok_def)
  then have "sys_inv (fp_do E e s)" using sys_inv_app [OF assms(1), of s "AP_fp e" 0] assms(2) by (simp add: booting_def)
  moreover have "halted (fp_do E e s) = None" "app (fp_do E e s) = app s" "fr (fp_do E e s) = fr s"
    using confined_do [of s E e] assms(3) by (simp_all add: confined_def)
  moreover have "fp_adv_set (fp (fp_do E e s)) = fp_adv_set (fp s) \<and> is_enabled (fp (fp_do E e s)) = is_enabled (fp s)
      \<and> (is_initialized (fp s) \<longrightarrow> is_initialized (fp (fp_do E e s)))
      \<and> (fast_pair_adv_info_cb (fp s) \<longrightarrow> fast_pair_adv_info_cb (fp (fp_do E e s)))"
    using assms(4) by (elim disjE) (simp_all add: app_fp_adv_init_def app_fp_adv_id_set_def app_fp_adv_info_cb_register_def Let_def)
  ultimately show ?thesis using assms(2) by (auto simp: booting_def)
qed

lemma guards_fast_pair:
  assumes "conn_indices E idx"
  shows "guards (booting False) (\<lambda>s :: 'a app_sys_scheme. Some (fast_pair_prepare E s)) (booting True)"
  unfolding guards_def
proof (intro allI impI)
  fix s t :: "'a app_sys_scheme" and err
  assume s: "booting False s" "halted s = None" and t: "Some (fast_pair_prepare E s) = Some (err, t)"
  obtain e1 s1 where 1: "app_fp_adv_init E s = (e1, s1)" by fastforce
  obtain e2 s2 where 2: "app_fp_adv_id_set (of_nat APP_BT_ID) s1 = (e2, s2)" by fastforce
  obtain e3 s3 where 3: "app_fp_adv_info_cb_register True s2 = (e3, s3)" by fastforce
  have b1: "booting False s1 \<and> halted s1 = None" using booting_fp [OF assms s, of FE_init] by (simp add: 1)
  have b2: "booting False s2 \<and> halted s2 = None"
    using booting_fp [OF assms, of False s1 "FE_id_set (of_nat APP_BT_ID)"] b1 by (simp add: 2)
  have b3: "booting False s3" using booting_fp [OF assms, of False s2 "FE_register True"] b2 by (simp add: 3)
  have i1: "e1 = 0 \<Longrightarrow> is_initialized (fp s1)" using 1 by (auto simp: app_fp_adv_init_def Let_def split: if_splits)
  have i2: "is_initialized (fp s2) = is_initialized (fp s1)" using 2 by (auto simp: app_fp_adv_id_set_def split: if_splits)
  have i3: "is_initialized (fp s3) = is_initialized (fp s2)" "e3 = 0 \<Longrightarrow> fast_pair_adv_info_cb (fp s3)"
    using 3 by (auto simp: app_fp_adv_info_cb_register_def EACCES_def EINVAL_def EALREADY_def split: if_splits)
  show "sys_inv t \<and> (err = 0 \<longrightarrow> halted t = None \<longrightarrow> booting True t)"
    using t b1 b2 b3 i1 i2 i3
    by (auto simp: fast_pair_prepare_def and_then_def 1 2 3 booting_def split: if_splits)
qed

text \<open>The Vision frame: the advertiser, then the buffers of the service.\<close>

lemma custom_init_keeps:
  assumes "ble_adv_custom_init E s = (e, t)"
  shows "aside s t" "keeps_modes s t"
proof -
  have i: "aside s v \<and> keeps_modes s v" if "app_vision_custom_id_create E u = (r, v)" "aside s u" "keeps_modes s u" for r u v
    using that by (auto simp: app_vision_custom_id_create_def Let_def split: if_splits)
  show "aside s t" "keeps_modes s t"
    using assms by (auto simp: ble_adv_custom_init_def Let_def dest!: i split: prod.splits if_splits)
qed

lemma guards_vision:
  "guards (booting reg) (\<lambda>s :: 'a app_sys_scheme. Some (vision_frame_prepare E s)) (booting reg)"
  unfolding guards_def
proof (intro allI impI)
  fix s t :: "'a app_sys_scheme" and err
  assume s: "booting reg s" "halted s = None" and t: "Some (vision_frame_prepare E s) = Some (err, t)"
  obtain e1 s1 where 1: "ble_adv_custom_init E s = (e1, s1)" by fastforce
  have b1: "booting reg s1" using booting_keeps [OF s(1) custom_init_keeps [OF 1]] .
  have "sys_inv (snd (ble_custom_service_init s1))" using sys_inv_svc [of s1 SE_init E] b1 by (simp add: booting_def)
  then have "booting reg (snd (ble_custom_service_init s1))"
    using b1 by (simp add: booting_def ble_custom_service_init_def Let_def)
  then show "sys_inv t \<and> (err = 0 \<longrightarrow> halted t = None \<longrightarrow> booting reg t)"
    using t b1 by (auto simp: vision_frame_prepare_def and_then_def 1 booting_inv split: if_splits prod.splits)
qed

text \<open>A reset that was requested during the boot halts the processor.\<close>

lemma guards_reset:
  "guards (booting reg) (\<lambda>s :: 'a app_sys_scheme. Some (app_factory_reset_init E (factory_reset_cbs E) s)) (booting reg)"
  unfolding guards_def
proof (intro allI impI)
  fix s t :: "'a app_sys_scheme" and err
  assume s: "booting reg s" "halted s = None"
    and t: "Some (app_factory_reset_init E (factory_reset_cbs E) s) = Some (err, t)"
  have idle: "check ''IDLE'' (factory_reset_state (fr s) = APP_FACTORY_RESET_STATE_IDLE) s = s"
    using s(1) by (simp add: booting_def check_def)
  show "sys_inv t \<and> (err = 0 \<longrightarrow> halted t = None \<longrightarrow> booting reg t)"
  proof (cases "factory_reset_ui_requested (fr s)")
    case True
    define s2 where "s2 = upd_fr (factory_reset_ui_requested_update (\<lambda>_. False)) s"
    have p: "t = factory_reset_perform E (factory_reset_cbs E) s2"
      using t True by (simp add: app_factory_reset_init_def idle s2_def)
    have "aside s s2" by (simp add: s2_def)
    moreover have "app_safe s2"
      using s(1) by (simp add: s2_def booting_def sys_inv_def app_safe_def app_inv_def req_inv_def no_reset_running_def)
    ultimately have 2: "sys_inv s2" using sys_inv_aside [of s s2] booting_inv [OF s(1)] by blast
    have h: "halted s2 = None" "factory_reset_state (fr s2) \<noteq> APP_FACTORY_RESET_STATE_IN_PROGRESS"
      using s by (simp_all add: s2_def booting_def)
    have "sys_inv t" using sys_inv_reset [OF 2 h(1), of E] by (simp add: p factory_reset_work_handle_def)
    moreover have "halted t \<noteq> None" using perform_spec [OF reset_cbs_ok [of E] h(2,1), of E] by (auto simp: p)
    ultimately show ?thesis by blast
  next
    case False
    then have "t = s" using t by (simp add: app_factory_reset_init_def idle)
    then show ?thesis using s booting_inv by blast
  qed
qed

text \<open>The storage: a failure leaves the structures their sizes.\<close>

lemma storage_sizes: "wf_data s \<Longrightarrow> wf_data (snd (app_storage_verify_and_load E s))"
proof -
  assume w: "wf_data s"
  obtain r1 s1 where 1: "verify_production E s = (r1, s1)" by fastforce
  obtain r2 s2 where 2: "verify_config E s1 = (r2, s2)" by fastforce
  obtain r3 s3 where 3: "verify_dynamic E s2 = (r3, s3)" by fastforce
  have wf: "wf_prod (prod s)" "wf_conf (conf s)" using w by (simp_all add: wf_data_def)
  note p = verify_production_spec [OF 1 wf(1)]
  have c: "wf_conf (conf s1)" using p(4) wf(2) by simp
  note q = verify_config_spec [OF 2 c]
  note r = verify_dynamic_spec [OF 3]
  show ?thesis
    using w p q r by (auto simp: app_storage_verify_and_load_def 1 2 3 wf_data_def len_defs)
qed

lemma nvs_keeps:
  "write_nvs_data E k b s = (r, t) \<Longrightarrow> t = invoke (DEV (Nvs_write k b)) s"
  "read_nvs_data E k b s = (r, d, t) \<Longrightarrow> t = invoke (DEV (Nvs_read k (length b))) s"
  by (auto simp: write_nvs_data_def read_nvs_data_def Let_def)

lemma verify_keeps:
  "keeps_modes s (snd (verify_production E s))" "keeps_modes s (snd (verify_config E s))" "keeps_modes s (snd (verify_dynamic E s))"
  by (auto simp: verify_production_def verify_config_def verify_dynamic_def Let_def split: prod.split dest!: nvs_keeps)

definition beside_data :: "'a app_sys_scheme \<Rightarrow> 'a app_sys_scheme \<Rightarrow> bool" where
  "beside_data s t \<longleftrightarrow> keeps_uart s t \<and> keeps_svc s t \<and> keeps_modes s t \<and> (locks (trace s) = Free \<longrightarrow> locks (trace t) = Free)"

lemma beside_trans: "beside_data s t \<Longrightarrow> beside_data t u \<Longrightarrow> beside_data s u"
  by (auto simp: beside_data_def keeps_modes_def intro: keeps_uart_trans keeps_svc_trans)

lemma beside_verify:
  "beside_data s (snd (verify_production E s))" "beside_data s (snd (verify_config E s))" "beside_data s (snd (verify_dynamic E s))"
  using verify_keeps [of s E]
  by (auto simp: beside_data_def verify_production_def verify_config_def verify_dynamic_def Let_def split: prod.split dest!: nvs_keeps)

lemma beside_storage: "beside_data s (snd (app_storage_verify_and_load E s))"
proof -
  obtain r1 s1 where 1: "verify_production E s = (r1, s1)" by fastforce
  obtain r2 s2 where 2: "verify_config E s1 = (r2, s2)" by fastforce
  obtain r3 s3 where 3: "verify_dynamic E s2 = (r3, s3)" by fastforce
  have b: "beside_data s s1" "beside_data s1 s2" "beside_data s2 s3"
    using beside_verify(1) [of s E] beside_verify(2) [of s1 E] beside_verify(3) [of s2 E] by (simp_all add: 1 2 3)
  then have c: "beside_data s s2" "beside_data s s3" by (blast intro: beside_trans)+
  then have "beside_data s (read_raw_factory_mac E s3)" by (simp add: beside_data_def read_raw_factory_mac_def Let_def)
  with b c show ?thesis by (simp add: app_storage_verify_and_load_def 1 2 3)
qed

lemma guards_storage: "guards (booting reg) (\<lambda>s :: 'a app_sys_scheme. Some (app_storage_verify_and_load E s)) (booting reg)"
proof (intro guards_keep)
  fix s :: "'a app_sys_scheme"
  show "aside s (snd (app_storage_verify_and_load E s))" "keeps_modes s (snd (app_storage_verify_and_load E s))"
    using beside_storage [of s E] storage_sizes [of s E] by (simp_all add: beside_data_def aside_def)
qed

text \<open>The module is enabled, and the rest of the boot reads the provisioning state and starts the services.\<close>

definition enabled :: "'a app_sys_scheme \<Rightarrow> bool" where
  "enabled s \<longleftrightarrow> sys_inv s \<and> \<not> fp_adv_ui_request (app s)"

lemma guards_enable:
  assumes "conn_indices E idx"
  shows "guards (booting True) (\<lambda>s :: 'a app_sys_scheme. Some (app_fp_adv_enable E s)) enabled"
  unfolding guards_def
proof (intro allI impI)
  fix s t :: "'a app_sys_scheme" and err
  assume s: "booting True s" "halted s = None" and "Some (app_fp_adv_enable E s) = Some (err, t)"
  then have t: "t = fp_do E FE_enable s" by simp
  have "app_ok (AP_fp FE_enable) s" using s by (simp add: app_ok_def booting_def)
  then have "sys_inv t" using sys_inv_app [OF assms, of s "AP_fp FE_enable" 0] s(1) by (simp add: t booting_def)
  moreover have "app t = app s" using confined_do [of s E FE_enable] by (simp add: t confined_def)
  ultimately show "sys_inv t \<and> (err = 0 \<longrightarrow> halted t = None \<longrightarrow> enabled t)" using s(1) by (simp add: enabled_def booting_def)
qed

lemma time_init_keeps: "aside s (app_time_activities_init E s)" "keeps_modes s (app_time_activities_init E s)"
  by (simp_all add: aside_def keeps_uart_def keeps_svc_def no_pending_def wf_data_def app_time_activities_init_def
      app_time_manager_boot_recover_def Let_def)

lemma watchdog_keeps:
  "aside s (snd (app_watchdog_init E s))" "keeps_modes s (snd (app_watchdog_init E s))" for s :: "'a app_sys_scheme"
proof -
  have w: "aside s (t\<lparr>wdt_channel_id := w\<rparr>)" if "aside s t" for t :: "'a app_sys_scheme" and w
    by (rule aside_same [OF that]) simp_all
  have k: "keeps_modes s (t\<lparr>wdt_channel_id := w\<rparr>) = keeps_modes s t" for t :: "'a app_sys_scheme" and w
    by (simp add: keeps_modes_def)
  show "aside s (snd (app_watchdog_init E s))" "keeps_modes s (snd (app_watchdog_init E s))"
    by (simp_all add: app_watchdog_init_def w k Let_def)
qed

lemma sys_inv_stays:
  assumes "aside s t" "keeps_modes s t" "sys_inv s"
  shows "sys_inv t"
  using assms app_safe_keeps [OF assms(2)] by (intro sys_inv_aside [OF assms(1)]) (simp_all add: sys_inv_def)

lemma sys_inv_invoke:
  "sys_inv s \<Longrightarrow> \<not> buzz_event e \<Longrightarrow> \<not> is_assert_fail e \<Longrightarrow> quiet e \<Longrightarrow> tx_frame_ok e \<Longrightarrow> sys_inv (invoke e s)"
  by (rule sys_inv_stays [of s]) simp_all

lemma running_reports: "halted (fmdn_provisioning_state_init E s) = halted s"
  by (simp add: fmdn_provisioning_state_init_def schedule_defs fmdn_provisioning_state_set_def Let_def)

lemma sys_inv_finish:
  fixes s :: "'a app_sys_scheme"
  assumes "conn_indices E idx" "enabled s" "halted s = None"
  shows "sys_inv (init_finish E s)"
proof -
  define s1 where "s1 = fmdn_provisioning_state_init E s"
  define s2 where "s2 = app_time_activities_init E s1"
  define s3 where "s3 = app_uart_boot_sequence_start E s2"
  obtain err s4 where 4: "app_watchdog_init E s3 = (err, s4)" by fastforce
  define s5 where "s5 = (if err = 0 then app_watchdog_start_feeding s4 else s4)"
  have "sys_inv s1" using sys_inv_app [OF assms(1), of s AP_init 0] assms(2,3) by (simp add: s1_def enabled_def app_ok_def)
  moreover have "halted s1 = None" using assms(3) by (simp add: s1_def running_reports)
  ultimately have "sys_inv s2" "halted s2 = None"
    using sys_inv_stays [OF time_init_keeps, of s1 E] by (simp_all add: s2_def) (simp add: app_time_activities_init_def
      app_time_manager_boot_recover_def Let_def)
  then have "sys_inv s3" using sys_inv_uart [of s2 UE_boot E] by (simp add: s3_def)
  then have "sys_inv s4" using sys_inv_stays [OF watchdog_keeps, of s3 E] by (simp add: 4)
  then have "sys_inv s5" by (simp add: s5_def app_watchdog_start_feeding_def sys_inv_invoke)
  then have "sys_inv (invoke (K Sem_give) s5)" by (simp add: sys_inv_invoke)
  then show ?thesis by (simp add: init_finish_def Let_def 4 s5_def flip: s1_def s2_def s3_def)
qed

text \<open>The whole boot.\<close>

lemma sys_inv_boot:
  assumes "conn_indices E idx" "booting False s" "halted s = None" "init_work_handle E s = Some t"
  shows "sys_inv t"
proof -
  have call: "guards (booting reg) (\<lambda>s. Some (call E e s)) (booting reg)"
    if "e \<in> {BT Conn_auth_cb_register, BT Gatt_authorization_cb_register, BT Bt_enable, BT Settings_load, FP Fp_enable}" for reg e
    using that by (intro guards_call) auto
  have "guards (booting False) (run_steps (init_steps_platform E @ init_steps_app E)) enabled"
    unfolding init_steps_platform_def init_steps_app_def append.simps
    by (intro guards_Cons [OF guards_ui_init] guards_Cons [OF call] guards_Cons [OF guards_id_create]
        guards_Cons [OF guards_battery] guards_Cons [OF guards_ring] guards_Cons [OF guards_nvs]
        guards_Cons [OF guards_storage] guards_Cons [OF guards_fast_pair [OF assms(1)]] guards_Cons [OF guards_fmdn]
        guards_Cons [OF guards_vision] guards_Cons [OF guards_reset] guards_Cons [OF guards_enable [OF assms(1)]] guards_Nil)
      (simp_all add: enabled_def)
  moreover obtain err u where u: "run_steps (init_steps_platform E @ init_steps_app E) s = Some (err, u)"
    "t = (if err \<noteq> 0 \<or> halted u \<noteq> None then u else init_finish E u)"
    using assms(4) by (auto simp: init_work_handle_def split: option.splits)
  ultimately have "sys_inv u" "err = 0 \<Longrightarrow> halted u = None \<Longrightarrow> enabled u"
    using assms(2,3) unfolding guards_def by blast+
  then show ?thesis using u(2) sys_inv_finish [OF assms(1)] by auto
qed

text \<open>The state at power on: zeroed memory with the static initial values.\<close>

definition power_on :: app_sys where
  "power_on = set_DynamicData zero_DynamicData app_init_state"

lemma power_on_records: "gd power_on = blank_gst" "ua power_on = uart_st_init" "svc power_on = svc_st_init"
  by (simp_all add: power_on_def app_init_state_def fr_sys.extend_def fr_init_state_def fp_sys.extend_def fp_init_state_def
      bat_sys.extend_def bat_init_state_def dev_sys.extend_def ring_sys.extend_def ring_init_state_def svc_sys.extend_def
      svc_init_state_def dfu_sys.extend_def dfu_init_state_def ui_sys.extend_def ui_init_state_def uart_sys.extend_def
      uart_init_state_def set_DynamicData_def blank_gst_def)

lemma power_on_inv: "booting False power_on"
proof -
  have w: "wf_data power_on" using wf_data_init by (simp add: wf_data_def power_on_records data_init_def)
  have t: "trace power_on = []" by (simp add: power_on_def)
  have "uart_inv power_on"
    using w by (simp add: uart_inv_def uart_core_def power_on_records uart_st_init_def no_pending_def locks_def t)
  moreover have "svc_inv power_on"
    using w by (simp add: svc_inv_def svc_core_def svc_settled_def power_on_records svc_st_init_def locks_def conn_refs_def held_def t)
  moreover have "app_safe power_on"
    by (rule app_safe_keeps [of app_init_state])
      (simp_all add: power_on_def app_safe_def no_reset_running_def fr_st_init_def)
  ultimately show ?thesis
    by (simp add: booting_def sys_inv_def power_on_def set_DynamicData_def fr_st_init_def fp_st_init_def app_st_init_def)
qed

lemma booting_start: "booting False (invoke (K (Work_submit W_init)) power_on)"
  by (rule booting_keeps [OF power_on_inv]) simp_all

section \<open>The running firmware\<close>

text \<open>
  One step: an event of the application, the UART or the Vision service, a work handler, the
  timer that ends the ringing, a round of the LED thread, or the reset work, on a running
  processor.  \<open>junk\<close> is the indeterminate value of an uninitialised variable.
\<close>

inductive fw_step :: "env \<Rightarrow> 'a app_sys_scheme \<Rightarrow> 'a app_sys_scheme \<Rightarrow> bool" for E where
  application: "app_ok e s \<Longrightarrow> fw_step E s (app_do E junk e s)"
| uart: "uart_ok e s \<Longrightarrow> fw_step E s (uart_do E e s)"
| service: "halted s = None \<Longrightarrow> svc_ok e s \<Longrightarrow> fw_step E s (svc_do E e s)"
| handler: "halted s = None \<Longrightarrow> h \<in> set (service_handlers E) \<Longrightarrow> fw_step E s (h s)"
| ringing_timer: "halted s = None \<Longrightarrow> fw_step E s (cancel_ringing_work_handle (request_listeners E junk) s)"
| leds: "halted s = None \<Longrightarrow> fw_step E s (led_thread_round s)"
| reset: "halted s = None \<Longrightarrow> fw_step E s (factory_reset_work_handle E (factory_reset_cbs E) s)"

text \<open>
  The reachable states: \<open>main\<close> runs, and while it waits for the semaphore the work queue
  runs the initialisation, which returns \<open>t\<close>; then any steps.
\<close>

inductive reachable :: "env \<Rightarrow> app_sys \<Rightarrow> bool" for E where
  boot: "init_work_handle E (invoke (K (Work_submit W_init)) power_on) = Some t \<Longrightarrow>
    reachable E (snd (main E (\<lambda>_. t) power_on))"
| step: "reachable E s \<Longrightarrow> fw_step E s t \<Longrightarrow> reachable E t"

lemma sys_inv_step:
  assumes "fw_step E s t" "conn_indices E idx" "sys_inv s"
  shows "sys_inv t"
  using assms
proof (cases rule: fw_step.cases)
  case (application e junk)
  then show ?thesis using assms sys_inv_app by blast
next
  case (uart e)
  then show ?thesis using assms sys_inv_uart by blast
next
  case (service e)
  then show ?thesis using assms sys_inv_svc by blast
next
  case (handler h)
  then show ?thesis using assms sys_inv_handler by blast
next
  case (ringing_timer junk)
  have "app_safe t" using ringing_timer assms(3) by (simp add: sys_inv_def app_safe_cancel_ringing)
  then show ?thesis using ringing_timer assms(3) sys_inv_aside [OF aside_cancel_ringing] by simp
next
  case leds
  then show ?thesis using assms(3) sys_inv_stays [OF led_round_keeps] by simp
next
  case reset
  then show ?thesis using assms(3) sys_inv_reset by blast
qed


lemma sys_inv_main:
  assumes "sys_inv t"
  shows "sys_inv (snd (main E (\<lambda>_. t) s))"
proof -
  define u where "u = invoke (K (Sem_take (INIT_SEM_TIMEOUT * 1000))) t"
  have u: "sys_inv u" using assms by (simp add: u_def sys_inv_invoke)
  have "keeps_modes u (k_panic u)" by (simp add: keeps_modes_def k_panic_def)
  then have "sys_inv (k_panic u)" using u sys_inv_stays [OF aside_panic [OF aside_refl]] by blast
  moreover have "sys_inv (app_ui_state_change_indicate E APP_UI_STATE_APP_RUNNING True u)"
  proof -
    have "app_inv u" "no_reset_running u" using u by (simp_all add: sys_inv_def app_safe_def)
    then have "app_inv (app_ui_state_change_indicate E APP_UI_STATE_APP_RUNNING True u)"
      by (simp add: app_inv_def core_inv_def req_inv_def ring_inv_indicate ui_flags.get_put_other)
    moreover have "no_reset_running (app_ui_state_change_indicate E APP_UI_STATE_APP_RUNNING True u)"
      using \<open>no_reset_running u\<close> by (simp add: no_reset_running_def)
    moreover have "aside u (app_ui_state_change_indicate E APP_UI_STATE_APP_RUNNING True u)" by simp
    ultimately show ?thesis using u sys_inv_aside [of u "app_ui_state_change_indicate E APP_UI_STATE_APP_RUNNING True u"]
      by (simp add: app_safe_def)
  qed
  ultimately show ?thesis by (simp add: main_def Let_def flip: u_def)
qed

lemma reachable_inv:
  assumes "conn_indices E idx" "reachable E s"
  shows "sys_inv s"
  using assms(2)
proof induction
  case (boot t)
  then have "sys_inv t" using sys_inv_boot [OF assms(1) booting_start] by (simp add: power_on_def)
  then show ?case by (rule sys_inv_main)
next
  case (step s t)
  then show ?case using sys_inv_step assms(1) by blast
qed


text \<open>A device that boots, and then runs.\<close>

lemma finish_running: "halted (init_finish E s) = halted s"
proof -
  have b: "halted (app_uart_boot_sequence_start E t) = halted t" for t :: "'a app_sys_scheme"
    by (simp add: app_uart_boot_sequence_start_def app_uart_init_def app_uart_enable_def Let_def case_prod_unfold)
  have w: "halted (snd (app_watchdog_init E t)) = halted t" for t :: "'a app_sys_scheme"
    by (simp add: app_watchdog_init_def Let_def)
  show ?thesis
    by (simp add: init_finish_def Let_def case_prod_unfold app_watchdog_start_feeding_def w b app_time_activities_init_def
        app_time_manager_boot_recover_def running_reports)
qed

lemma good_reachable: "\<exists>s. reachable good_env s \<and> halted s = None"
proof -
  let ?s = "invoke (K (Work_submit W_init)) power_on"
  have "fresh True ?s" by (simp add: fresh_def power_on_def set_DynamicData_def fp_st_init_def fr_st_init_def)
  moreover have "halted ?s = None" by (simp add: power_on_def)
  ultimately obtain u where "run_steps (init_steps_platform good_env @ init_steps_app good_env) ?s = Some (0, u)" "halted u = None"
    using good_boot unfolding passes_def by blast
  then have t: "init_work_handle good_env ?s = Some (init_finish good_env u)" "halted (init_finish good_env u) = None"
    by (simp_all add: init_work_handle_def finish_running)
  have "halted (snd (main good_env (\<lambda>_. init_finish good_env u) power_on)) = None"
    using t(2) by (simp add: main_def Let_def)
  with reachable.boot [OF t(1)] show ?thesis by blast
qed

lemma good_indices: "conn_indices good_env (\<lambda>_. 0)"
  by (simp add: conn_indices_def good_env_def)


end
