(* ===== verification/Events.thy ===== *)
theory Events
  imports System "HOL-Library.Multiset"
begin

text \<open>
  Events that several modules register for: the Bluetooth host calls every registered
  connection callback, the library every registered information callback.  The lists are in
  the order of the link or of the registration; the properties hold in every order, because
  neither is promised.  Two callbacks that only log (vision_advt.c, disconnected; fp_adv.c,
  security_changed) are left out.
\<close>

section \<open>Registered callbacks\<close>

text \<open>The connection callbacks of fp_adv.c, vision_advt.c and vision_custom_services.c.\<close>

definition connected_callbacks :: "env \<Rightarrow> conn \<Rightarrow> u8 \<Rightarrow> ('a app_sys_scheme \<Rightarrow> 'a app_sys_scheme) list" where
  "connected_callbacks E c err = [fp_conn_cb_connected c err, adv_connected, svc_connected E c (unat err)]"

text \<open>The disconnection callbacks of main.c, fp_adv.c and vision_custom_services.c.\<close>

definition disconnected_callbacks :: "env \<Rightarrow> conn \<Rightarrow> u8 \<Rightarrow> ('a app_sys_scheme \<Rightarrow> 'a app_sys_scheme) list" where
  "disconnected_callbacks E c reason = [app_disconnected E c reason, fp_conn_cb_disconnected c reason, svc_disconnected E c]"

text \<open>The provisioning callbacks, registered by ring.c, fp_adv.c and main.c.\<close>

definition provisioning_callbacks :: "env \<Rightarrow> bool \<Rightarrow> ('a app_sys_scheme \<Rightarrow> 'a app_sys_scheme) list" where
  "provisioning_callbacks E p =
     [ring_provisioning_state_changed E p, fp_adv_provisioning_state_changed E p, fmdn_provisioning_state_changed E p]"

text \<open>The account key callbacks, registered by fp_adv.c and main.c.\<close>

definition account_key_callbacks :: "env \<Rightarrow> conn \<Rightarrow> ('a app_sys_scheme \<Rightarrow> 'a app_sys_scheme) list" where
  "account_key_callbacks E c = [fp_adv_account_key_written E c, fp_account_key_written E c]"

definition call_each :: "('s \<Rightarrow> 's) list \<Rightarrow> 's \<Rightarrow> 's" where
  "call_each fs s = fold (\<lambda>f s. f s) fs s"

lemma call_each_simps [simp]: "call_each [] s = s" "call_each (f # fs) s = call_each fs (f s)"
  by (simp_all add: call_each_def)

text \<open>What one callback achieves and the others keep holds at the end, whatever the order.\<close>

lemma call_each_keeps:
  assumes "I s" "\<And>f s. f \<in> set fs \<Longrightarrow> I s \<Longrightarrow> I (f s)"
  shows "I (call_each fs s)"
  using assms by (induction fs arbitrary: s) auto

lemma call_each_achieves:
  assumes "I s" "\<And>f s. f \<in> set fs \<Longrightarrow> I s \<Longrightarrow> I (f s)"
    and "g \<in> set fs" "\<And>s. I s \<Longrightarrow> Q (g s)" "\<And>f s. f \<in> set fs \<Longrightarrow> I s \<Longrightarrow> Q s \<Longrightarrow> Q (f s)"
  shows "Q (call_each fs s)"
  using assms
proof (induction fs arbitrary: s)
  case (Cons f fs)
  show ?case
  proof (cases "g = f")
    case True
    have "I (f s) \<and> Q (f s)" using Cons.prems True by simp
    then have "(\<lambda>s. I s \<and> Q s) (call_each fs (f s))"
      by (rule call_each_keeps [where I = "\<lambda>s. I s \<and> Q s"]) (use Cons.prems(2,5) in auto)
    then show ?thesis by simp
  next
    case False
    then have "Q (call_each fs (f s))" using Cons.prems by (intro Cons.IH) auto
    then show ?thesis by simp
  qed
qed simp

text \<open>Callbacks that are steps of the firmware lead to reachable states.\<close>

definition running :: "env \<Rightarrow> app_sys \<Rightarrow> bool" where
  "running E s \<longleftrightarrow> reachable E s \<and> halted s = None"

lemma runningI: "running E s \<Longrightarrow> fw_step E s t \<Longrightarrow> halted t = halted s \<Longrightarrow> running E t"
  by (auto simp: running_def intro: reachable.step)

lemma interval_frame [simp]:
  "app (snd (ble_adv_custom_update_interval E i j s)) = app s" "fp (snd (ble_adv_custom_update_interval E i j s)) = fp s"
  "halted (snd (ble_adv_custom_update_interval E i j s)) = halted s"
  for s :: "'a app_sys_scheme"
  by (simp_all add: ble_adv_custom_update_interval_def Let_def split: option.split)

lemma svc_connected_frame [simp]:
  "app (svc_connected E c err s) = app s" "fp (svc_connected E c err s) = fp s" "halted (svc_connected E c err s) = halted s"
  for s :: "'a app_sys_scheme"
  by (simp_all add: svc_connected_def Let_def)

lemma svc_disconnected_frame [simp]:
  "app (svc_disconnected E c s) = app s" "fp (svc_disconnected E c s) = fp s" "halted (svc_disconnected E c s) = halted s"
  for s :: "'a app_sys_scheme"
  by (simp_all add: svc_disconnected_def Let_def)

lemma svc_check [simp]: "svc (check w b s) = svc s"
  by (simp add: check_def)

lemma adv_check [simp]: "adv (check w b s) = adv s"
  by (simp add: check_def)

lemma app_disconnected_frame [simp]:
  "fp (app_disconnected E c r s) = fp s" "svc (app_disconnected E c r s) = svc s" "halted (app_disconnected E c r s) = halted s"
  "adv (app_disconnected E c r s) = adv s"
  by (simp_all add: app_disconnected_def fmdn_conn_auth_bm_conn_status_set_def conn_index_def Let_def)

lemma fp_disconnected_frame [simp]:
  "app (fp_conn_cb_disconnected c r s) = app s" "svc (fp_conn_cb_disconnected c r s) = svc s"
  "halted (fp_conn_cb_disconnected c r s) = halted s" "adv (fp_conn_cb_disconnected c r s) = adv s"
  for s :: "'a app_sys_scheme"
  by (simp_all add: fp_conn_cb_disconnected_def)

lemma running_disconnected:
  assumes "f \<in> set (disconnected_callbacks E c r)" "running E s"
  shows "running E (f s)"
proof -
  have s: "halted s = None" using assms(2) by (simp add: running_def)
  have "fw_step E s (app_disconnected E c r s)"
    using fw_step.application [of "AP_disconnected c r" s E 0] s by (simp add: app_ok_def)
  moreover have "fw_step E s (fp_conn_cb_disconnected c r s)"
    using fw_step.application [of "AP_fp (FE_disconnected c r)" s E 0] s by (simp add: app_ok_def)
  moreover have "fw_step E s (svc_disconnected E c s)" using fw_step.service [of s "SE_disconnected c" E] s by simp
  ultimately show ?thesis
    using assms by (auto simp: disconnected_callbacks_def intro: runningI)
qed

text \<open>What a single callback changes is changed once.\<close>

lemma call_each_only:
  assumes "mset fs = add_mset g M" "I s" "\<And>f u. f \<in> set fs \<Longrightarrow> I u \<Longrightarrow> I (f u)"
    and "\<And>f u. f \<in># M \<Longrightarrow> I u \<Longrightarrow> \<pi> (f u) = \<pi> u" "\<And>u. I u \<Longrightarrow> \<pi> (g u) = h (\<pi> u)"
  shows "\<pi> (call_each fs s) = h (\<pi> s)"
proof -
  have "g \<in> set fs" using assms(1) by (metis set_mset_mset union_single_eq_member)
  then obtain xs ys where fs: "fs = xs @ g # ys" by (meson split_list)
  then have M: "M = mset xs + mset ys" using assms(1) by simp
  have keep: "set zs \<subseteq> set_mset M \<Longrightarrow> set zs \<subseteq> set fs \<Longrightarrow> I u \<Longrightarrow> \<pi> (call_each zs u) = \<pi> u \<and> I (call_each zs u)" for zs u
    using assms(3,4) by (induction zs arbitrary: u) simp_all
  have x: "\<pi> (call_each xs s) = \<pi> s \<and> I (call_each xs s)" by (rule keep) (auto simp: M fs assms(2))
  then have g: "I (g (call_each xs s))" using assms(3) fs by simp
  have "call_each fs s = call_each ys (g (call_each xs s))" by (simp add: fs call_each_def)
  moreover have "\<pi> (call_each ys (g (call_each xs s))) = \<pi> (g (call_each xs s))" using keep [of ys "g (call_each xs s)"] g M fs by auto
  ultimately show ?thesis using x assms(5) by simp
qed

text \<open>The calls made since the state \<open>s\<close>.\<close>

definition calls_since :: "'a io_scheme \<Rightarrow> 'b io_scheme \<Rightarrow> ev set" where
  "calls_since s t = set (drop (length (trace s)) (trace t))"

lemma calls_since_self [simp]: "calls_since s s = {}"
  by (simp add: calls_since_def)

lemma calls_since_invoke: "extends s t \<Longrightarrow> calls_since s (invoke e t) = insert e (calls_since s t)"
  by (auto simp: calls_since_def extends_def)

lemma calls_since_grow: "extends s t \<Longrightarrow> extends t u \<Longrightarrow> calls_since s t \<subseteq> calls_since s u"
  by (auto simp: calls_since_def extends_def)

lemma extends_more [simp]: "extends s t \<Longrightarrow> extends s (invoke e t)"
  "extends s t \<Longrightarrow> extends s (lock m t)" "extends s t \<Longrightarrow> extends s (unlock m t)"
  "extends s t \<Longrightarrow> extends s (check w b t)"
  by (auto simp: extends_def check_def)

lemma extends_svc [simp]: "extends s (t\<lparr>svc := v\<rparr>) = extends s t"
  by (simp add: extends_def)

lemma extends_adv [simp]: "extends s (t\<lparr>adv := v\<rparr>) = extends s t"
  by (simp add: extends_def)

lemma extends_fp [simp]: "extends s (t\<lparr>fp := v\<rparr>) = extends s t"
  by (simp add: extends_def)

lemma extends_app [simp]: "extends s (t\<lparr>app := v\<rparr>) = extends s t"
  by (simp add: extends_def)

section \<open>Disconnection\<close>

lemma vision_adv_extends:
  fixes t :: "'a app_sys_scheme"
  assumes "extends s t"
  shows "extends s (snd (ble_adv_custom_update_interval E i j t))" "extends s (snd (ble_adv_custom_start E t))"
proof -
  have "extends t (snd (ble_adv_custom_update_interval E i j t))" "extends t (snd (ble_adv_custom_start E t))"
    by (simp_all add: ble_adv_custom_update_interval_def ble_adv_custom_start_def Let_def split: option.split)
  with assms show "extends s (snd (ble_adv_custom_update_interval E i j t))" "extends s (snd (ble_adv_custom_start E t))"
    by (blast intro: extends_trans)+
qed

lemma disconnected_extends:
  assumes "f \<in> set (disconnected_callbacks E c r)"
  shows "extends s (f s)"
proof -
  have "extends s (svc_disconnected E c s)"
    by (simp add: svc_disconnected_def Let_def vision_adv_extends)
  then show ?thesis
    using assms by (auto simp: disconnected_callbacks_def app_disconnected_def fmdn_conn_auth_bm_conn_status_set_def
        conn_index_def fp_conn_cb_disconnected_def Let_def)
qed

lemma fp_disconnected_effect:
  "fp (fp_conn_cb_disconnected c r s) = (if fp_conn (fp s) = Some c then (fp s)\<lparr>fp_conn := None\<rparr> else fp s)"
  by (simp add: fp_conn_cb_disconnected_def)

text \<open>A session on the Vision identity.\<close>

definition on_vision :: "'a svc_sys_scheme \<Rightarrow> bool" where
  "on_vision s \<longleftrightarrow> int (unat (active_local_id (svc s))) = getVisionId s"

lemma vision_id_adv [simp]:
  "Vision_id (adv (snd (ble_adv_custom_update_interval E i j s))) = Vision_id (adv s)"
  "Vision_id (adv (snd (ble_adv_custom_start E s))) = Vision_id (adv s)"
  "svc (snd (ble_adv_custom_update_interval E i j s)) = svc s"
  "svc (snd (ble_adv_custom_start E s)) = svc s" for s :: "'a svc_sys_scheme"
  by (simp_all add: ble_adv_custom_update_interval_def ble_adv_custom_start_def Let_def split: option.split)

lemma svc_disconnected_effect:
  "svc (svc_disconnected E c s) =
     (let v = (svc s)\<lparr>current_conn := (if current_conn (svc s) = Some c then None else current_conn (svc s))\<rparr>
      in if on_vision s then v\<lparr>active_local_id := 0xFF, bool_AdvtIntervalUpdated := False, bool_UserAuthorization := False\<rparr>
         else v)"
  "getVisionId (svc_disconnected E c s) = getVisionId s"
  by (auto simp: svc_disconnected_def on_vision_def getVisionId_def Let_def)

lemma authenticated_same: "app t = app s \<Longrightarrow> authenticated t = authenticated s"
  by (simp add: authenticated_def)

lemma authenticated_others [simp]:
  "authenticated (fp_conn_cb_disconnected c r s) = authenticated s" "authenticated (svc_disconnected E c s) = authenticated s"
  by (rule authenticated_same, simp)+

lemma vision_id_others [simp]:
  "getVisionId (app_disconnected E c r s) = getVisionId s" "getVisionId (fp_conn_cb_disconnected c r s) = getVisionId s"
  for s :: "'a app_sys_scheme"
  by (simp_all add: getVisionId_def)

text \<open>The service after a disconnection, from its state and the Vision identity before.\<close>

definition disconnected_svc :: "conn \<Rightarrow> svc_st \<times> int \<Rightarrow> svc_st \<times> int" where
  "disconnected_svc c = (\<lambda>(v, i).
     (let w = v\<lparr>current_conn := (if current_conn v = Some c then None else current_conn v)\<rparr>
      in if int (unat (active_local_id v)) = i
         then w\<lparr>active_local_id := 0xFF, bool_AdvtIntervalUpdated := False, bool_UserAuthorization := False\<rparr> else w, i))"

text \<open>Calls that a callback owes while \<open>P\<close> still holds are made at the end.\<close>

lemma owed_calls:
  assumes "P s" "g \<in> set fs"
    and "\<And>f u. f \<in> set fs \<Longrightarrow> extends u (f u)"
    and "\<And>f u. f \<in> set fs \<Longrightarrow> P u \<Longrightarrow> P (f u) \<or> e \<in> calls_since u (f u)"
    and "\<And>u. P u \<Longrightarrow> e \<in> calls_since u (g u)"
  shows "e \<in> calls_since s (call_each fs s)"
proof -
  let ?I = "\<lambda>u. extends s u \<and> (P u \<or> e \<in> calls_since s u)"
  have since: "e \<in> calls_since u v \<Longrightarrow> extends s u \<Longrightarrow> extends u v \<Longrightarrow> e \<in> calls_since s v" for u v
    by (auto simp: calls_since_def extends_def)
  have keep: "e \<in> calls_since s u \<Longrightarrow> extends s u \<Longrightarrow> extends u v \<Longrightarrow> e \<in> calls_since s v" for u v
    by (auto simp: calls_since_def extends_def)
  have I: "?I (f u)" if "f \<in> set fs" "?I u" for f u
    using that assms(3,4) [OF that(1), of u] since [of u "f u"] keep [of u "f u"] extends_trans [of s u "f u"] by blast
  have Q: "e \<in> calls_since s (g u)" if "?I u" for u
    using that assms(3) [OF assms(2), of u] assms(5) [of u] since [of u "g u"] keep [of u "g u"] by blast
  show ?thesis
  proof (rule call_each_achieves [where I = ?I and g = g])
    fix f u
    assume f: "f \<in> set fs" "?I u"
    show "?I (f u)" by (rule I [OF f])
    assume "e \<in> calls_since s u"
    then show "e \<in> calls_since s (f u)" using keep f(2) assms(3) [OF f(1)] by blast
  qed (use assms(1,2) Q in auto)
qed

lemma restart_owed:
  assumes "f \<in> set (disconnected_callbacks E c r)" "fp_conn (fp u) = Some c"
  shows "fp_conn (fp (f u)) = Some c \<or> K (Work_submit W_fp_adv_restart) \<in> calls_since u (f u)"
  using assms by (auto simp: disconnected_callbacks_def fp_conn_cb_disconnected_def calls_since_invoke extends_def calls_since_def)

lemma calls_since_mono: "e \<in> calls_since s t \<Longrightarrow> extends s t \<Longrightarrow> extends t u \<Longrightarrow> e \<in> calls_since s u"
  using calls_since_grow by blast

lemma vision_cancels:
  fixes u :: "'a app_sys_scheme"
  assumes "on_vision u" "e \<in> {K (Work_cancel W_authorisation), K (Work_cancel W_connection)}"
  shows "e \<in> calls_since u (svc_disconnected E c u)"
proof -
  define s2 where "s2 = (if current_conn (svc (lock M_svc u)) = Some c
    then (let s' = invoke (BT (Conn_unref c)) (lock M_svc u) in s'\<lparr>svc := (svc s')\<lparr>current_conn := None\<rparr>\<rparr>) else lock M_svc u)"
  define s3 where "s3 = s2\<lparr>svc := (svc s2)\<lparr>active_local_id := 0xFF, bool_AdvtIntervalUpdated := False,
    bool_UserAuthorization := False\<rparr>\<rparr>"
  define s5 where "s5 = unlock M_svc (invoke (K (Work_cancel W_connection)) (invoke (K (Work_cancel W_authorisation)) s3))"
  have v: "int (unat (active_local_id (svc s2))) = getVisionId s2"
    using assms(1) by (simp add: s2_def on_vision_def getVisionId_def Let_def)
  have 5: "e \<in> calls_since u s5" "extends u s5"
    using assms(2) by (auto simp: s5_def s3_def s2_def calls_since_def extends_def lock_def unlock_def Let_def)
  have "svc_disconnected E c u =
    (if int (unat (active_local_id (svc s2))) = getVisionId s2
     then snd (ble_adv_custom_start E
            (if bool_AdvtIntervalUpdated (svc s2)
             then snd (ble_adv_custom_update_interval E (ucast (cd_AdvertismentInterval (conf s5)))
               (ucast (cd_AdvertismentInterval (conf s5)) + 10) s5)
             else s5))
     else unlock M_svc s2)"
    unfolding svc_disconnected_def Let_def s2_def s3_def s5_def by (rule refl)
  then have "extends s5 (svc_disconnected E c u)" using v by (simp add: vision_adv_extends)
  then show ?thesis using 5 calls_since_mono by blast
qed

lemma vision_owed:
  assumes "f \<in> set (disconnected_callbacks E c r)" "on_vision u" "e \<in> {K (Work_cancel W_authorisation), K (Work_cancel W_connection)}"
  shows "on_vision (f u) \<or> e \<in> calls_since u (f u)"
proof -
  have "on_vision (app_disconnected E c r u)" "on_vision (fp_conn_cb_disconnected c r u)"
    using assms(2) by (simp_all add: on_vision_def getVisionId_def)
  then show ?thesis using assms(1) vision_cancels [OF assms(2,3)] by (auto simp: disconnected_callbacks_def)
qed


text \<open>A device with a client.\<close>

lemma good_connected: "\<exists>s c. reachable good_env s \<and> halted s = None \<and> current_conn (svc s) = Some c"
proof -
  obtain s where s: "reachable good_env s" "halted s = None" using good_reachable by blast
  show ?thesis
  proof (cases "current_conn (svc s)")
    case None
    let ?t = "svc_connected good_env 3 0 s"
    have "fw_step good_env s ?t" using fw_step.service [of s "SE_connected 3 0" good_env] s(2) None by simp
    moreover have "current_conn (svc ?t) = Some 3" by (simp add: svc_connected_def Let_def)
    ultimately show ?thesis using s reachable.step [of good_env s ?t] by auto
  next
    case (Some c)
    then show ?thesis using s by blast
  qed
qed


section \<open>Provisioning reports\<close>

lemma running_fp_inv: "conn_indices E idx \<Longrightarrow> running E s \<Longrightarrow> fp_inv s"
  using reachable_inv [of E idx s] by (auto simp: running_def sys_inv_def app_safe_def app_inv_def core_inv_def)

lemma running_provisioning:
  assumes "f \<in> set (provisioning_callbacks E p)" "running E s"
  shows "running E (f s)"
proof -
  have s: "halted s = None" using assms(2) by (simp add: running_def)
  have "fw_step E s (ring_provisioning_state_changed E p s)"
    using fw_step.application [of "AP_ring (RE_provisioning p)" s E 0] s by (simp add: app_ok_def)
  moreover have "fw_step E s (fp_adv_provisioning_state_changed E p s)"
    using fw_step.application [of "AP_fp (FE_provisioning p)" s E 0] s by (simp add: app_ok_def)
  moreover have "fw_step E s (fmdn_provisioning_state_changed E p s)"
    using fw_step.application [of "AP_provisioning p" s E 0] s by (simp add: app_ok_def)
  moreover have "halted (ring_provisioning_state_changed E p s) = halted s"
    by (simp add: ring_provisioning_state_changed_def ring_state_update_def Let_def)
  moreover have "halted (fp_adv_provisioning_state_changed E p s) = halted s"
    using confined_do [of s E "FE_provisioning p"] by (simp add: confined_def)
  ultimately show ?thesis
    using assms by (auto simp: provisioning_callbacks_def provisioning_running intro: runningI)
qed

text \<open>The flag of the Fast Pair module is its own.\<close>

lemma request_keeps_flag:
  assumes "fp_inv s"
  shows "fa_fmdn_provisioned (fp (app_fp_adv_request E t b s)) = fa_fmdn_provisioned (fp s)"
proof -
  define s1 where "s1 = s\<lparr>fp := (fp s)\<lparr>fp_adv_request_bm := WRITE_BIT (fp_adv_request_bm (fp s)) (fp_adv_trigger_idx_get t) b\<rparr>\<rparr>"
  have f: "fp s1 = (fp s)\<lparr>fp_adv_request_bm := WRITE_BIT (fp_adv_request_bm (fp s)) (fp_adv_trigger_idx_get t) b\<rparr>"
    by (simp add: s1_def)
  have "shows_state s1" using assms by (simp add: s1_def fp_inv_def shows_state_def)
  then have "fa_fmdn_provisioned (fp (fp_adv_mode_refresh E s1)) = fa_fmdn_provisioned (fp s1)" if "is_enabled (fp s)"
    using mode_refresh_effect [of s1 E] assms that f by (auto simp: fp_inv_def)
  then show ?thesis
    by (auto simp: app_fp_adv_request_def Let_def app_fp_adv_is_ready_def f simp flip: s1_def)
qed

lemma fp_inv_bookkeeping:
  "fp_inv s \<Longrightarrow> fp_inv (app_factory_reset_cancel s)" "fp_inv s \<Longrightarrow> fp_inv (app_factory_reset_schedule d s)"
  "fp_inv s \<Longrightarrow> fp_inv (fmdn_provisioning_state_set E p s)" for s :: "'a app_sys_scheme"
  by (simp_all add: app_factory_reset_cancel_def app_factory_reset_schedule_def fmdn_provisioning_state_set_def Let_def)

lemma main_keeps_flag:
  assumes "fp_inv s"
  shows "fa_fmdn_provisioned (fp (fmdn_provisioning_state_changed E p s)) = fa_fmdn_provisioned (fp s)"
  using assms
  by (simp add: fmdn_provisioning_state_changed_def schedule_defs Let_def request_keeps_flag fp_inv_request
      fp_inv_bookkeeping state_set_effect)

text \<open>The scheduled reset: its trigger, the state of the module and the timer of the kernel.\<close>

definition reset_plan :: "'a app_sys_scheme \<Rightarrow> factory_reset_trigger \<times> app_factory_reset_state \<times> nat option" where
  "reset_plan s = (reset_trigger (app s), factory_reset_state (fr s), reset_timer (trace s))"

text \<open>
  A report of provisioning withdraws the reset of the provisioning deadline; a report of
  unprovisioning makes a reset due in three seconds, unless one is due already.
\<close>

fun plan_after :: "bool \<Rightarrow> factory_reset_trigger \<times> app_factory_reset_state \<times> nat option
    \<Rightarrow> factory_reset_trigger \<times> app_factory_reset_state \<times> nat option" where
  "plan_after True (tr, st, due) =
     (if tr = FACTORY_RESET_TRIGGER_PROVISIONING_TIMEOUT
      then (FACTORY_RESET_TRIGGER_NONE, APP_FACTORY_RESET_STATE_IDLE, None) else (tr, st, due))"
| "plan_after False (tr, st, due) =
     (FACTORY_RESET_TRIGGER_KEY_STATE_MISMATCH, APP_FACTORY_RESET_STATE_PENDING,
      if st = APP_FACTORY_RESET_STATE_IDLE \<and> due = None then Some 3000 else due)"

lemma plan_main:
  assumes "factory_reset_state (fr s) \<noteq> APP_FACTORY_RESET_STATE_IN_PROGRESS"
  shows "reset_plan (fmdn_provisioning_state_changed E p s) = plan_after p (reset_plan s)"
proof -
  have k: "reset_timer (trace (app_fp_adv_request E tr b x)) = reset_timer (trace x)" for tr b and x :: "'a app_sys_scheme"
    by (rule reset_timer_same) simp
  have st: "reset_timer (trace (snd (ble_adv_custom_start E x))) = reset_timer (trace x)" for x :: "'a app_sys_scheme"
    by (rule reset_timer_same) simp
  define v where "v = fmdn_provisioning_state_set E p s"
  have vp: "p \<Longrightarrow> fmdn_provisioning_state_set E True s = v" "\<not> p \<Longrightarrow> fmdn_provisioning_state_set E False s = v"
    by (simp_all add: v_def)
  have "same_reset s v" by (simp add: v_def fmdn_provisioning_state_set_def Let_def)
  moreover have "fr (app_fp_adv_request E tr b x) = fr x" "app (app_fp_adv_request E tr b x) = app x" for tr b and x :: "'a app_sys_scheme"
    using confined_request [of x E tr b] by (simp_all add: confined_def)
  ultimately show ?thesis
    using assms
    by (cases p; cases "factory_reset_state (fr s)")
      (auto simp: reset_plan_def fmdn_provisioning_state_changed_def schedule_defs app_factory_reset_cancel_def
        app_factory_reset_schedule_def same_reset_def k st FACTORY_RESET_DELAY_def Let_def vp)
qed

lemma plan_others:
  "reset_plan (ring_provisioning_state_changed E p s) = reset_plan s"
  "reset_plan (fp_adv_provisioning_state_changed E p s) = reset_plan s"
  using same_reset_ring_do [of s E "RE_provisioning p"] same_reset_confined [OF confined_do, of s E "FE_provisioning p"]
  by (simp_all add: same_reset_def reset_plan_def)

lemma ring_fp_report [simp]: "ring (fp_adv_provisioning_state_changed E p s) = ring s" for s :: "'a app_sys_scheme"
  using confined_do [of s E "FE_provisioning p"] by (simp add: confined_def)

lemma requested_provisioning:
  "requested (fp (fmdn_provisioning_state_changed E p s)) =
     (if p then (requested (fp s))(fp_adv_trigger_fmdn_provisioning := False, fp_adv_trigger_ui := False)
      else (requested (fp s))(fp_adv_trigger_clock_sync := False))"
  by (simp add: fmdn_provisioning_state_changed_def schedule_defs Let_def request_effect state_set_effect)

text \<open>The ring module stops ringing when the device loses its owner, if the library accepts.\<close>

lemma ring_report:
  assumes "\<And>es src. ret E (es @ [FP (Ring_state_update src (stop_param RING_TRIGGER_GATT_STOPPED))]) = 0"
  shows "ring (ring_provisioning_state_changed E p s) =
    (if p then ring s else (ring s)\<lparr>fmdn_ring_active_comp_bm := RING_COMP_BM_NONE\<rparr>)"
  using assms by (auto simp: ring_provisioning_state_changed_def ring_state_update_def stop_param_def Let_def result_def)

lemma ring_main [simp]: "ring (fmdn_provisioning_state_changed E p s) = ring s"
proof -
  have r: "ring (app_fp_adv_request E tr b x) = ring x" for tr b and x :: "'a app_sys_scheme"
    using confined_request [of x E tr b] by (simp add: confined_def)
  have v: "ring (snd (ble_adv_custom_start E x)) = ring x" for x :: "'a app_sys_scheme"
    by (simp add: ble_adv_custom_start_def Let_def split: option.split)
  show ?thesis
    by (simp add: fmdn_provisioning_state_changed_def schedule_defs app_factory_reset_cancel_def app_factory_reset_schedule_def
        fmdn_provisioning_state_set_def r v Let_def)
qed

text \<open>
  C3: A report of the provisioning state.  In every reachable state, whatever the order in
  which the library calls ring.c, fp_adv.c and main.c, afterwards the three records of the
  state agree (the flags of main.c and of fp_adv.c and the UI); a provisioned device has
  withdrawn the requests for Fast Pair advertising and the reset of the provisioning
  deadline; an unprovisioned device has a factory reset due, which ends in a halt of the
  processor, and is silent if the library accepts the stop of the ringing.
\<close>

theorem provisioning_report_agrees:
  fixes E
  assumes "conn_indices E idx" and "reachable E s" and "halted s = None" and "mset fs = mset (provisioning_callbacks E p)"
  defines "t \<equiv> call_each fs s"
  shows "reachable E t \<and> fmdn_provisioned (app t) = p \<and> fa_fmdn_provisioned (fp t) = p
    \<and> ui_active t APP_UI_STATE_PROVISIONED = p \<and> reset_plan t = plan_after p (reset_plan s)
    \<and> (p \<longrightarrow> \<not> requested (fp t) fp_adv_trigger_ui \<and> \<not> requested (fp t) fp_adv_trigger_fmdn_provisioning)
    \<and> (\<not> p \<longrightarrow> halted (factory_reset_work_handle E (factory_reset_cbs E) t) \<noteq> None)
    \<and> (\<not> p \<longrightarrow> (\<forall>es src. ret E (es @ [FP (Ring_state_update src (stop_param RING_TRIGGER_GATT_STOPPED))]) = 0) \<longrightarrow>
         \<not> ui_active t APP_UI_STATE_RINGING \<and> buzz (trace t) = (False, False))"
proof -
  let ?R = "ring_provisioning_state_changed E p :: app_sys \<Rightarrow> app_sys"
  let ?F = "fp_adv_provisioning_state_changed E p :: app_sys \<Rightarrow> app_sys"
  let ?M = "fmdn_provisioning_state_changed E p :: app_sys \<Rightarrow> app_sys"
  have set: "set fs = set (provisioning_callbacks E p)" using assms(4) by (rule mset_eq_setD)
  have s: "running E s" using assms(2,3) by (simp add: running_def)
  have step: "running E (f u)" if "f \<in> set fs" "running E u" for f u using running_provisioning set that by blast
  have r: "running E t" unfolding t_def by (rule call_each_keeps) (use s step in auto)
  have m: "mset fs = add_mset ?R {#?F, ?M#}" "mset fs = add_mset ?F {#?R, ?M#}" "mset fs = add_mset ?M {#?R, ?F#}"
    by (simp_all add: assms(4) provisioning_callbacks_def add_mset_commute)
  have frames: "app (?R u) = app u" "fp (?R u) = fp u" "app (?F u) = app u" "ring (?F u) = ring u"
    "requested (fp (?F u)) = requested (fp u)" for u
    using ring_do_frame [of E "RE_provisioning p" u] confined_do [of u E "FE_provisioning p"] fp_do_requests [of E "FE_provisioning p" u]
    by (simp_all add: confined_def)
  have flagF: "fa_fmdn_provisioned (fp (?F u)) = p" for u
    by (auto simp: fp_adv_provisioning_state_changed_def fp_adv_set_rotate_def quiet_suspension Let_def)
  have flag: "fmdn_provisioned (app t) = p"
    unfolding t_def
    by (rule call_each_only [OF m(3), where I = "running E" and \<pi> = "\<lambda>u. fmdn_provisioned (app u)" and h = "\<lambda>_. p"])
      (auto simp: frames provisioning_shown intro: s step)
  have fa: "fa_fmdn_provisioned (fp t) = p"
    unfolding t_def
    by (rule call_each_only [OF m(2), where I = "running E" and \<pi> = "\<lambda>u. fa_fmdn_provisioned (fp u)" and h = "\<lambda>_. p"])
      (auto simp: frames flagF main_keeps_flag running_fp_inv [OF assms(1)] intro: s step)
  have plan: "reset_plan t = plan_after p (reset_plan s)"
    unfolding t_def
  proof (rule call_each_only [OF m(3), where I = "running E" and \<pi> = reset_plan and h = "plan_after p"])
    fix u assume "running E u"
    then have "factory_reset_state (fr u) \<noteq> APP_FACTORY_RESET_STATE_IN_PROGRESS"
      using reachable_inv [OF assms(1), of u] by (simp add: running_def sys_inv_def app_safe_def no_reset_running_def)
    then show "reset_plan (?M u) = plan_after p (reset_plan u)" by (rule plan_main)
  qed (auto simp: plan_others intro: s step)
  have req: "requested (fp t) = (\<lambda>q. if p then q(fp_adv_trigger_fmdn_provisioning := False, fp_adv_trigger_ui := False)
      else q(fp_adv_trigger_clock_sync := False)) (requested (fp s))"
    unfolding t_def
    by (rule call_each_only [OF m(3), where I = "running E" and \<pi> = "\<lambda>u. requested (fp u)"]) (auto simp: frames requested_provisioning intro: s step)
  have ring: "fmdn_ring_active_comp_bm (ring t) = RING_COMP_BM_NONE"
    if "\<not> p" "\<forall>es src. ret E (es @ [FP (Ring_state_update src (stop_param RING_TRIGGER_GATT_STOPPED))]) = 0"
    unfolding t_def
    by (rule call_each_only [OF m(1), where I = "running E" and \<pi> = "\<lambda>u. fmdn_ring_active_comp_bm (ring u)" and h = "\<lambda>_. RING_COMP_BM_NONE"])
      (use that in \<open>auto simp: frames ring_report intro: s step\<close>)
  have inv: "app_inv t" "no_reset_running t" "reachable E t" "halted t = None"
    using r reachable_inv [OF assms(1), of t] by (simp_all add: running_def sys_inv_def app_safe_def)
  have "halted (factory_reset_work_handle E (factory_reset_cbs E) t) \<noteq> None"
    using perform_spec [OF reset_cbs_ok, of t E E] inv by (auto simp: factory_reset_work_handle_def no_reset_running_def)
  then show ?thesis
    using inv(3) flag fa plan req ring app_inv_consistent [OF inv(1)] by (auto simp: RING_COMP_BM_NONE_def)
qed

theorem provisioning_report_agrees_witness:
  "\<exists>s. reachable good_env s \<and>
     (let t = call_each (rev (provisioning_callbacks good_env False)) s
      in \<not> fmdn_provisioned (app t) \<and> \<not> fa_fmdn_provisioned (fp t) \<and> \<not> ui_active t APP_UI_STATE_RINGING
         \<and> halted (factory_reset_work_handle good_env (factory_reset_cbs good_env) t) \<noteq> None)"
proof -
  obtain s where s: "reachable good_env s" "halted s = None" using good_reachable by blast
  have "ret good_env (es @ [FP (Ring_state_update src (stop_param RING_TRIGGER_GATT_STOPPED))]) = 0" for es src
    by (simp add: good_env_def)
  then show ?thesis
    using provisioning_report_agrees [OF good_indices s, where fs = "rev (provisioning_callbacks good_env False)" and p = False] s
    by (auto simp: Let_def)
qed

end
