(* ===== verification/Interplay.thy ===== *)
theory Interplay
  imports Events
begin

text \<open>
  Behaviour that only the composition shows: the DFU mode that a command of the Vision
  service opens for every client, the advertising flag that any connection clears, and a
  Vision session that a second client disturbs.
\<close>

section \<open>DFU over the Vision service\<close>

lemma extends_halted [simp]: "extends s (t\<lparr>halted := h\<rparr>) = extends s t"
  by (simp add: extends_def)

lemma extends_ua [simp]: "extends s (t\<lparr>ua := u\<rparr>) = extends s t"
  by (simp add: extends_def)

lemma extends_dfu [simp]: "extends s (t\<lparr>dfu := d\<rparr>) = extends s t"
  by (simp add: extends_def)

lemma extends_finish:
  assumes "extends s t"
  shows "extends s (svc_finish E c r t)"
proof -
  have d: "extends s (snd (ble_custom_service_initiate_disconnect E u))" if "extends s u" for u
    using that by (simp add: ble_custom_service_initiate_disconnect_def Let_def split: option.split)
  have n: "extends s (snd (ble_custom_service_send_notification E (Some c) b u))" if "extends s u" for b u
    using that by (simp add: ble_custom_service_send_notification_def Let_def)
  have f: "extends s (svc_flush_writes E u)" if "extends s u" for u
    using that by (simp add: svc_flush_writes_def write_nvs_data_def Let_def)
  have g: "extends s (app_graceful_self_restart E u)" if "extends s u" for u
    using that by (simp add: app_graceful_self_restart_def app_uart_disable_def sys_reboot_def d Let_def case_prod_unfold)
  show ?thesis
    using assms by (simp add: svc_finish_def d n f g Let_def)
qed

lemma dfu_keeps: "keeps_modes s t \<Longrightarrow> dfu t = dfu s"
  by (simp add: keeps_modes_def)

text \<open>The state in which a command is executed.\<close>

definition executing :: "'a svc_sys_scheme \<Rightarrow> conn \<Rightarrow> 'a svc_sys_scheme" where
  "executing s c = unlock M_svc (invoke (BT (Conn_ref c))
     ((lock M_svc s)\<lparr>svc := (svc s)\<lparr>write_len := 0\<rparr>\<rparr>))"

lemma parse_executes:
  assumes "current_conn (svc s) = Some c" "0 < write_len (svc s)"
  shows "ble_parse_and_reply_work_handler E s =
    svc_finish E c (fst (svc_execute E (pending_command s) (executing s c))) (snd (svc_execute E (pending_command s) (executing s c)))"
  using assms
  by (simp add: ble_parse_and_reply_work_handler_def executing_def pending_command_def case_prod_unfold Let_def)

lemma command_code: "0 < write_len (svc s) \<Longrightarrow> length (write_buffer (svc s)) = CUSTOM_MAX_DATA_LEN \<Longrightarrow>
   pending_command s ! 0 = write_buffer (svc s) ! 0"
  by (cases "write_buffer (svc s)") (auto simp: pending_command_def put_at_def CUSTOM_MAX_DATA_LEN_def take_Cons')

lemma executing_keeps: "keeps_modes s (executing s c)" "extends s (executing s c)"
  "bool_UserAuthorization (svc (executing s c)) = bool_UserAuthorization (svc s)"
  by (simp_all add: executing_def)

lemma smp_open:
  assumes "conn_indices E idx" "core_inv s"
  shows "fst (gatt_authorize E d SMP_BT_CHR_UUID s) = dfu_mode (dfu s)"
  using assms by (simp add: authorize_eq [OF assms] gatt_policy_def core_inv_def)

lemma executed_dfu:
  fixes s :: "'a app_sys_scheme"
  assumes "cmd ! 0 = PUT_DEVICE_IN_OTA_DFU_MODE"
  shows "dfu_mode (dfu (snd (svc_execute E cmd s))) = (bool_UserAuthorization (svc s) \<or> dfu_mode (dfu s))"
    "extends s (snd (svc_execute E cmd s))"
    "bool_UserAuthorization (svc s) \<Longrightarrow>
       K (Work_reschedule W_dfu_mode_timeout DFU_MODE_TIMEOUT_MS) \<in> calls_since s (snd (svc_execute E cmd s))"
proof -
  let ?s1 = "invoke (K (Work_reschedule W_connection (DISCC_TIME_SEC * 1000))) s"
  have c: "snd (svc_execute E cmd s) = (if bool_UserAuthorization (svc s) then app_dfu_enter_mode_custom E ?s1
      else invoke (K (Work_cancel W_authorisation)) s)"
    using assms by (simp add: svc_execute_def svc_authorised_def svc_unauthorised_def command_defs Let_def)
  have ind: "extends s (app_ui_state_change_indicate E APP_UI_STATE_DFU_MODE True t)" if "extends s t" for t :: "'a app_sys_scheme"
    using that by (simp add: app_ui_state_change_indicate_def extends_def Let_def)
  show "dfu_mode (dfu (snd (svc_execute E cmd s))) = (bool_UserAuthorization (svc s) \<or> dfu_mode (dfu s))"
    by (simp add: c app_dfu_enter_mode_custom_def dfu_mode_action_handle_def dfu_mode_change_def Let_def)
  show "extends s (snd (svc_execute E cmd s))"
    by (simp add: c app_dfu_enter_mode_custom_def dfu_mode_action_handle_def dfu_mode_change_def ind Let_def)
  show "K (Work_reschedule W_dfu_mode_timeout DFU_MODE_TIMEOUT_MS) \<in> calls_since s (snd (svc_execute E cmd s))"
    if "bool_UserAuthorization (svc s)"
    using that
    by (simp add: c app_dfu_enter_mode_custom_def dfu_mode_action_handle_def dfu_mode_change_def calls_since_def
        app_ui_state_change_indicate_def Let_def)
qed

text \<open>
  C9: DFU over the Vision service.  In every reachable state, when the DFU command of the
  client is executed, the DFU mode is on exactly if the client had logged in or the mode was
  on before; then, and only then, the policy of main.c lets every connection, not just this
  client's, access the SMP characteristic; an authorised command arms the time-out, and the
  time-out closes the characteristic for all.
\<close>

theorem dfu_over_vision:
  fixes E
  assumes "conn_indices E idx" and "reachable E s" and "halted s = None"
    and "current_conn (svc s) = Some c" and "0 < write_len (svc s)" and "write_buffer (svc s) ! 0 = PUT_DEVICE_IN_OTA_DFU_MODE"
  defines "t \<equiv> ble_parse_and_reply_work_handler E s"
  shows "reachable E t \<and> dfu_mode (dfu t) = (bool_UserAuthorization (svc s) \<or> dfu_mode (dfu s))
    \<and> ui_active t APP_UI_STATE_DFU_MODE = dfu_mode (dfu t)
    \<and> fst (gatt_authorize E d SMP_BT_CHR_UUID t) = dfu_mode (dfu t)
    \<and> (bool_UserAuthorization (svc s) \<longrightarrow> K (Work_reschedule W_dfu_mode_timeout DFU_MODE_TIMEOUT_MS) \<in> calls_since s t)
    \<and> \<not> fst (gatt_authorize E d SMP_BT_CHR_UUID (dfu_mode_timeout_work_handle E t))"
proof -
  define u where "u = executing s c"
  have s: "sys_inv s" using reachable_inv assms(1,2) by blast
  then have "length (write_buffer (svc s)) = CUSTOM_MAX_DATA_LEN" by (simp add: sys_inv_def svc_inv_def svc_core_def)
  then have cmd: "pending_command s ! 0 = PUT_DEVICE_IN_OTA_DFU_MODE" using command_code assms(5,6) by metis
  have u: "dfu u = dfu s" "extends s u" "bool_UserAuthorization (svc u) = bool_UserAuthorization (svc s)"
    using dfu_keeps [OF executing_keeps(1), of s c] executing_keeps(2,3) [of s c] by (simp_all add: u_def)
  define v where "v = snd (svc_execute E (pending_command s) u)"
  have t: "t = svc_finish E c (fst (svc_execute E (pending_command s) u)) v"
    using parse_executes [OF assms(4,5)] by (simp add: t_def u_def v_def)
  have v: "extends u v" "dfu_mode (dfu v) = (bool_UserAuthorization (svc s) \<or> dfu_mode (dfu s))"
    using executed_dfu(1,2) [OF cmd, where E = E and s = u] u by (simp_all add: v_def)
  have "extends v t" unfolding t by (rule extends_finish) simp
  have mode: "dfu_mode (dfu t) = (bool_UserAuthorization (svc s) \<or> dfu_mode (dfu s))"
    using dfu_keeps [OF modes_finish, of E c "fst (svc_execute E (pending_command s) u)" v] v(2) by (simp add: t)
  have timer: "K (Work_reschedule W_dfu_mode_timeout DFU_MODE_TIMEOUT_MS) \<in> calls_since s t" if "bool_UserAuthorization (svc s)"
  proof -
    have "K (Work_reschedule W_dfu_mode_timeout DFU_MODE_TIMEOUT_MS) \<in> calls_since u v"
      using executed_dfu(3) [OF cmd, where E = E and s = u] that u(3) by (simp add: v_def)
    then show ?thesis using u(2) v(1) \<open>extends v t\<close> by (auto simp: calls_since_def extends_def)
  qed
  have "fw_step E s t" using fw_step.service [of s SE_work E] assms(3) by (simp add: t_def)
  then have r: "reachable E t" "sys_inv t" using assms(2) reachable.step sys_inv_step [OF _ assms(1) s] by blast+
  then have c: "core_inv t" "ui_active t APP_UI_STATE_DFU_MODE = dfu_mode (dfu t)"
    by (simp_all add: sys_inv_def app_safe_def app_inv_def core_inv_def)
  have "core_inv (dfu_mode_timeout_work_handle E t)" using c(1) by (simp add: dfu_mode_timeout_work_handle_def core_inv_dfu_change)
  moreover have "\<not> dfu_mode (dfu (dfu_mode_timeout_work_handle E t))"
    by (simp add: dfu_mode_timeout_work_handle_def dfu_mode_change_def Let_def)
  ultimately have "\<not> fst (gatt_authorize E d SMP_BT_CHR_UUID (dfu_mode_timeout_work_handle E t))"
    using smp_open [OF assms(1)] by blast
  then show ?thesis using r(1) mode timer c(2) smp_open [OF assms(1) c(1)] by blast
qed

theorem dfu_over_vision_witness:
  "\<exists>s c. reachable good_env s \<and> current_conn (svc s) = Some c \<and> write_buffer (svc s) ! 0 = PUT_DEVICE_IN_OTA_DFU_MODE
     \<and> (let t = ble_parse_and_reply_work_handler good_env s
        in fst (gatt_authorize good_env 5 SMP_BT_CHR_UUID t) = (bool_UserAuthorization (svc s) \<or> dfu_mode (dfu s))
           \<and> \<not> fst (gatt_authorize good_env 5 SMP_BT_CHR_UUID (dfu_mode_timeout_work_handle good_env t)))"
proof -
  obtain r c where r: "reachable good_env r" "halted r = None" "current_conn (svc r) = Some c" using good_connected by blast
  define s where "s = snd (write_incoming_char [PUT_DEVICE_IN_OTA_DFU_MODE] 0 r)"
  have "length (write_buffer (svc r)) = CUSTOM_MAX_DATA_LEN"
    using reachable_inv [OF good_indices r(1)] by (simp add: sys_inv_def svc_inv_def svc_core_def)
  then have s: "current_conn (svc s) = Some c" "0 < write_len (svc s)" "halted s = None"
    "write_buffer (svc s) ! 0 = PUT_DEVICE_IN_OTA_DFU_MODE"
    using r(2,3) by (simp_all add: s_def write_incoming_char_def put_at_def CUSTOM_MAX_DATA_LEN_def Let_def)
  have "fw_step good_env r s"
    using fw_step.service [of r "SE_write [PUT_DEVICE_IN_OTA_DFU_MODE] 0" good_env] r(2) by (simp add: s_def)
  then have "reachable good_env s" using r(1) reachable.step by blast
  then show ?thesis using dfu_over_vision [OF good_indices _ s(3,1,2,4), of 5] s by (auto simp: Let_def)
qed

section \<open>The advertising flag\<close>

text \<open>The calls that a step makes, without one.\<close>

definition spares :: "ev \<Rightarrow> 'a io_scheme \<Rightarrow> 'a io_scheme \<Rightarrow> bool" where
  "spares e s t \<longleftrightarrow> extends s t \<and> e \<notin> calls_since s t"

lemma spares_refl [simp]: "spares e s s"
  by (simp add: spares_def)

lemma spares_trans: "spares e s t \<Longrightarrow> spares e t u \<Longrightarrow> spares e s u"
  by (auto simp: spares_def calls_since_def extends_def)

lemma spares_invoke [simp]: "e \<noteq> f \<Longrightarrow> spares e s t \<Longrightarrow> spares e s (invoke f t)"
  by (simp add: spares_def calls_since_invoke)

lemma spares_same: "spares e s t \<Longrightarrow> trace u = trace t \<Longrightarrow> spares e s u"
  by (simp add: spares_def calls_since_def extends_def)

lemma spares_lock [simp]: "\<forall>m. e \<noteq> K (Mutex_lock m) \<Longrightarrow> spares e s t \<Longrightarrow> spares e s (lock m t)"
  "\<forall>m. e \<noteq> K (Mutex_unlock m) \<Longrightarrow> spares e s t \<Longrightarrow> spares e s (unlock m t)"
  by (simp_all add: lock_def unlock_def)

lemma spares_svc [simp]: "spares e s (t\<lparr>svc := v\<rparr>) = spares e s t"
  by (simp add: spares_def calls_since_def extends_def)

lemma spares_adv [simp]: "spares e s (t\<lparr>adv := a\<rparr>) = spares e s t"
  by (simp add: spares_def calls_since_def extends_def)

lemma spares_tm [simp]: "spares e s (t\<lparr>tm := c\<rparr>) = spares e s t"
  by (simp add: spares_def calls_since_def extends_def)

lemma window_keeps:
  fixes s :: "'a time_sys_scheme"
  shows "adv (snd (app_time_is_within_energy_saving_window E s)) = adv s"
    "Advtflag (tm (snd (app_time_is_within_energy_saving_window E s))) = Advtflag (tm s)"
    "spares (BT (Ext_adv_stop a)) s (snd (app_time_is_within_energy_saving_window E s))"
  by (simp_all add: app_time_is_within_energy_saving_window_def app_time_get_local_minutes_of_day_def
      app_time_get_utc_epoch_def Let_def case_prod_unfold)

lemma connected_keeps:
  fixes s :: "'a app_sys_scheme"
  assumes "f \<in> set (connected_callbacks E c err)"
  shows "spares (BT (Ext_adv_stop a)) s (f s)" "Advtflag (tm (f s)) = Advtflag (tm s)"
    "adv_set (adv (f s)) = adv_set (adv s)" "\<not> is_advertising (adv s) \<Longrightarrow> \<not> is_advertising (adv (f s))"
proof -
  have "adv (svc_connected E c (unat err) s) = adv s" "tm (svc_connected E c (unat err) s) = tm s"
    "spares (BT (Ext_adv_stop a)) s (svc_connected E c (unat err) s)"
    by (simp_all add: svc_connected_def Let_def)
  moreover have "adv (fp_conn_cb_connected c err s) = adv s" "tm (fp_conn_cb_connected c err s) = tm s"
    "spares (BT (Ext_adv_stop a)) s (fp_conn_cb_connected c err s)"
    by (simp_all add: fp_conn_cb_connected_def)
  moreover have "\<not> is_advertising (adv (adv_connected s))" "adv_set (adv (adv_connected s)) = adv_set (adv s)"
    "tm (adv_connected s) = tm s" "spares (BT (Ext_adv_stop a)) s (adv_connected s)"
    by (simp_all add: adv_connected_def Let_def)
  ultimately show "spares (BT (Ext_adv_stop a)) s (f s)" "Advtflag (tm (f s)) = Advtflag (tm s)"
    "adv_set (adv (f s)) = adv_set (adv s)" "\<not> is_advertising (adv s) \<Longrightarrow> \<not> is_advertising (adv (f s))"
    using assms by (auto simp: connected_callbacks_def)
qed

text \<open>
  C20: The energy saving that a connection defeats.  The connection callback of vision_advt.c
  clears the record of the advertising for every connection, on whatever identity and even
  if it failed, while the set goes on.  So if a client connects, in whatever order the callbacks
  run, before the energy saving window begins, the logic that would have stopped the Vision
  advertiser makes no call to stop it and still records the window as handled.
\<close>

theorem energy_saving_missed:
  fixes E and s :: "'a app_sys_scheme"
  assumes "adv_set (adv s) = Some a" and "is_advertising (adv s)" and "\<not> Advtflag (tm s)"
    and "mset fs = mset (connected_callbacks E c err)"
    and "fst (app_time_is_within_energy_saving_window E s)" and "fst (app_time_is_within_energy_saving_window E (call_each fs s))"
  defines "t \<equiv> call_each fs s"
  shows "BT (Ext_adv_stop a) \<in> calls_since s (energy_save_logic E s)
    \<and> BT (Ext_adv_stop a) \<notin> calls_since s (energy_save_logic E t)
    \<and> Advtflag (tm (energy_save_logic E t)) \<and> adv_set (adv (energy_save_logic E t)) = Some a"
proof -
  let ?stop = "BT (Ext_adv_stop a)"
  have set: "set fs = set (connected_callbacks E c err)" using assms(4) by (rule mset_eq_setD)
  let ?I = "\<lambda>u. spares ?stop s u \<and> \<not> Advtflag (tm u) \<and> adv_set (adv u) = Some a"
  have step: "?I (f u)" if "f \<in> set fs" "?I u" for f u
  proof -
    have "f \<in> set (connected_callbacks E c err)" using that(1) set by simp
    from connected_keeps(1-3) [OF this, where s = u] that(2) spares_trans show ?thesis by metis
  qed
  have I: "?I t" unfolding t_def by (rule call_each_keeps) (use assms(1,3) step in auto)
  have off: "\<not> is_advertising (adv t)"
    unfolding t_def
  proof (rule call_each_achieves [where I = "\<lambda>_. True" and g = adv_connected])
    show "adv_connected \<in> set fs" using set by (simp add: connected_callbacks_def)
    show "\<not> is_advertising (adv (adv_connected u))" for u :: "'a app_sys_scheme"
      by (simp add: adv_connected_def Let_def)
    show "\<not> is_advertising (adv (f u))" if "f \<in> set fs" "\<not> is_advertising (adv u)" for f and u :: "'a app_sys_scheme"
      using connected_keeps(4) [OF _ that(2)] that(1) set by blast
  qed simp_all
  obtain w where w: "app_time_is_within_energy_saving_window E t = (True, w)"
    using assms(6) by (cases "app_time_is_within_energy_saving_window E t") (simp add: t_def)
  have w': "adv w = adv t" "\<not> Advtflag (tm w)" "spares ?stop s w"
    using window_keeps [where E = E and s = t] I spares_trans [of ?stop s t w] by (auto simp: w)
  obtain v where v: "app_time_is_within_energy_saving_window E s = (True, v)"
    using assms(5) by (cases "app_time_is_within_energy_saving_window E s") simp
  have v': "adv v = adv s" "\<not> Advtflag (tm v)" "extends s v"
    using window_keeps [where E = E and s = s] assms(3) by (auto simp: v spares_def)
  have "?stop \<in> calls_since s (energy_save_logic E s)"
    using v' assms(1,2) by (simp add: energy_save_logic_def v ble_adv_custom_stop_def Let_def calls_since_def extends_def)
      (auto simp: lock_def unlock_def)
  moreover have "spares ?stop s (energy_save_logic E t)"
    using w' off by (simp add: energy_save_logic_def w ble_adv_custom_stop_def Let_def)
  moreover have "Advtflag (tm (energy_save_logic E t))" "adv_set (adv (energy_save_logic E t)) = Some a"
    using w' off I by (simp_all add: energy_save_logic_def w ble_adv_custom_stop_def Let_def)
  ultimately show ?thesis by (simp add: spares_def)
qed

text \<open>A synchronised device that advertises, whose window is the whole day.\<close>

definition advertising_state :: app_sys where
  "advertising_state = app_init_state\<lparr>tm := (time_st_reset no_block)\<lparr>bool_IsTimeSynchronized := True\<rparr>,
     adv := adv_st_init\<lparr>adv_set := Some 0, is_advertising := True\<rparr>, gd := blank_gst\<rparr>"

lemma whole_day:
  assumes "bool_IsTimeSynchronized (tm s)" "gd s = blank_gst"
  shows "fst (app_time_is_within_energy_saving_window E s)"
proof -
  have "u16_StartMinutes (cd_energy_save_para zero_ConfigData) = 0" "u16_EndMinutes (cd_energy_save_para zero_ConfigData) = 0"
    by (simp_all add: zero_ConfigData_def conf_of_bytes_def get_at_def sizeof_defs len_defs un_le16_def)
  then show ?thesis
    using assms by (simp add: app_time_is_within_energy_saving_window_def app_time_get_local_minutes_of_day_def
        app_time_get_utc_epoch_def within_window_def blank_gst_def Let_def)
qed

lemma connected_clock:
  fixes s :: "'a app_sys_scheme"
  assumes "f \<in> set (connected_callbacks E c err)"
  shows "tm (f s) = tm s \<and> gd (f s) = gd s"
proof -
  have "tm (svc_connected E c (unat err) s) = tm s \<and> gd (svc_connected E c (unat err) s) = gd s"
    by (simp add: svc_connected_def Let_def)
  moreover have "tm (fp_conn_cb_connected c err s) = tm s \<and> gd (fp_conn_cb_connected c err s) = gd s"
    by (simp add: fp_conn_cb_connected_def)
  moreover have "tm (adv_connected s) = tm s \<and> gd (adv_connected s) = gd s" by (simp add: adv_connected_def Let_def)
  ultimately show ?thesis using assms by (auto simp: connected_callbacks_def)
qed

theorem energy_saving_missed_witness:
  "BT (Ext_adv_stop 0) \<notin> calls_since advertising_state
     (energy_save_logic (const_env 0) (call_each (connected_callbacks (const_env 0) 3 0) advertising_state))"
proof -
  let ?s = advertising_state and ?fs = "connected_callbacks (const_env 0) 3 0 :: (app_sys \<Rightarrow> app_sys) list"
  have s: "adv_set (adv ?s) = Some 0" "is_advertising (adv ?s)" "\<not> Advtflag (tm ?s)" "bool_IsTimeSynchronized (tm ?s)"
    "gd ?s = blank_gst"
    by (simp_all add: advertising_state_def time_st_reset_def)
  have "bool_IsTimeSynchronized (tm (call_each ?fs ?s)) \<and> gd (call_each ?fs ?s) = blank_gst"
    by (rule call_each_keeps) (auto simp: s connected_clock)
  then show ?thesis using energy_saving_missed [OF s(1-3) refl whole_day [OF s(4,5)]] whole_day by blast
qed

section \<open>A second client\<close>

text \<open>
  C19: A second client ends the care of a Vision session.  While a client that has logged in is
  connected on the Vision identity, another client connects on another identity and leaves
  again.  When the first client then disconnects, its session is not closed: the
  authorisation stays, its two timers keep running, the Vision advertiser is not restarted
  and the reference on its connection is not given back.
\<close>

theorem second_client_breaks_session:
  fixes E and s :: "'a svc_sys_scheme"
  assumes "current_conn (svc s) = Some c" and "on_vision s" and "bool_UserAuthorization (svc s)" and "d \<noteq> c"
    and "on_identity E d j" and "j \<noteq> Vision_id (adv s)"
  defines "t \<equiv> svc_disconnected E c (svc_disconnected E d (svc_connected E d 0 s))"
  shows "bool_UserAuthorization (svc t) \<and> current_conn (svc t) = None \<and> conn_refs (trace t) c = conn_refs (trace s) c
    \<and> calls_since s t \<inter> ({K (Work_cancel W_authorisation), K (Work_cancel W_connection)} \<union> range (\<lambda>a. BT (Ext_adv_start a))) = {}"
proof -
  define t1 where "t1 = svc_connected E d 0 s"
  note 1 = connect_other [OF assms(5,6), folded t1_def]
  define t2 where "t2 = svc_disconnected E d t1"
  have 2: "svc t2 = (svc t1)\<lparr>current_conn := None\<rparr>" "adv t2 = adv s"
    "trace t2 = trace t1 @ [K (Mutex_lock M_svc), BT (Conn_unref d), K (Mutex_unlock M_svc)]"
    using disconnect_other [of t1 E d] 1 assms(6) by (simp_all add: t2_def)
  have 3: "svc t = svc t2" "trace t = trace t2 @ [K (Mutex_lock M_svc), K (Mutex_unlock M_svc)]"
    using disconnect_other [of t2 E c] 1 2 assms(6) by (simp_all add: t_def flip: t1_def t2_def)
  show ?thesis
    using 1 2 3 assms(3,4) by (auto simp: calls_since_def)
qed

theorem second_client_breaks_session_witness:
  "let s = (vision_state 2)\<lparr>svc := svc_st_init\<lparr>current_conn := Some 7, active_local_id := 2, bool_UserAuthorization := True\<rparr>\<rparr>
   in bool_UserAuthorization (svc (svc_disconnected (id_env 1) 7 (svc_disconnected (id_env 1) 8 (svc_connected (id_env 1) 8 0 s))))"
  unfolding Let_def
  by (rule second_client_breaks_session [where c = 7 and d = 8 and j = 1, THEN conjunct1])
    (simp_all add: on_vision_def getVisionId_def on_identity_def)

end
