(* ===== verification/OnAir.thy ===== *)
theory OnAir
  imports Advt
begin

text \<open>
  What the Bluetooth host made of the calls of src/vision_advt.c.  Theory Advt relates the
  module's state to the calls it made; here only the calls the host accepted count: the
  payload it holds for a set, and the sets it was asked to start and not to stop again.
  The lemmas say when the module's own view (its payload and its flag) is the host's, and
  which failures make the two disagree for good.
\<close>

section \<open>Observing the answers along a trace\<close>

text \<open>A fold over a trace whose step also sees the calls up to the current one, hence its answer.\<close>

fun after_from :: "(ev list \<Rightarrow> ev \<Rightarrow> 'm \<Rightarrow> 'm) \<Rightarrow> ev list \<Rightarrow> 'm \<Rightarrow> ev list \<Rightarrow> 'm" where
  "after_from f p m [] = m"
| "after_from f p m (e # es) = after_from f (p @ [e]) (f (p @ [e]) e m) es"

lemma after_from_append: "after_from f p m (es @ fs) = after_from f (p @ es) (after_from f p m es) fs"
  by (induction es arbitrary: p m) simp_all

fun payload_step :: "env \<Rightarrow> ev list \<Rightarrow> ev \<Rightarrow> (adv_set \<rightharpoonup> bt_data list \<times> bt_data list) \<Rightarrow> (adv_set \<rightharpoonup> bt_data list \<times> bt_data list)" where
  "payload_step E p (BT (Ext_adv_set_data h a b)) m = (if ret E p = 0 then m(h \<mapsto> (a, b)) else m)"
| "payload_step E p e m = m"

definition payload :: "env \<Rightarrow> ev list \<Rightarrow> (adv_set \<rightharpoonup> bt_data list \<times> bt_data list)" where
  "payload E = after_from (payload_step E) [] Map.empty"

fun started_step :: "env \<Rightarrow> ev list \<Rightarrow> ev \<Rightarrow> adv_set set \<Rightarrow> adv_set set" where
  "started_step E p (BT (Ext_adv_start h)) A = (if ret E p = 0 then insert h A else A)"
| "started_step E p (BT (Ext_adv_stop h)) A = (if ret E p = 0 then A - {h} else A)"
| "started_step E p e A = A"

definition started :: "env \<Rightarrow> ev list \<Rightarrow> adv_set set" where
  "started E = after_from (started_step E) [] {}"

lemma payload_append [simp]: "payload E (es @ fs) = after_from (payload_step E) es (payload E es) fs"
  by (simp add: payload_def after_from_append)

lemma started_append [simp]: "started E (es @ fs) = after_from (started_step E) es (started E es) fs"
  by (simp add: started_def after_from_append)

lemma payload_step_K [simp]: "payload_step E p (K k) m = m"
  by simp

lemma started_step_K [simp]: "started_step E p (K k) A = A"
  by simp

text \<open>A tracker after its initialisation and the start of the set, with a host that accepts every call.\<close>

definition adv_running :: adv_sys where
  "adv_running = run (adv_do (const_env 0)) [AE_init, AE_start] adv_init_state"

lemma adv_running_inv [simp]: "adv_inv adv_running"
  unfolding adv_running_def
  by (rule advm.run_inv [OF adv_init_inv]) (simp add: adv_init_state_def adv_st_init_def)

lemmas adv_running_defs = adv_running_def ble_adv_custom_init_def app_vision_custom_id_create_def
  ble_adv_custom_start_def Let_def io_defs const_env_def adv_init_state_def CONFIG_BT_ID_MAX_def adv_st_init_def
  zero_ServicePayload_def

lemma adv_running_simps [simp]:
  "adv_set (adv adv_running) = Some 0" "is_advertising (adv adv_running)"
  "sp_BatPercentage (sd_data (active_svc_data (adv adv_running))) = 0" "Vision_id (adv adv_running) = 0"
  by (simp_all add: adv_running_defs)

lemma adv_running_trace:
  "\<exists>p d. trace adv_running = [BT Bt_enable, BT Id_get, BT Id_create, BT Id_get, BT (Ext_adv_create p),
     BT (Ext_adv_set_data 0 (fst d) (snd d)), K (Mutex_lock M_adv), BT (Ext_adv_start 0), K (Mutex_unlock M_adv)]"
  by (simp add: adv_running_defs)

text \<open>A host that refuses the calls at the given positions of the trace.\<close>

definition refusing :: "(nat \<Rightarrow> bool) \<Rightarrow> env" where
  "refusing f = (const_env 0)\<lparr>ret := (\<lambda>es. if f (length es) then - EIO else 0)\<rparr>"

lemma refusing_ret [simp]: "ret (refusing f) es = (if f (length es) then - EIO else 0)"
  by (simp add: refusing_def)

lemma EIO_nonzero [simp]: "EIO \<noteq> 0"
  by (simp add: EIO_def)

lemma adv_running_started [simp]: "\<not> f 8 \<Longrightarrow> 0 \<in> started (refusing f) (trace adv_running)"
  and length_adv_running [simp]: "length (trace adv_running) = 9"
  using adv_running_trace by (auto simp: started_def eval_nat_numeral)

section \<open>Changing the interval\<close>



section \<open>Changing the payload\<close>

text \<open>Calls that bring no value the payload does not already have.\<close>

fun brings_nothing :: "adv_ev \<Rightarrow> 'a adv_sys_scheme \<Rightarrow> bool" where
  "brings_nothing AE_init s = False"
| "brings_nothing (AE_update d m) s = (d \<in> {None, Some (active_svc_data (adv s))} \<and> m \<in> {None, Some (active_mfg_data (adv s))})"
| "brings_nothing (AE_level q) s = (q = sp_BatPercentage (sd_data (active_svc_data (adv s))))"
| "brings_nothing (AE_mV v) s = (bat_mV_bitfield v = sp_Bitfield3 (sd_data (active_svc_data (adv s))))"
| "brings_nothing _ s = True"

definition holds_payload :: "env \<Rightarrow> (adv_set \<rightharpoonup> bt_data list \<times> bt_data list) \<Rightarrow> adv_set option \<Rightarrow> ble_service_data \<Rightarrow> 'a adv_sys_scheme \<Rightarrow> bool" where
  "holds_payload E m h d s \<longleftrightarrow> payload E (trace s) = m \<and> adv_set (adv s) = h \<and> active_svc_data (adv s) = d"

lemma holds_payload_update:
  "holds_payload E m h d s \<Longrightarrow> brings_nothing (AE_update x y) s \<Longrightarrow> holds_payload E m h d (snd (ble_adv_custom_update E x y s))"
  by (auto simp: holds_payload_def ble_adv_custom_update_def Let_def split: option.splits)

lemma holds_payload_interval:
  "holds_payload E m h d s \<Longrightarrow> holds_payload E m h d (snd (ble_adv_custom_update_interval E x y s))"
  by (cases h) (simp_all add: holds_payload_def ble_adv_custom_update_interval_def Let_def)

lemma holds_payload_rest:
  "holds_payload E m h d s \<Longrightarrow> holds_payload E m h d (adv_connected s)"
  "holds_payload E m h d s \<Longrightarrow> holds_payload E m h d (snd (ble_adv_custom_start E s))"
  "holds_payload E m h d s \<Longrightarrow> holds_payload E m h d (snd (ble_adv_custom_stop E s))"
  "holds_payload E m h d s \<Longrightarrow> brings_nothing (AE_level q) s \<Longrightarrow> holds_payload E m h d (updateAdvBatLevel E q s)"
  "holds_payload E m h d s \<Longrightarrow> brings_nothing (AE_mV v) s \<Longrightarrow> holds_payload E m h d (updateAdvBatmV E v s)"
  by (simp_all add: holds_payload_def adv_connected_def ble_adv_custom_start_def ble_adv_custom_stop_def
      updateAdvBatLevel_def updateAdvBatmV_def Let_def split: option.splits)

interpretation advq: invariant_machine "adv_do E" brings_nothing "holds_payload E m h d" for E m h d
proof
  fix s :: "'a adv_sys_scheme" and e
  assume "holds_payload E m h d s" "brings_nothing e s"
  then show "holds_payload E m h d (adv_do E e s)"
    by (cases e) (simp_all only: adv_do.simps brings_nothing.simps(1),
        auto intro: holds_payload_update holds_payload_interval holds_payload_rest)
qed

text \<open>
  C24: A refused payload.  The battery update records the new percentage before it hands the
  payload to the host.  If the host refuses it, the set goes on transmitting the old payload
  through every later call that brings no new value (starts, stops, interval changes and
  repetitions of the same percentage included), although the module shows the new
  percentage; if the host accepts it, the host holds exactly the module's payload.
\<close>

theorem adv_failed_push_not_retried:
  fixes E and s :: "'a adv_sys_scheme"
  assumes "adv_set (adv s) = Some h" and "sp_BatPercentage (sd_data (active_svc_data (adv s))) \<noteq> percent"
    and "run_ok brings_nothing (adv_do E) es (updateAdvBatLevel E percent s)"
  defines "t \<equiv> updateAdvBatLevel E percent s"
  defines "u \<equiv> run (adv_do E) es t"
    and "accepted \<equiv> ret E (trace s @ [K (Mutex_lock M_adv), BT (Ext_adv_set_data h (ad (adv t)) (sd (adv t)))]) = 0"
  shows "sp_BatPercentage (sd_data (active_svc_data (adv u))) = percent
    \<and> payload E (trace u) h = (if accepted then Some (ad (adv t), sd (adv t)) else payload E (trace s) h)"
proof -
  have t: "payload E (trace t) h = (if accepted then Some (ad (adv t), sd (adv t)) else payload E (trace s) h)"
    "sp_BatPercentage (sd_data (active_svc_data (adv t))) = percent" "adv_set (adv t) = Some h"
    using assms(1,2) by (auto simp: accepted_def t_def updateAdvBatLevel_def push_payload_def Let_def)
  have "holds_payload E (payload E (trace t)) (Some h) (active_svc_data (adv t)) t"
    by (simp add: holds_payload_def t)
  then have "holds_payload E (payload E (trace t)) (Some h) (active_svc_data (adv t)) u"
    unfolding u_def by (rule advq.run_inv) (use assms(3) in \<open>simp add: t_def\<close>)
  then show ?thesis using t by (simp add: holds_payload_def)
qed

theorem adv_failed_push_not_retried_witness:
  "let E = refusing (\<lambda>n. n = 11);
       u = run (adv_do E) [AE_level 50, AE_stop, AE_level 50, AE_start] (updateAdvBatLevel E 50 adv_running)
   in sp_BatPercentage (sd_data (active_svc_data (adv u))) = 50 \<and> payload E (trace u) 0 = payload E (trace adv_running) 0"
proof -
  let ?E = "refusing (\<lambda>n. n = 11)" and ?es = "[AE_level 50, AE_stop, AE_level 50, AE_start]"
  have "run_ok brings_nothing (adv_do ?E) ?es (updateAdvBatLevel ?E 50 adv_running)"
    by (simp add: updateAdvBatLevel_def push_payload_def ble_adv_custom_stop_def Let_def)
  from adv_failed_push_not_retried [OF _ _ this, of 0] show ?thesis
    by (simp add: Let_def)
qed

section \<open>The voltage field\<close>

lemma bitfield_mask: "push_bit 2 w AND 0x3C = push_bit 2 (take_bit 4 w :: u32)"
proof -
  have "(0x3C :: u32) = push_bit 2 (mask 4)" by (simp add: mask_eq_exp_minus_1)
  then show ?thesis by (simp only: take_bit_eq_mask push_bit_and)
qed

lemma take_bit_4_of_int: "take_bit 4 (word_of_int i :: u32) = word_of_int (i mod 16)"
proof -
  have "i mod 16 = take_bit 4 i" by (simp add: take_bit_eq_mod)
  then show ?thesis by (simp only:) (transfer, simp)
qed

lemma shifted_mod_16: "(int m div 100 - 18) mod 16 = int ((m div 100 + 14) mod 16)"
proof -
  have "(k - 18) mod 16 = (k + 14) mod 16" for k :: int
    using mod_mult_self2 [of "k - 18" 16 2] by (simp add: add.commute)
  then show ?thesis by (simp add: zmod_int zdiv_int)
qed

lemma bat_mV_bitfield_decoded: "unat (bat_mV_bitfield mV) = 4 * ((unat mV div 100 + 14) mod 16)"
proof -
  let ?i = "int (unat mV) div 100 - 18"
  note take_bit_4_of_int [of ?i]
  also have "?i mod 16 = int ((unat mV div 100 + 14) mod 16)"
    by (rule shifted_mod_16)
  finally have "bat_mV_bitfield mV = ucast (push_bit 2 (of_nat ((unat mV div 100 + 14) mod 16) :: u32))"
    by (simp add: bat_mV_bitfield_def bitfield_mask)
  moreover have "unat (ucast (push_bit 2 (of_nat k :: u32)) :: u8) = 4 * k" if "k < 16" for k
    using less_16_cases [OF that] by (elim insertE emptyE) simp_all
  ultimately show ?thesis by simp
qed

text \<open>
  C30: Battery voltage in the advertisement.  For every 16-bit measurement the update leaves
  in the payload handed to the stack the tenths of a volt above 1.8 V modulo 16.  The
  voltage can be read back exactly when it lies from 1.8 V up to (not including) 3.4 V; from
  3.4 V on the field wraps and a full battery looks like an empty one.
\<close>

theorem adv_voltage_roundtrip:
  fixes E mV and s :: "'a adv_sys_scheme"
  assumes "adv_inv s" and "adv_set (adv s) = Some h"
  defines "s' \<equiv> updateAdvBatmV E mV s"
  defines "field \<equiv> unat (sp_Bitfield3 (sd_data (active_svc_data (adv s'))))"
  shows "pushed (trace s') h = Some (ad (adv s'), sd (adv s'))
    \<and> field div 4 = (unat mV div 100 + 14) mod 16
    \<and> (field div 4 + 18 = unat mV div 100 \<longleftrightarrow> 1800 \<le> unat mV \<and> unat mV < 3400)"
proof -
  have "adv_inv s'" "adv_set (adv s') = Some h"
    and "sp_Bitfield3 (sd_data (active_svc_data (adv s'))) = bat_mV_bitfield mV"
    using assms(2) battery_inv(2) [OF assms(1), of E mV]
    by (auto simp: s'_def updateAdvBatmV_def push_payload_def Let_def)
  then have "pushed (trace s') h = Some (ad (adv s'), sd (adv s'))"
    and "field = 4 * ((unat mV div 100 + 14) mod 16)"
    by (simp_all add: adv_inv_unfold field_def bat_mV_bitfield_decoded)
  moreover have "(k + 14) mod 16 + 18 = k \<longleftrightarrow> 18 \<le> k \<and> k < 34" for k :: nat by arith
  moreover have "18 \<le> unat mV div 100 \<longleftrightarrow> 1800 \<le> unat mV" "unat mV div 100 < 34 \<longleftrightarrow> unat mV < 3400"
    by (simp_all add: less_eq_div_iff_mult_less_eq div_less_iff_less_mult)
  ultimately show ?thesis by simp
qed

theorem adv_voltage_roundtrip_witness:
  "let field = (\<lambda>mV. unat (sp_Bitfield3 (sd_data (active_svc_data (adv (updateAdvBatmV (const_env 0) mV adv_running))))))
   in field 2950 div 4 + 18 = 29 \<and> field 3450 div 4 + 18 = 18"
  using adv_voltage_roundtrip [of adv_running 0 "const_env 0" 2950] adv_voltage_roundtrip [of adv_running 0 "const_env 0" 3450]
  by (simp add: Let_def)

end
