(* ===== verification/Diagnostics.thy ===== *)
theory Diagnostics
  imports FpAdv Printf
begin

text \<open>
  The functions that only write log lines: the dump of the persistent data at the end of
  every boot (src/vision_bootup.c), the firmware version (src/dfu.c), and the security and
  disconnection callbacks of src/fp_adv.c and src/vision_advt.c.  The lemmas say what the
  dump discloses.
\<close>

section \<open>The dump of the persistent data\<close>

definition rule_line :: log_line where
  "rule_line = LOG_INF ''=======================================================''"

definition dash_line :: log_line where
  "dash_line = LOG_INF ''-------------------------------------------------------''"

definition slot_line :: "string \<Rightarrow> u16 \<Rightarrow> nat \<Rightarrow> log_line" where
  "slot_line name key bytes = LOG_INF (name @ '' Slot Key ID: '' @ fmt_d (int (unat key)) @ '', Struct Size: ''
     @ fmt_d (int bytes) @ '' bytes'')"

definition magic_line :: "string \<Rightarrow> u16 \<Rightarrow> u16 \<Rightarrow> log_line" where
  "magic_line label magic expected = LOG_INF (label @ ''0x'' @ fmt_X 4 magic @ '' (Expected: 0x'' @ fmt_X 4 expected @ '')'')"

definition dump_production :: "st_ProductionData \<Rightarrow> log_line list" where
  "dump_production p =
     [slot_line ''[PRODUCTION DATA]'' PRODUCTION_DATA_KEY sizeof_ProductionData,
      magic_line ''  -> Magic Number  : '' (pd_MagicNumber p) PRODUCTION_MAGIC_NUMBER,
      LOG_INF (''  -> MAC Address   : '' @ fmt_X 2 (pd_MACAddr p ! 0) @ '':'' @ fmt_X 2 (pd_MACAddr p ! 1) @ '':''
        @ fmt_X 2 (pd_MACAddr p ! 2) @ '':'' @ fmt_X 2 (pd_MACAddr p ! 3) @ '':''
        @ fmt_X 2 (pd_MACAddr p ! 4) @ '':'' @ fmt_X 2 (pd_MACAddr p ! 5)),
      LOG_INF (''  -> Serial Number : '' @ fmt_s SR_NUM_SIZE (pd_SerialNumber p)),
      LOG_INF (''  -> Password      : '' @ fmt_s MAX_PASSWORD_SIZE (pd_Password p)),
      LOG_INF (''  -> Model Number  : '' @ fmt_s MODEL_NUMBER_LEN (pd_ModelNumber p)),
      dash_line]"

text \<open>The offset in hours and minutes, \<open>GMT %+d:%02d\<close> with \<open>m / 60\<close> and \<open>abs(m % 60)\<close>.\<close>

definition gmt_label :: "int \<Rightarrow> string" where
  "gmt_label m = ''GMT '' @ fmt_plus_d (c_div m 60) @ '':'' @ fmt_02d (nat \<bar>m\<bar> mod 60)"

definition clock_label :: "u16 \<Rightarrow> string" where
  "clock_label m = fmt_02d (unat m div 60) @ '':'' @ fmt_02d (unat m mod 60)"

definition dump_config :: "st_ConfigData \<Rightarrow> log_line list" where
  "dump_config c =
     (let e = cd_energy_save_para c
      in [slot_line ''[CONFIGURATION DATA]'' CONFIG_DATA_KEY sizeof_ConfigData,
          magic_line ''  -> Magic Number   : '' (cd_MagicNumber c) CONFIG_MAGIC_NUMBER,
          LOG_INF (''  -> Adv Interval   : '' @ fmt_d (int (unat (cd_AdvertismentInterval c))) @ '' ms''),
          LOG_INF (''  -> TX Power Level : 0x'' @ fmt_X 2 (cd_TxPow c) @ '' ('' @ fmt_d (sint (cd_TxPow c)) @ '' dBm equivalent)''),
          LOG_INF (''  -> Motion Thresh  : 0x'' @ fmt_X 2 (cd_Movement_INT_THS c)),
          LOG_INF (''  -> Motion Duration: 0x'' @ fmt_X 2 (cd_Movement_INT_TIME c) @ '' ODR Samples''),
          LOG_INF (''  -> Deep Sleep Ctrl: '' @ fmt_d (int (unat (cd_DeepSleepControl c))) @ '' (''
            @ (if cd_DeepSleepControl c \<noteq> 0 then ''DEEP SLEEP DISABLE'' else ''DEEP SLEEP ENABLE'') @ '')''),
          LOG_INF (''  -> Time Zone Off  : '' @ fmt_d (s16_TimeZoneOffset c) @ '' minutes (''
            @ gmt_label (s16_TimeZoneOffset c) @ '')''),
          LOG_INF ''  [Energy Saving Profile Parameters]'',
          LOG_INF (''    -> Window Frame : '' @ clock_label (u16_StartMinutes e) @ '' to '' @ clock_label (u16_EndMinutes e)),
          LOG_INF (''    -> Eco Adv Int  : '' @ fmt_d (int (unat (mu16_EnergySavingAdvInterval e))) @ '' msec''),
          LOG_INF (''    -> Eco Tx Power : 0x'' @ fmt_X 2 (mu8_EnergySavingGlobalTxPow e) @ '' (''
            @ fmt_d (sint (mu8_EnergySavingGlobalTxPow e)) @ '' dBm)''),
          dash_line])"

text \<open>The cast of the capacity to \<open>int\<close> truncates towards zero.\<close>

definition f32_to_int :: "u32 \<Rightarrow> int" where
  "f32_to_int w = (let x = f32_val w in if x < 0 then - \<lfloor>- x\<rfloor> else \<lfloor>x\<rfloor>)"

definition dump_dynamic :: "st_DynamicData \<Rightarrow> log_line list" where
  "dump_dynamic d =
     [slot_line ''[DYNAMIC DATA]'' DYNAMIC_DATA_KEY sizeof_DynamicData,
      magic_line ''  -> Magic Number  : '' (dd_MagicNumber d) DYNAMIC_MAGIC_NUMBER,
      LOG_INF (''  -> Cell Capacity : '' @ fmt_d (f32_to_int (dd_RemainingBatCap d)) @ ''% (mAh)''),
      LOG_INF (''  -> HW Boot Count : '' @ fmt_d (int (unat (dd_ResetCnt d))) @ '' successful power cycles''),
      LOG_INF (''  -> Internal Time : '' @ fmt_d (int (unat (dd_CurrentTime d))) @ '' seconds epoch'')]"

definition app_storage_dump_debug_logs :: "'a data_sys_scheme \<Rightarrow> log_line list" where
  "app_storage_dump_debug_logs s =
     [rule_line, LOG_INF ''          STORAGE PARAMETERS DEBUG DUMP                '', rule_line]
     @ dump_production (prod s) @ dump_config (conf s) @ dump_dynamic (dyn s) @ [rule_line]"

section \<open>Callbacks that only log\<close>

text \<open>The version string is generated by the build, the address and the error name come from the host.\<close>

definition app_dfu_fw_version_log :: "string \<Rightarrow> log_line list" where
  "app_dfu_fw_version_log version = [LOG_INF (''DFU: Firmware version: '' @ version)]"

definition fp_security_changed :: "string \<Rightarrow> bt_security \<Rightarrow> int \<Rightarrow> (int \<Rightarrow> string) \<Rightarrow> log_line list" where
  "fp_security_changed addr level err err_to_str =
     (if err = 0 then [LOG_INF (''Security changed: '' @ addr @ '' level '' @ fmt_d (int (security_rank level)))]
      else [LOG_WRN (''Security failed: '' @ addr @ '' level '' @ fmt_d (int (security_rank level)) @ '' err ''
        @ fmt_d err @ '' '' @ err_to_str err)])"

definition adv_disconnected_log :: "log_line list" where
  "adv_disconnected_log = [LOG_INF ''Disconnected from custom frame handler client link.'']"

section \<open>What the dump discloses\<close>

lemmas line_simps = log_line.inject list.inject append_Cons append_Nil append_assoc same_append_eq
  up_to_separator separators not_False_eq_True fmt_X_inj fmt_d_inj fmt_02d_inj simp_thms

lemma magic_line_inj: "magic_line l m e = magic_line l n e \<longleftrightarrow> m = n"
  by (simp only: magic_line_def line_simps)

lemma clock_label_inj: "unat m div 60 = unat n div 60 \<Longrightarrow> unat m mod 60 = unat n mod 60 \<Longrightarrow> m = (n :: u16)"
  by (metis div_mult_mod_eq word_unat_eq_iff)

lemma dump_production_inj:
  assumes "dump_production p = dump_production q"
  shows "pd_MagicNumber p = pd_MagicNumber q"
    "fmt_s SR_NUM_SIZE (pd_SerialNumber p) = fmt_s SR_NUM_SIZE (pd_SerialNumber q)"
    "fmt_s MAX_PASSWORD_SIZE (pd_Password p) = fmt_s MAX_PASSWORD_SIZE (pd_Password q)"
    "fmt_s MODEL_NUMBER_LEN (pd_ModelNumber p) = fmt_s MODEL_NUMBER_LEN (pd_ModelNumber q)"
    "pd_MACAddr p ! 0 = pd_MACAddr q ! 0 \<and> pd_MACAddr p ! 1 = pd_MACAddr q ! 1 \<and> pd_MACAddr p ! 2 = pd_MACAddr q ! 2
     \<and> pd_MACAddr p ! 3 = pd_MACAddr q ! 3 \<and> pd_MACAddr p ! 4 = pd_MACAddr q ! 4 \<and> pd_MACAddr p ! 5 = pd_MACAddr q ! 5"
  using assms by (simp_all only: dump_production_def magic_line_inj line_simps)

lemma dump_config_inj:
  assumes "dump_config c = dump_config d"
  shows "c\<lparr>cd_pad := []\<rparr> = d\<lparr>cd_pad := []\<rparr>"
proof -
  let ?e = "cd_energy_save_para c" and ?f = "cd_energy_save_para d"
  have "cd_MagicNumber c = cd_MagicNumber d" "cd_TxPow c = cd_TxPow d" "cd_Movement_INT_THS c = cd_Movement_INT_THS d"
    "cd_Movement_INT_TIME c = cd_Movement_INT_TIME d"
    and i: "int (unat (cd_AdvertismentInterval c)) = int (unat (cd_AdvertismentInterval d))"
      "int (unat (cd_DeepSleepControl c)) = int (unat (cd_DeepSleepControl d))" "s16_TimeZoneOffset c = s16_TimeZoneOffset d"
      "int (unat (mu16_EnergySavingAdvInterval ?e)) = int (unat (mu16_EnergySavingAdvInterval ?f))"
    and "mu8_EnergySavingGlobalTxPow ?e = mu8_EnergySavingGlobalTxPow ?f"
    and t: "unat (u16_StartMinutes ?e) div 60 = unat (u16_StartMinutes ?f) div 60" "unat (u16_StartMinutes ?e) mod 60 = unat (u16_StartMinutes ?f) mod 60"
      "unat (u16_EndMinutes ?e) div 60 = unat (u16_EndMinutes ?f) div 60" "unat (u16_EndMinutes ?e) mod 60 = unat (u16_EndMinutes ?f) mod 60"
    using assms by (simp_all only: dump_config_def Let_def clock_label_def magic_line_inj line_simps)
  moreover have "cd_TimeZoneOffset c = cd_TimeZoneOffset d" using i(3) by (simp add: s16_TimeZoneOffset_def signed_word_eqI)
  moreover have "?e = ?f"
    using calculation i(4) clock_label_inj [OF t(1,2)] clock_label_inj [OF t(3,4)]
    by (intro energy_save_para.equality) (simp_all add: word_uint_eq_iff)
  ultimately show ?thesis
    using i(1,2) by (intro st_ConfigData.equality) (simp_all add: word_uint_eq_iff)
qed

lemma dump_dynamic_inj:
  assumes "dump_dynamic d = dump_dynamic e"
  shows "dd_MagicNumber d = dd_MagicNumber e" "f32_to_int (dd_RemainingBatCap d) = f32_to_int (dd_RemainingBatCap e)"
    "int (unat (dd_ResetCnt d)) = int (unat (dd_ResetCnt e))" "int (unat (dd_CurrentTime d)) = int (unat (dd_CurrentTime e))"
  using assms by (simp_all only: dump_dynamic_def magic_line_inj line_simps)

text \<open>The label of the time zone loses the sign of an offset below one hour.\<close>

lemma fmt_plus_d_inj: "fmt_plus_d i = fmt_plus_d j \<longleftrightarrow> i = j"
  by (auto simp: fmt_plus_d_def) (auto simp: fmt_d_def)

lemma fmt_plus_d_colon: "CHR '':'' \<notin> set (fmt_plus_d i)"
  by (simp add: fmt_plus_d_def)

lemma gmt_label_ambiguous: "gmt_label m = gmt_label n \<longleftrightarrow> m = n \<or> (\<bar>m\<bar> < 60 \<and> n = - m)"
proof -
  have "gmt_label m = gmt_label n \<longleftrightarrow> c_div m 60 = c_div n 60 \<and> nat \<bar>m\<bar> mod 60 = nat \<bar>n\<bar> mod 60"
    by (simp only: gmt_label_def line_simps fmt_plus_d_colon fmt_plus_d_inj)
  also have "nat \<bar>m\<bar> mod 60 = nat \<bar>n\<bar> mod 60 \<longleftrightarrow> \<bar>m\<bar> mod 60 = \<bar>n\<bar> mod 60"
    by (simp add: eq_nat_nat_iff flip: nat_mod_distrib [of _ 60, simplified])
  also have "c_div m 60 = c_div n 60 \<and> \<bar>m\<bar> mod 60 = \<bar>n\<bar> mod 60 \<longleftrightarrow> m = n \<or> (\<bar>m\<bar> < 60 \<and> n = - m)"
  proof
    assume h: "c_div m 60 = c_div n 60 \<and> \<bar>m\<bar> mod 60 = \<bar>n\<bar> mod 60"
    have q: "\<bar>c_div k 60\<bar> = \<bar>k\<bar> div 60" for k :: int
      by (simp add: c_div_def abs_mult pos_imp_zdiv_nonneg_iff sgn_if)
    have "\<bar>m\<bar> div 60 = \<bar>n\<bar> div 60" using h by (simp flip: q)
    with h have e: "\<bar>m\<bar> = \<bar>n\<bar>" by (metis div_mult_mod_eq)
    show "m = n \<or> (\<bar>m\<bar> < 60 \<and> n = - m)"
    proof (cases "m = n")
      case False
      with e have n: "n = - m" "m \<noteq> 0" by auto
      then have "c_div n 60 = - c_div m 60" by (simp add: c_div_def)
      with h have "\<bar>c_div m 60\<bar> = 0" by simp
      then have "\<bar>m\<bar> div 60 = 0" by (simp only: q)
      then have "\<bar>m\<bar> < 60" by linarith
      with n show ?thesis by simp
    qed simp
  next
    assume "m = n \<or> (\<bar>m\<bar> < 60 \<and> n = - m)"
    then show "c_div m 60 = c_div n 60 \<and> \<bar>m\<bar> mod 60 = \<bar>n\<bar> mod 60" by (auto simp: c_div_def)
  qed
  finally show ?thesis .
qed

section \<open>Properties\<close>

text \<open>
  C28: The dump at boot discloses the persistent data.  Whoever reads the log lines of one
  boot knows the whole configuration, the magic numbers, the reset counter and the clock,
  the MAC address, and the serial number, the model and the login password up to their
  first zero byte: two trackers with the same dump agree in all of them.
\<close>

theorem storage_dump_discloses:
  assumes "wf_data s" and "wf_data t" and "app_storage_dump_debug_logs s = app_storage_dump_debug_logs t"
  shows "(conf s)\<lparr>cd_pad := []\<rparr> = (conf t)\<lparr>cd_pad := []\<rparr>
    \<and> (dyn s)\<lparr>dd_RemainingBatCap := 0\<rparr> = (dyn t)\<lparr>dd_RemainingBatCap := 0\<rparr>
    \<and> pd_MagicNumber (prod s) = pd_MagicNumber (prod t) \<and> pd_MACAddr (prod s) = pd_MACAddr (prod t)
    \<and> c_string (pd_SerialNumber (prod s)) = c_string (pd_SerialNumber (prod t))
    \<and> c_string (pd_Password (prod s)) = c_string (pd_Password (prod t))
    \<and> c_string (pd_ModelNumber (prod s)) = c_string (pd_ModelNumber (prod t))"
proof -
  have d: "dump_production (prod s) = dump_production (prod t)" "dump_config (conf s) = dump_config (conf t)"
    "dump_dynamic (dyn s) = dump_dynamic (dyn t)"
    using assms(3) by (auto simp: app_storage_dump_debug_logs_def dump_production_def dump_config_def dump_dynamic_def Let_def)
  have l: "length (pd_MACAddr p) = 6" "take SR_NUM_SIZE (pd_SerialNumber p) = pd_SerialNumber p"
    "take MAX_PASSWORD_SIZE (pd_Password p) = pd_Password p"
    "take MODEL_NUMBER_LEN (pd_ModelNumber p) = pd_ModelNumber p" if "wf_prod p" for p
    using that by (simp_all add: wf_prod_def len_defs)
  have w: "wf_prod (prod s)" "wf_prod (prod t)" using assms(1,2) by (simp_all add: wf_data_def)
  note p = dump_production_inj [OF d(1)]
  have "pd_MACAddr (prod s) = pd_MACAddr (prod t)"
    using p(5) l(1) [OF w(1)] l(1) [OF w(2)]
    by (intro nth_equalityI) (auto simp: numeral_eq_Suc less_Suc_eq)
  moreover have "(dyn s)\<lparr>dd_RemainingBatCap := 0\<rparr> = (dyn t)\<lparr>dd_RemainingBatCap := 0\<rparr>"
    using dump_dynamic_inj [OF d(3)] by (intro st_DynamicData.equality) (simp_all add: word_uint_eq_iff)
  ultimately show ?thesis
    using p(1-4) dump_config_inj [OF d(2)] l(2-4) [OF w(1)] l(2-4) [OF w(2)]
    by (simp add: fmt_s_inj c_string_def)
qed

text \<open>Two trackers that differ behind the end of the password only.\<close>

theorem storage_dump_discloses_witness:
  "let u = (\<lambda>b. set_ProductionData (zero_ProductionData\<lparr>pd_Password := ascii ''secret'' @ 0 # replicate 9 b\<rparr>) data_init)
   in app_storage_dump_debug_logs (u 1) = app_storage_dump_debug_logs (u 2)
     \<and> c_string (pd_Password (prod (u 1))) = c_string (pd_Password (prod (u 2)))
     \<and> c_string (pd_Password (prod (u 1))) = ascii ''secret''"
proof -
  let ?p = "\<lambda>b. zero_ProductionData\<lparr>pd_Password := ascii ''secret'' @ 0 # replicate 9 b\<rparr>"
  let ?u = "\<lambda>b. set_ProductionData (?p b) data_init"
  have "wf_data data_init" by (rule wf_data_init)
  then have w: "wf_data (?u b)" for b
    by (simp add: wf_data_def wf_prod_def data_init_def blank_gst_def ascii_def len_defs)
  have f: "fmt_s MAX_PASSWORD_SIZE (ascii ''secret'' @ 0 # replicate 9 b) = map (\<lambda>b. char_of (unat b)) (ascii ''secret'')" for b
    by (simp add: fmt_s_def ascii_def len_defs)
  have "app_storage_dump_debug_logs (?u 1) = app_storage_dump_debug_logs (?u 2)"
    by (simp only: app_storage_dump_debug_logs_def dump_production_def) (simp add: f)
  moreover from storage_dump_discloses [OF w w this]
  have "c_string (pd_Password (prod (?u 1))) = c_string (pd_Password (prod (?u 2)))" by simp
  moreover have "c_string (pd_Password (prod (?u 1))) = ascii ''secret''"
    by (simp add: c_string_def ascii_def)
  ultimately show ?thesis by (simp only: Let_def)
qed

end
