(* ===== verification/Spec2Isabelle.thy ===== *)
theory Spec2Isabelle
  imports Interplay OnAir Diagnostics
begin

text \<open>
  Firmware of the SmartTrack tag (nRF52832, nRF Connect SDK): a Google Find My Device
  locator with Fast Pair, a ringing buzzer, a proprietary "Vision" advertising set and GATT
  service, a production UART and a battery monitor.  All paths below are under src/.

  \<^bold>\<open>Parts and theories.\<close>

  \<^item> Prelude: C integers, byte buffers, little-endian encodings, bit macros, and the
    interfaces shared by all components: codecs (locale \<open>codec\<close>), flag registers
    (\<open>flag_register\<close>), machines with an invariant (\<open>invariant_machine\<close>) and machines
    that implement an abstract one (\<open>simulation\<close>).
  \<^item> Platform: the boundary to Zephyr, the Bluetooth host, the Fast Pair / FMDN library and
    the drivers.  A call is an event appended to a trace; what it returns is decided by the
    environment (a parameter) from the trace, so every call may fail at any time.  Mutexes,
    failed assertions and the halting of the processor are read off the trace and the
    field \<open>halted\<close>.
  \<^item> Storage, Bootup: the persistent structures of include/app_vision_production.h byte by
    byte, src/vision_nvs_storage.c and src/vision_bootup.c (verification, defaults, MAC).
  \<^item> Float32: the single-precision operations the firmware uses, as exact rational results
    rounded to 24 bits.
  \<^item> Printf: the \<open>printf\<close> conversions of the log lines, with their injectivity.
  \<^item> Advt: src/vision_advt.c, the Vision advertising set.  OnAir: the same module against
    what the host accepted (payload held, sets started).
  \<^item> TimeMgr: src/vision_time_manager.c, the clock, the energy saving window, the supervisor.
  \<^item> Uart: src/vision_production.c, the production protocol.
  \<^item> Ui: src/ui, the user interface (states, button, buzzer).
  \<^item> Dfu: src/dfu.c, the update mode.
  \<^item> Service: src/vision_custom_services.c, the Vision GATT service and its commands.
  \<^item> Ring: src/ring.c and src/motion_detector/platform_SBT.c.
  \<^item> Devices: src/vision_watchdog.c and src/vision_motion.c.
  \<^item> Battery, BatteryLevel: src/vision_battery.c, and the level classes of src/common.c with
    their log lines.
  \<^item> FpAdv: src/fp_adv.c, the Fast Pair advertising set.
  \<^item> FactoryReset: src/factory_reset.c.
  \<^item> Diagnostics: the functions that only log: the storage dump of src/vision_bootup.c, the
    firmware version of src/dfu.c, two callbacks of src/fp_adv.c and src/vision_advt.c.
  \<^item> App: src/main.c, the application's state, callbacks, GATT policy and boot sequence.
  \<^item> Firmware: the application with the UI, ringing, DFU, reset and advertising modules as
    one machine.  Startup: the boot.
  \<^item> Compose: what each module leaves alone, and the invariants of all modules together.
    System: the whole firmware from power on, as a step relation (\<open>fw_step\<close>) and its
    reachable states (\<open>reachable\<close>).  Events: the callbacks that several modules register
    for one event (connection, disconnection, provisioning, account key), in every order.
    Interplay: behaviour that only the composition shows.

  \<^bold>\<open>State.\<close>  The state of a module is a record of its static variables (\<open>adv_st\<close>,
  \<open>svc_st\<close>, \<open>fp_st\<close>, ...).  The records of the whole program extend each other in the order
  of the theories (\<open>io\<close>, \<open>data_sys\<close>, \<open>adv_sys\<close>, ..., \<open>app_sys\<close>), so an operation of a
  module applies to any state that contains the module.  An operation takes the environment
  and the state and returns the state, with the C return value in front where there is one.
  Delayed work is an event of the trace (\<open>Work_schedule\<close>, \<open>Work_cancel\<close>); its handler is an
  operation of its own.

  \<^bold>\<open>How the parts interact.\<close>  The button broadcasts UI requests to the listeners of main.c,
  dfu.c, factory_reset.c and ring.c (\<open>request_listeners\<close>).  The modules report their states
  to the UI (\<open>app_ui_state_change_indicate\<close>).  main.c requests Fast Pair advertising through
  triggers, schedules factory resets and starts the Vision advertiser when the device is
  provisioned; the supervisor of the time manager stops and restarts that advertiser; the
  battery, the production UART and the GATT service share the persistent data.  The contracts
  between them are locales, interpreted on the modules' own operations: \<open>ui_listener\<close>
  (a listener keeps the UI contract), \<open>app_listener\<close> (it keeps the invariant of the
  firmware), \<open>reset_keeper\<close> (it leaves a pending reset alone), \<open>reset_participant\<close> (a reset
  callback makes none of the reset's own calls) and \<open>fp_frame\<close> (what the Fast Pair module
  cannot disturb, interpreted for the reset calls, for the rest of the application, for the
  persistent data, for the boot semaphore and for the UART and the Vision service) and
  \<open>aside_listener\<close> (a listener leaves the UART and the Vision service alone).

  \<^bold>\<open>The whole firmware.\<close>  A step of \<open>fw_step\<close> is one complete handler: an event of the
  application, the UART or the service, a periodic work handler, the timer that ends the
  ringing, a round of the LED thread, or the reset work; a halted processor makes no step.
  Steps may follow each other in any order, under what the callers promise (\<open>app_ok\<close>,
  \<open>uart_ok\<close>, \<open>svc_ok\<close>, \<open>fp_ok\<close>: for example one connection of the service at a time, and no
  run of the advertising restart while a Fast Pair client is connected; FpAdv and Interplay
  show what happens when these two fail, which the code does not prevent).  The states
  start with \<open>main\<close> at power on; the initialisation is one step.

  \<^bold>\<open>What the lemmas show.\<close>  For each module an invariant kept by every operation, the effect
  of the operations on every branch, and an abstract machine where the module has one
  (clock, DFU mode, advertising requests, pending reset, authenticated connections): Storage
  and Bootup: round trips of the byte layout, verification and reload; Advt: the stack is
  given the active payload; OnAir: intervals are exact, which refusals leave module and host
  in disagreement for good, the voltage field; TimeMgr: the clock, its recovery, the window as an
  arc of the day; Uart: only checksummed frames are answered and sent, a
  request without payload leaks the stack; Service: no command
  without password, balanced references, the format of the answers; Ui, Ring: silence when not
  ringing; Battery: the exact drain and the voltage table; FpAdv: advertising follows the
  requests, addresses are kept while an owner is provisioned; FactoryReset: the timer and the
  complete sequence of the reset; Diagnostics: the boot log determines the persistent data,
  the password included; Firmware: consistency of UI and modules, the GATT policy,
  the provisioning deadline, the button; Startup: termination of the identity loop and the
  outcome of the boot; System: the invariants of all modules in every reachable state;
  Events: what a disconnection and a provisioning report leave behind in all modules;
  Interplay: the DFU command and the SMP characteristic, a missed energy saving window, and a
  session that a second client breaks.

  \<^bold>\<open>Bounds.\<close>  No fuel is used: the loops of the program are structural recursions, except
  the identity loop of main.c, a \<open>partial_function\<close> whose termination is proved under the
  documented numbering of identities.  Word types have the widths of the C types.  64-bit
  tick and epoch values are unbounded integers (they cannot reach $2^{63}$ in the life of the
  device); single-precision overflow is not modelled (all values stay below $2^{24}$).

  \<^bold>\<open>Configuration.\<close>  The options of configuration/prj_release.conf: DFU on, three ring
  components, \<open>CONFIG_BT_ID_MAX\<close> 3, \<open>CONFIG_BT_MAX_CONN\<close> 3, no motion detector, I2C and
  the accelerometer commands off, assertions compiled out (they only leave an event in the
  trace, and calls made inside them are omitted).

  \<^bold>\<open>Not modelled.\<close>  Log output inside the operations and what only serves it (the names of
  triggers and modes; functions that only log are in BatteryLevel and Diagnostics as the
  lists of their lines); code that is commented out; the libraries and the kernel themselves; preemption inside an operation (handlers run one after the other, as on
  the system work queue, except where a property speaks of locks); the build system.
\<close>

end
